theory Spec2Isabelle
  imports Complex_Main
begin

section \<open>Numbers\<close>

text \<open>
  The source computes in C++ \<^verbatim>\<open>double\<close>. Two models of it are used below.

  \<^item> Spokes and vectors (\<^verbatim>\<open>vtkSRepSpoke\<close>, \<^verbatim>\<open>srep::Vector3d\<close>, not among the source files)
    are those of the specification's data model, with real coordinates, and what the
    refiner computes from them (the energies and their weighted sum, the lengths of
    the crest spokes) is computed in exact real arithmetic: type \<^typ>\<open>real\<close>. Rounding,
    overflow and underflow do not exist there.
  \<^item> The coordinates of \<^verbatim>\<open>srep::Point3d\<close>, the bounds and the matrix of the normalised
    cube, the radius \<^verbatim>\<open>exp(coeff) * oldRadius\<close> of \<^verbatim>\<open>Refine\<close> and the progress fraction are
    computed in the type \<open>double\<close> below: IEEE 754 binary64 with NaN and the two
    infinities, every operation rounded to nearest, ties to even. The two zeros are
    one value, as they are for \<^verbatim>\<open>==\<close> and \<^verbatim>\<open><\<close>; a zero divisor counts as \<open>+0\<close>.
\<close>

datatype double = Finite real | PosInf | NegInf | NaN

definition isnan :: "double \<Rightarrow> bool" where
  "isnan d = (d = NaN)"

definition isfinite :: "double \<Rightarrow> bool" where
  "isfinite d = (case d of Finite _ \<Rightarrow> True | _ \<Rightarrow> False)"

subsection \<open>Rounding\<close>

text \<open>\<open>2^e\<close> for an integer \<open>e\<close>.\<close>

definition pow2 :: "int \<Rightarrow> real" where
  "pow2 e = (if 0 \<le> e then 2 ^ nat e else 1 / 2 ^ nat (- e))"

text \<open>The integer nearest to \<open>x\<close>, the even one of the two when \<open>x\<close> is half-way.\<close>

definition rne :: "real \<Rightarrow> int" where
  "rne x =
     (let f = \<lfloor>x\<rfloor>; d = x - of_int f
      in if d < 1 / 2 then f else if 1 / 2 < d then f + 1 else if even f then f else f + 1)"

text \<open>
  The exponent of the unit in the last place of \<open>x\<close>: a binary64 number has 53
  significant bits, so a normal \<open>x\<close> with \<open>2^E \<le> |x| < 2^(E+1)\<close> is a multiple of
  \<open>2^(E-52)\<close>; below \<open>2^(-1022)\<close> the numbers are subnormal, multiples of \<open>2^(-1074)\<close>.
\<close>

definition ulp_exponent :: "real \<Rightarrow> int" where
  "ulp_exponent x = (if \<bar>x\<bar> < pow2 (- 1022) then - 1074 else \<lfloor>log 2 \<bar>x\<bar>\<rfloor> - 52)"

text \<open>
  \<open>rounded x\<close> is the multiple of the unit in the last place nearest to \<open>x\<close>, and
  \<open>round64 x\<close> the double a real result \<open>x\<close> is stored as: an infinity when the rounded
  value does not fit (\<open>2^1024\<close> or more).
\<close>

definition rounded :: "real \<Rightarrow> real" where
  "rounded x = of_int (rne (x / pow2 (ulp_exponent x))) * pow2 (ulp_exponent x)"

definition round64 :: "real \<Rightarrow> double" where
  "round64 x =
     (let y = rounded x
      in if pow2 1024 \<le> \<bar>y\<bar> then (if 0 < x then PosInf else NegInf) else Finite y)"

subsection \<open>Comparisons\<close>

text \<open>
  \<^verbatim>\<open>a < b\<close> on doubles. Every ordered comparison with NaN is false, and \<^verbatim>\<open>!=\<close> with NaN
  is true.
\<close>

fun dless :: "double \<Rightarrow> double \<Rightarrow> bool" where
  "dless (Finite x) (Finite y) = (x < y)"
| "dless (Finite x) PosInf = True"
| "dless NegInf (Finite y) = True"
| "dless NegInf PosInf = True"
| "dless _ _ = False"

text \<open>\<^verbatim>\<open>a != b\<close> and \<^verbatim>\<open>a == b\<close> on doubles.\<close>

fun dneq :: "double \<Rightarrow> double \<Rightarrow> bool" where
  "dneq NaN _ = True"
| "dneq _ NaN = True"
| "dneq a b = (a \<noteq> b)"

definition deq :: "double \<Rightarrow> double \<Rightarrow> bool" where
  "deq a b = (\<not> dneq a b)"

text \<open>\<^verbatim>\<open>a >= b\<close> on doubles: false when either side is NaN.\<close>

definition dge :: "double \<Rightarrow> double \<Rightarrow> bool" where
  "dge a b = (dless b a \<or> deq a b)"

text \<open>\<^verbatim>\<open>std::min(a, b)\<close> is \<^verbatim>\<open>(b < a) ? b : a\<close> and \<^verbatim>\<open>std::max(a, b)\<close> is \<^verbatim>\<open>(a < b) ? b : a\<close>.\<close>

definition dmin :: "double \<Rightarrow> double \<Rightarrow> double" where
  "dmin a b = (if dless b a then b else a)"

definition dmax :: "double \<Rightarrow> double \<Rightarrow> double" where
  "dmax a b = (if dless a b then b else a)"

subsection \<open>Arithmetic\<close>

text \<open>
  \<^verbatim>\<open>a - b\<close>, \<^verbatim>\<open>a + b\<close>, \<^verbatim>\<open>a * b\<close> and \<^verbatim>\<open>a / b\<close>: the exact result of two finite operands,
  rounded; \<open>inf - inf\<close>, \<open>0 * inf\<close>, \<open>0 / 0\<close>, \<open>inf / inf\<close> and every operation on NaN
  give NaN.
\<close>

fun dsub :: "double \<Rightarrow> double \<Rightarrow> double" where
  "dsub (Finite x) (Finite y) = round64 (x - y)"
| "dsub NaN _ = NaN"
| "dsub _ NaN = NaN"
| "dsub PosInf PosInf = NaN"
| "dsub NegInf NegInf = NaN"
| "dsub PosInf _ = PosInf"
| "dsub NegInf _ = NegInf"
| "dsub (Finite x) PosInf = NegInf"
| "dsub (Finite x) NegInf = PosInf"

fun dadd :: "double \<Rightarrow> double \<Rightarrow> double" where
  "dadd (Finite x) (Finite y) = round64 (x + y)"
| "dadd NaN _ = NaN"
| "dadd _ NaN = NaN"
| "dadd PosInf NegInf = NaN"
| "dadd NegInf PosInf = NaN"
| "dadd PosInf _ = PosInf"
| "dadd NegInf _ = NegInf"
| "dadd (Finite x) PosInf = PosInf"
| "dadd (Finite x) NegInf = NegInf"

text \<open>The sign of an infinite product: \<open>inf\<close> times a finite \<open>y\<close>.\<close>

definition inf_times :: "bool \<Rightarrow> real \<Rightarrow> double" where
  "inf_times positive y =
     (if y = 0 then NaN else if (0 < y) = positive then PosInf else NegInf)"

fun dmul :: "double \<Rightarrow> double \<Rightarrow> double" where
  "dmul (Finite x) (Finite y) = round64 (x * y)"
| "dmul NaN _ = NaN"
| "dmul _ NaN = NaN"
| "dmul PosInf (Finite y) = inf_times True y"
| "dmul NegInf (Finite y) = inf_times False y"
| "dmul (Finite x) PosInf = inf_times True x"
| "dmul (Finite x) NegInf = inf_times False x"
| "dmul PosInf PosInf = PosInf"
| "dmul NegInf NegInf = PosInf"
| "dmul PosInf NegInf = NegInf"
| "dmul NegInf PosInf = NegInf"

text \<open>A finite \<open>x\<close> over zero, and an infinity over a finite \<open>y\<close>.\<close>

definition over_zero :: "real \<Rightarrow> double" where
  "over_zero x = (if x = 0 then NaN else if 0 < x then PosInf else NegInf)"

definition inf_over :: "bool \<Rightarrow> real \<Rightarrow> double" where
  "inf_over positive y = (if (0 \<le> y) = positive then PosInf else NegInf)"

fun ddiv :: "double \<Rightarrow> double \<Rightarrow> double" where
  "ddiv (Finite x) (Finite y) = (if y = 0 then over_zero x else round64 (x / y))"
| "ddiv NaN _ = NaN"
| "ddiv _ NaN = NaN"
| "ddiv (Finite x) PosInf = Finite 0"
| "ddiv (Finite x) NegInf = Finite 0"
| "ddiv PosInf (Finite y) = inf_over True y"
| "ddiv NegInf (Finite y) = inf_over False y"
| "ddiv _ _ = NaN"

text \<open>
  \<^verbatim>\<open>pow(x, 0.5)\<close> of the C library: the square root of a finite \<open>x \<ge> 0\<close>, rounded, NaN
  for a finite \<open>x < 0\<close> (a domain error) and for NaN, and \<open>+inf\<close> for both infinities.
\<close>

fun pow_half :: "double \<Rightarrow> double" where
  "pow_half (Finite x) = (if 0 \<le> x then round64 (sqrt x) else NaN)"
| "pow_half PosInf = PosInf"
| "pow_half NegInf = PosInf"
| "pow_half NaN = NaN"

text \<open>
  \<^verbatim>\<open>exp(x)\<close> of the C library: the exponential of a finite \<open>x\<close>, rounded (so \<open>+inf\<close> when
  it overflows and 0 when it underflows), \<open>+inf\<close> at \<open>+inf\<close>, 0 at \<open>-inf\<close>, and NaN for NaN.
\<close>

fun dexp :: "double \<Rightarrow> double" where
  "dexp (Finite x) = round64 (exp x)"
| "dexp PosInf = PosInf"
| "dexp NegInf = Finite 0"
| "dexp NaN = NaN"

section \<open>Errors\<close>

text \<open>
  The exceptions of the source. \<^verbatim>\<open>std::invalid_argument\<close> and
  \<^verbatim>\<open>std::runtime_error\<close> derive from \<^verbatim>\<open>std::exception\<close>; \<open>other_exception\<close>
  stands for anything else that can be thrown (what only \<^verbatim>\<open>catch (...)\<close> catches).
\<close>

datatype error =
    invalid_argument string
  | runtime_error string
  | std_exception string
  | other_exception

section \<open>\<^verbatim>\<open>srep::Point3d\<close> (CommonLibrary/Point3d.cpp)\<close>

text \<open>
  The class has the three private members \<open>X\<close>, \<open>Y\<close>, \<open>Z\<close>. The type is polymorphic in
  the coordinate type, for the two number models above.
\<close>

datatype 'a Point3d = Point3d_raw (GetX: 'a) (GetY: 'a) (GetZ: 'a)

text \<open>\<^verbatim>\<open>Point3d::Point3d()\<close>\<close>

definition Point3d_default :: "double Point3d" where
  "Point3d_default = Point3d_raw (Finite 0) (Finite 0) (Finite 0)"

text \<open>\<^verbatim>\<open>Point3d::Point3d(double x, double y, double z)\<close>\<close>

definition Point3d :: "double \<Rightarrow> double \<Rightarrow> double \<Rightarrow> error + double Point3d" where
  "Point3d x y z =
     (if isnan x \<or> isnan y \<or> isnan z
      then Inl (invalid_argument ''Point cannot have a nan component'')
      else Inr (Point3d_raw x y z))"

definition SetX :: "double \<Rightarrow> double Point3d \<Rightarrow> error + double Point3d" where
  "SetX x p =
     (if isnan x then Inl (invalid_argument ''Point cannot have a nan component'')
      else Inr (Point3d_raw x (GetY p) (GetZ p)))"

definition SetY :: "double \<Rightarrow> double Point3d \<Rightarrow> error + double Point3d" where
  "SetY y p =
     (if isnan y then Inl (invalid_argument ''Point cannot have a nan component'')
      else Inr (Point3d_raw (GetX p) y (GetZ p)))"

definition SetZ :: "double \<Rightarrow> double Point3d \<Rightarrow> error + double Point3d" where
  "SetZ z p =
     (if isnan z then Inl (invalid_argument ''Point cannot have a nan component'')
      else Inr (Point3d_raw (GetX p) (GetY p) z))"

definition AsArray :: "'a Point3d \<Rightarrow> 'a list" where
  "AsArray p = [GetX p, GetY p, GetZ p]"

text \<open>
  \<^verbatim>\<open>vtkMath::Distance2BetweenPoints\<close> (VTK): the sum of the squares of the three
  coordinate differences, added from the first coordinate on.
\<close>

definition Distance2BetweenPoints :: "double list \<Rightarrow> double list \<Rightarrow> double" where
  "Distance2BetweenPoints p1 p2 =
     dadd (dadd (dmul (dsub (p1 ! 0) (p2 ! 0)) (dsub (p1 ! 0) (p2 ! 0)))
                (dmul (dsub (p1 ! 1) (p2 ! 1)) (dsub (p1 ! 1) (p2 ! 1))))
          (dmul (dsub (p1 ! 2) (p2 ! 2)) (dsub (p1 ! 2) (p2 ! 2)))"

text \<open>\<^verbatim>\<open>Point3d::Distance\<close>\<close>

definition Distance :: "double Point3d \<Rightarrow> double Point3d \<Rightarrow> double" where
  "Distance a b =
     (let distSquared = Distance2BetweenPoints (AsArray a) (AsArray b)
      in pow_half distSquared)"

text \<open>\<^verbatim>\<open>operator<\<close>, \<^verbatim>\<open>operator==\<close> and the four operators derived from them.\<close>

definition less_Point3d :: "double Point3d \<Rightarrow> double Point3d \<Rightarrow> bool" where
  "less_Point3d a b =
     (if dneq (GetX a) (GetX b) then dless (GetX a) (GetX b)
      else if dneq (GetY a) (GetY b) then dless (GetY a) (GetY b)
      else dless (GetZ a) (GetZ b))"

definition eq_Point3d :: "double Point3d \<Rightarrow> double Point3d \<Rightarrow> bool" where
  "eq_Point3d a b = (\<not> less_Point3d a b \<and> \<not> less_Point3d b a)"

definition neq_Point3d :: "double Point3d \<Rightarrow> double Point3d \<Rightarrow> bool" where
  "neq_Point3d a b = (less_Point3d a b \<or> less_Point3d b a)"

definition greater_Point3d :: "double Point3d \<Rightarrow> double Point3d \<Rightarrow> bool" where
  "greater_Point3d a b = less_Point3d b a"

definition le_Point3d :: "double Point3d \<Rightarrow> double Point3d \<Rightarrow> bool" where
  "le_Point3d a b = (\<not> less_Point3d b a)"

definition ge_Point3d :: "double Point3d \<Rightarrow> double Point3d \<Rightarrow> bool" where
  "ge_Point3d a b = (\<not> less_Point3d a b)"

text \<open>A point all of whose coordinates are finite.\<close>

definition finite_Point3d :: "double Point3d \<Rightarrow> bool" where
  "finite_Point3d p = (isfinite (GetX p) \<and> isfinite (GetY p) \<and> isfinite (GetZ p))"

text \<open>
  Two coordinates that are the same infinity (the one case in which the difference of
  two coordinates that are not NaN is NaN), and two points that have the same infinity
  in one of the three coordinates.
\<close>

definition same_infinity :: "double \<Rightarrow> double \<Rightarrow> bool" where
  "same_infinity x y = (x = y \<and> (x = PosInf \<or> x = NegInf))"

definition shares_infinity :: "double Point3d \<Rightarrow> double Point3d \<Rightarrow> bool" where
  "shares_infinity a b =
     (same_infinity (GetX a) (GetX b) \<or> same_infinity (GetY a) (GetY b)
      \<or> same_infinity (GetZ a) (GetZ b))"

section \<open>Bounds and the normalised cube (SRepRefinement/Logic/vtkSlicerSRepRefinementLogic.cxx)\<close>

text \<open>
  \<^verbatim>\<open>using Bounds = std::array<double, 6>\<close>: \<open>[xmin, xmax, ymin, ymax, zmin, zmax]\<close>, a list
  read by index as in the source.
\<close>

type_synonym Bounds = "double list"

text \<open>A \<^verbatim>\<open>vtkMatrix4x4\<close>: four rows of four elements.\<close>

type_synonym vtkMatrix4x4 = "double list list"

definition Zero :: vtkMatrix4x4 where
  "Zero = replicate 4 (replicate 4 (Finite 0))"

definition SetElement :: "nat \<Rightarrow> nat \<Rightarrow> double \<Rightarrow> vtkMatrix4x4 \<Rightarrow> vtkMatrix4x4" where
  "SetElement i j v mat = mat[i := (mat ! i)[j := v]]"

definition Clamp :: "double \<Rightarrow> double \<Rightarrow> double \<Rightarrow> double" where
  "Clamp val min' max' = (if dless val min' then min' else (if dless max' val then max' else val))"

definition CreateBoundsToImageCoordsTransform :: "Bounds \<Rightarrow> vtkMatrix4x4" where
  "CreateBoundsToImageCoordsTransform bounds =
     (let xRange = dsub (bounds ! 1) (bounds ! 0);
          yRange = dsub (bounds ! 3) (bounds ! 2);
          zRange = dsub (bounds ! 5) (bounds ! 4);
          transfomedRanges =
            (if dge xRange yRange \<and> dge xRange zRange then
               (Finite 1, ddiv yRange xRange, ddiv zRange xRange)
             else if dge yRange xRange \<and> dge yRange zRange then
               (ddiv xRange yRange, Finite 1, ddiv zRange yRange)
             else (ddiv xRange zRange, ddiv yRange zRange, Finite 1));
          xRangeTrans = fst transfomedRanges;
          yRangeTrans = fst (snd transfomedRanges);
          zRangeTrans = snd (snd transfomedRanges);
          xOriginTrans = dsub (Finite 0.5) (ddiv xRangeTrans (Finite 2));
          yOriginTrans = dsub (Finite 0.5) (ddiv yRangeTrans (Finite 2));
          zOriginTrans = dsub (Finite 0.5) (ddiv zRangeTrans (Finite 2));
          mat = Zero;
          mat = SetElement 0 0 (ddiv xRangeTrans xRange) mat;
          mat = SetElement 1 1 (ddiv yRangeTrans yRange) mat;
          mat = SetElement 2 2 (ddiv zRangeTrans zRange) mat;
          mat = SetElement 0 3 (dsub xOriginTrans (ddiv (dmul xRangeTrans (bounds ! 0)) xRange)) mat;
          mat = SetElement 1 3 (dsub yOriginTrans (ddiv (dmul yRangeTrans (bounds ! 2)) yRange)) mat;
          mat = SetElement 2 3 (dsub zOriginTrans (ddiv (dmul zRangeTrans (bounds ! 4)) zRange)) mat;
          mat = SetElement 3 3 (Finite 1) mat
      in mat)"

text \<open>
  \<^verbatim>\<open>ComputePolyDataToImageDataNewBounds\<close>. The source declares \<^verbatim>\<open>Bounds newBounds;\<close>
  without a value and assigns it in the three branches of an \<^verbatim>\<open>if\<close> / \<^verbatim>\<open>else if\<close> /
  \<^verbatim>\<open>else if\<close>; \<open>uninitialized\<close> is what the array holds before, and what is returned
  if no branch is taken (when a range is NaN).
\<close>

definition ComputePolyDataToImageDataNewBounds :: "Bounds \<Rightarrow> Bounds \<Rightarrow> Bounds" where
  "ComputePolyDataToImageDataNewBounds uninitialized bounds =
     (let range = [dsub (bounds ! 1) (bounds ! 0), dsub (bounds ! 3) (bounds ! 2),
                   dsub (bounds ! 5) (bounds ! 4)];
          ratioYX = ddiv (range ! 1) (range ! 0);
          ratioZX = ddiv (range ! 2) (range ! 0);
          ratioZY = ddiv (range ! 2) (range ! 1);
          newCenter = [Finite 0.5, Finite 0.5, Finite 0.5]
      in if dge (range ! 0) (range ! 1) \<and> dge (range ! 0) (range ! 2) then
           [Finite 0, Finite 1,
            dsub (newCenter ! 1) (dmul (Finite 0.5) ratioYX),
            dadd (newCenter ! 1) (dmul (Finite 0.5) ratioYX),
            dsub (newCenter ! 2) (dmul (Finite 0.5) ratioZX),
            dadd (newCenter ! 2) (dmul (Finite 0.5) ratioZX)]
         else if dge (range ! 1) (range ! 0) \<and> dge (range ! 1) (range ! 2) then
           [dsub (newCenter ! 0) (ddiv (Finite 0.5) ratioYX),
            dadd (newCenter ! 0) (ddiv (Finite 0.5) ratioYX),
            Finite 0, Finite 1,
            dsub (newCenter ! 2) (dmul (Finite 0.5) ratioZY),
            dadd (newCenter ! 2) (dmul (Finite 0.5) ratioZY)]
         else if dge (range ! 2) (range ! 0) \<and> dge (range ! 2) (range ! 1) then
           [dsub (newCenter ! 0) (ddiv (Finite 0.5) ratioZX),
            dadd (newCenter ! 0) (ddiv (Finite 0.5) ratioZX),
            dsub (newCenter ! 1) (ddiv (Finite 0.5) ratioZY),
            dadd (newCenter ! 1) (ddiv (Finite 0.5) ratioZY),
            Finite 0, Finite 1]
         else uninitialized)"

text \<open>The range of axis \<open>i\<close> (0, 1, 2) of a box, as the two functions compute it.\<close>

definition axis_range :: "Bounds \<Rightarrow> nat \<Rightarrow> double" where
  "axis_range b i = dsub (b ! (2 * i + 1)) (b ! (2 * i))"

section \<open>The skeletal grid\<close>

text \<open>
  The classes of the s-rep library (\<^verbatim>\<open>srep::Vector3d\<close>, \<^verbatim>\<open>vtkSRepSpoke\<close>,
  \<^verbatim>\<open>vtkSRepSkeletalPoint\<close>, \<^verbatim>\<open>vtkEllipticalSRep\<close>) belong to the repository but are
  not among the source files; the refinement logic calls them. They are modelled from
  the data model of the specification (section 3 and 4.1), with real coordinates.
\<close>

text \<open>
  Modelled from the spec: \<^verbatim>\<open>srep::Vector3d\<close>, ``3 real-valued components, derived as
  (to - from) between two points, or built directly; supports unit-normalization, scalar
  scaling, and elementwise subtraction/addition''.
\<close>

datatype Vector3d = Vector3d (vec_x: real) (vec_y: real) (vec_z: real)


definition GetLength :: "Vector3d \<Rightarrow> real" where
  "GetLength v = sqrt (vec_x v * vec_x v + vec_y v * vec_y v + vec_z v * vec_z v)"

definition times_Vector3d :: "Vector3d \<Rightarrow> real \<Rightarrow> Vector3d" where
  "times_Vector3d v k = Vector3d (vec_x v * k) (vec_y v * k) (vec_z v * k)"

definition divide_Vector3d :: "Vector3d \<Rightarrow> real \<Rightarrow> Vector3d" where
  "divide_Vector3d v k = Vector3d (vec_x v / k) (vec_y v / k) (vec_z v / k)"

definition plus_Vector3d :: "Vector3d \<Rightarrow> Vector3d \<Rightarrow> Vector3d" where
  "plus_Vector3d v w = Vector3d (vec_x v + vec_x w) (vec_y v + vec_y w) (vec_z v + vec_z w)"

definition minus_Vector3d :: "Vector3d \<Rightarrow> Vector3d \<Rightarrow> Vector3d" where
  "minus_Vector3d v w = Vector3d (vec_x v - vec_x w) (vec_y v - vec_y w) (vec_z v - vec_z w)"

text \<open>
  Modelled from the spec: ``a zero vector has undefined unit direction (must be
  guarded)''. What \<^verbatim>\<open>Unit()\<close> does on the zero vector is the parameter \<open>zero_unit\<close>: an
  exception, or some vector. On every other vector it is the vector over its length.
\<close>

definition Unit :: "error + Vector3d \<Rightarrow> Vector3d \<Rightarrow> error + Vector3d" where
  "Unit zero_unit v =
     (if GetLength v = 0 then zero_unit else Inr (divide_Vector3d v (GetLength v)))"

text \<open>
  Modelled from the spec: \<^verbatim>\<open>vtkSRepSpoke\<close>, ``a skeletal anchor point plus a direction
  vector whose magnitude is the spoke's radius/length. Boundary point = skeletal point +
  direction. Mutation operations: set radius only (direction unchanged), set
  direction+magnitude atomically, move the skeletal point.'' The radius is not validated
  (section 9 of the specification).
\<close>

record vtkSRepSpoke =
  SkeletalPoint :: "real Point3d"
  Direction :: Vector3d

definition GetRadius :: "vtkSRepSpoke \<Rightarrow> real" where
  "GetRadius spoke = GetLength (Direction spoke)"

definition GetBoundaryPoint :: "vtkSRepSpoke \<Rightarrow> real Point3d" where
  "GetBoundaryPoint spoke =
     Point3d_raw (GetX (SkeletalPoint spoke) + vec_x (Direction spoke))
                 (GetY (SkeletalPoint spoke) + vec_y (Direction spoke))
                 (GetZ (SkeletalPoint spoke) + vec_z (Direction spoke))"

definition SetRadius :: "error + Vector3d \<Rightarrow> real \<Rightarrow> vtkSRepSpoke \<Rightarrow> error + vtkSRepSpoke" where
  "SetRadius zero_unit radius spoke =
     (case Unit zero_unit (Direction spoke) of
        Inl e \<Rightarrow> Inl e
      | Inr u \<Rightarrow> Inr (spoke\<lparr>Direction := times_Vector3d u radius\<rparr>))"

definition SetDirectionAndMagnitude :: "Vector3d \<Rightarrow> vtkSRepSpoke \<Rightarrow> vtkSRepSpoke" where
  "SetDirectionAndMagnitude v spoke = spoke\<lparr>Direction := v\<rparr>"

definition SetSkeletalPoint :: "real Point3d \<Rightarrow> vtkSRepSpoke \<Rightarrow> vtkSRepSpoke" where
  "SetSkeletalPoint p spoke = spoke\<lparr>SkeletalPoint := p\<rparr>"

datatype SpokeOrientation = UpOrientation | DownOrientation | CrestOrientation

text \<open>
  Modelled from the spec: \<^verbatim>\<open>vtkSRepSkeletalPoint\<close>, which ``owns an up-spoke and a
  down-spoke always; owns a crest-spoke iff \<open>step == max step\<close>''. The type parameter is
  what stands for a spoke: its address in the store (the grid holds smart pointers to
  its spokes), or the spoke itself in a snapshot of a grid.
\<close>

datatype 'sp vtkSRepSkeletalPoint =
  SkeletalPointOf (UpSpoke: 'sp) (DownSpoke: 'sp) (CrestSpoke: "'sp option")

definition IsCrest :: "'sp vtkSRepSkeletalPoint \<Rightarrow> bool" where
  "IsCrest p = (CrestSpoke p \<noteq> None)"

text \<open>\<^verbatim>\<open>GetSpoke(orientation)\<close>: a pointer, null (\<open>None\<close>) for the crest spoke of an interior point.\<close>

fun GetSpoke :: "SpokeOrientation \<Rightarrow> 'sp vtkSRepSkeletalPoint \<Rightarrow> 'sp option" where
  "GetSpoke UpOrientation p = Some (UpSpoke p)"
| "GetSpoke DownOrientation p = Some (DownSpoke p)"
| "GetSpoke CrestOrientation p = CrestSpoke p"

fun SetSpoke :: "SpokeOrientation \<Rightarrow> 'sp option \<Rightarrow> 'sp vtkSRepSkeletalPoint \<Rightarrow> 'sp vtkSRepSkeletalPoint" where
  "SetSpoke UpOrientation (Some a) p = SkeletalPointOf a (DownSpoke p) (CrestSpoke p)"
| "SetSpoke DownOrientation (Some a) p = SkeletalPointOf (UpSpoke p) a (CrestSpoke p)"
| "SetSpoke CrestOrientation c p = SkeletalPointOf (UpSpoke p) (DownSpoke p) c"
| "SetSpoke _ None p = p"

text \<open>
  Modelled from the spec: \<^verbatim>\<open>vtkEllipticalSRep\<close>, ``an ordered 2D sequence of Skeletal
  Points (lines x steps). Invariants: every row has the same step-count; [...] grid may
  be empty (no lines)''. The fold point of a line is its last step.
\<close>

type_synonym 'sp vtkEllipticalSRep = "'sp vtkSRepSkeletalPoint list list"

definition GetNumberOfLines :: "'sp vtkEllipticalSRep \<Rightarrow> nat" where
  "GetNumberOfLines srep = length srep"

definition GetNumberOfSteps :: "'sp vtkEllipticalSRep \<Rightarrow> nat" where
  "GetNumberOfSteps srep = (case srep of [] \<Rightarrow> 0 | line # _ \<Rightarrow> length line)"

definition IsEmpty :: "'sp vtkEllipticalSRep \<Rightarrow> bool" where
  "IsEmpty srep = (srep = [])"

definition GetSkeletalPoint :: "'sp vtkEllipticalSRep \<Rightarrow> nat \<Rightarrow> nat \<Rightarrow> 'sp vtkSRepSkeletalPoint" where
  "GetSkeletalPoint srep l s = srep ! l ! s"

definition SetSkeletalPointAt ::
  "nat \<Rightarrow> nat \<Rightarrow> 'sp vtkSRepSkeletalPoint \<Rightarrow> 'sp vtkEllipticalSRep \<Rightarrow> 'sp vtkEllipticalSRep" where
  "SetSkeletalPointAt l s p srep = srep[l := (srep ! l)[s := p]]"

text \<open>
  The invariants of a grid: every line has the same number of steps (\<open>same_steps\<close>), at
  least one, and the skeletal point of a line that has a crest spoke is the last one.
\<close>

definition same_steps :: "'sp vtkEllipticalSRep \<Rightarrow> bool" where
  "same_steps srep = list_all (\<lambda>line. length line = GetNumberOfSteps srep) srep"

definition valid_grid :: "'sp vtkEllipticalSRep \<Rightarrow> bool" where
  "valid_grid srep =
     (same_steps srep
      \<and> (srep \<noteq> [] \<longrightarrow> 0 < GetNumberOfSteps srep)
      \<and> list_all (\<lambda>line. list_all (\<lambda>s. IsCrest (line ! s) = (s + 1 = length line)) [0..<length line]) srep)"

subsection \<open>The store\<close>

text \<open>
  Spokes are objects shared through smart pointers: the refinement mutates them in
  place, clones grids, and moves spokes of one grid into another
  (\<^verbatim>\<open>RefineUpDownSpokes\<close>). The store holds every spoke object; an address is an index
  into it. Objects are never freed in the model, and an address is never reused.
\<close>

type_synonym addr = nat
type_synonym store = "vtkSRepSpoke list"

definition alloc :: "vtkSRepSpoke \<Rightarrow> store \<Rightarrow> addr \<times> store" where
  "alloc spoke h = (length h, h @ [spoke])"

text \<open>The addresses a grid holds, and a grid all of whose spokes are objects of the store.\<close>

definition spokes_of_point :: "'sp vtkSRepSkeletalPoint \<Rightarrow> 'sp list" where
  "spokes_of_point p =
     UpSpoke p # DownSpoke p # (case CrestSpoke p of None \<Rightarrow> [] | Some c \<Rightarrow> [c])"

definition spokes_of :: "'sp vtkEllipticalSRep \<Rightarrow> 'sp list" where
  "spokes_of srep = concat (map spokes_of_point (concat srep))"

definition in_store :: "store \<Rightarrow> addr vtkEllipticalSRep \<Rightarrow> bool" where
  "in_store h srep = list_all (\<lambda>a. a < length h) (spokes_of srep)"

text \<open>The grid with every address replaced by the spoke it points to.\<close>

definition snapshot :: "store \<Rightarrow> addr vtkEllipticalSRep \<Rightarrow> vtkSRepSpoke vtkEllipticalSRep" where
  "snapshot h srep = map (map (map_vtkSRepSkeletalPoint (\<lambda>a. h ! a))) srep"

text \<open>
  Modelled from the spec: \<^verbatim>\<open>SmartClone()\<close>, ``deep copy semantics -- independent spokes'':
  every spoke of the grid is copied into a new object.
\<close>

definition ClonePoint :: "addr vtkSRepSkeletalPoint \<Rightarrow> store \<Rightarrow> addr vtkSRepSkeletalPoint \<times> store" where
  "ClonePoint p h =
     (let (up, h) = alloc (h ! UpSpoke p) h;
          (down, h) = alloc (h ! DownSpoke p) h;
          (crest, h) = (case CrestSpoke p of
                          None \<Rightarrow> (None, h)
                        | Some c \<Rightarrow> (let (c', h) = alloc (h ! c) h in (Some c', h)))
      in (SkeletalPointOf up down crest, h))"

fun CloneLine :: "addr vtkSRepSkeletalPoint list \<Rightarrow> store \<Rightarrow> addr vtkSRepSkeletalPoint list \<times> store" where
  "CloneLine [] h = ([], h)"
| "CloneLine (p # ps) h =
     (let (p', h) = ClonePoint p h; (ps', h) = CloneLine ps h in (p' # ps', h))"

fun SmartClone :: "addr vtkEllipticalSRep \<Rightarrow> store \<Rightarrow> addr vtkEllipticalSRep \<times> store" where
  "SmartClone [] h = ([], h)"
| "SmartClone (line # lines) h =
     (let (line', h) = CloneLine line h; (lines', h) = SmartClone lines h in (line' # lines', h))"

subsection \<open>Loops that may throw\<close>

text \<open>
  A statement returns \<open>None\<close> when it completes and \<open>Some e\<close> when it throws \<open>e\<close>, together
  with the state it leaves. \<open>for_each\<close> is a \<^verbatim>\<open>for\<close> loop over the given indices whose body
  is such a statement: it stops at the first exception.
\<close>

fun for_each :: "'i list \<Rightarrow> ('i \<Rightarrow> 's \<Rightarrow> error option \<times> 's) \<Rightarrow> 's \<Rightarrow> error option \<times> 's" where
  "for_each [] body s = (None, s)"
| "for_each (i # is) body s =
     (case body i s of
        (None, s') \<Rightarrow> for_each is body s'
      | (Some e, s') \<Rightarrow> (Some e, s'))"


section \<open>The refiner (class \<^verbatim>\<open>Refiner\<close> of vtkSlicerSRepRefinementLogic.cxx)\<close>

subsection \<open>Collaborators\<close>

text \<open>
  The target surface. The refinement consumes a \<^verbatim>\<open>vtkPolyData\<close> through VTK filters
  only; the record holds what those filters answer for it: its bounding box
  (\<^verbatim>\<open>GetBounds\<close>), the signed distance of a point to the surface
  (\<^verbatim>\<open>vtkImplicitPolyDataDistance::FunctionValue\<close>), the two arrays of principal
  curvatures that \<^verbatim>\<open>vtkCurvatures\<close> attaches to its points (\<open>None\<close> when the array is
  missing or is not a \<^verbatim>\<open>vtkDoubleArray\<close>), and the index of the mesh point nearest to a
  point (\<^verbatim>\<open>vtkPointLocator::FindClosestPoint\<close>).
\<close>

record vtkPolyData =
  GetBounds :: Bounds
  FunctionValue :: "real list \<Rightarrow> real"
  Maximum_Curvature :: "(nat \<Rightarrow> real) option"
  Minimum_Curvature :: "(nat \<Rightarrow> real) option"
  FindClosestPoint :: "real list \<Rightarrow> nat"

text \<open>
  One decision of the minimiser: evaluate the objective function at a point, or stop
  with a result.
\<close>

datatype newuoa_decision = Evaluate "real list" | Stop "real list"

text \<open>
  The rest of what the refiner calls and the source files do not define.
  \<^item> \<open>zero_unit\<close>: the unit direction of the zero vector (see \<open>Unit\<close>).
  \<^item> \<open>GetSRepBounds\<close>: \<^verbatim>\<open>vtkMRMLSRepNode::GetSRepBounds\<close>.
  \<^item> \<open>BuildSignedDistanceMap\<close>: whether \<^verbatim>\<open>CreateAntiAliasSignedDistanceMap\<close>, which
    rasterises the mesh (VTK) and computes the distance and gradient images (ITK),
    completes (\<open>None\<close>) or throws.
  \<^item> \<open>SmartInterpolateSRep\<close>: \<^verbatim>\<open>vtkSlicerSRepLogic::SmartInterpolateSRep\<close>, from a grid to a
    new, finer grid, or an exception.
  \<^item> \<open>ComputeDistanceSquaredAndNormalToImage\<close> and \<open>ComputeRSradPenalty\<close>: the energy
    terms (L0, L1) and L2 of a grid. The two functions of the source read the distance
    and gradient images and call Eigen; they do not write to the refiner or to the grid
    they are given. Here they are any functions of the grid and the orientation, that
    may throw.
  \<^item> \<open>newuoa_next\<close> and \<open>newuoa_exhausted\<close>: the minimiser, see \<open>min_newuoa\<close>.
\<close>

record Environment =
  zero_unit :: "error + Vector3d"
  GetSRepBounds :: "vtkSRepSpoke vtkEllipticalSRep \<Rightarrow> Bounds"
  BuildSignedDistanceMap :: "vtkPolyData \<Rightarrow> Bounds \<Rightarrow> real \<Rightarrow> error option"
  SmartInterpolateSRep ::
    "vtkSRepSpoke vtkEllipticalSRep \<Rightarrow> int \<Rightarrow> error + vtkSRepSpoke vtkEllipticalSRep"
  ComputeDistanceSquaredAndNormalToImage ::
    "vtkSRepSpoke vtkEllipticalSRep \<Rightarrow> SpokeOrientation \<Rightarrow> error + real \<times> real"
  ComputeRSradPenalty :: "vtkSRepSpoke vtkEllipticalSRep \<Rightarrow> SpokeOrientation \<Rightarrow> error + real"
  newuoa_next :: "real list \<Rightarrow> real \<Rightarrow> real \<Rightarrow> (real list \<times> real) list \<Rightarrow> newuoa_decision"
  newuoa_exhausted :: "real list \<Rightarrow> (real list \<times> real) list \<Rightarrow> real list"

subsection \<open>Machine integers\<close>

text \<open>
  The value of an \<^verbatim>\<open>int\<close> expression: the mathematical value wrapped into
  \<open>[-2^31, 2^31)\<close>. \<open>size_t_of_int\<close> is the conversion of an \<^verbatim>\<open>int\<close> to \<^verbatim>\<open>size_t\<close> (64 bits).
\<close>

definition int32 :: "int \<Rightarrow> int" where
  "int32 x = (x + 2 ^ 31) mod 2 ^ 32 - 2 ^ 31"

definition size_t_of_int :: "int \<Rightarrow> nat" where
  "size_t_of_int x = nat (x mod 2 ^ 64)"

text \<open>
  \<^verbatim>\<open>static_cast<double>(i) / t\<close> for two \<^verbatim>\<open>int\<close>s: both are converted exactly, and the
  quotient is rounded; an infinity or NaN when \<open>t\<close> is 0.
\<close>

definition int_quotient :: "int \<Rightarrow> int \<Rightarrow> double" where
  "int_quotient i t = ddiv (Finite (real_of_int i)) (Finite (real_of_int t))"

subsection \<open>State\<close>

text \<open>
  The members of the class, and with them the three parts of the world a run acts on:
  the store of spoke objects (\<open>heap\<close>), the values passed to the progress callback so
  far, in order (\<open>progress\<close>), and the number of times the distance field has been built
  (\<open>fieldConstructions\<close>). A progress callback is given by the exception it throws for
  a value, if any. \<open>m_currentCoeff\<close> points to one of the two coefficient vectors
  (\<open>None\<close> is the null pointer). The images of \<^verbatim>\<open>m_sdfAndGradient\<close> are read by the energy
  terms of the environment only and are not a field here.
\<close>

type_synonym ProgressCallbackFunction = "double \<Rightarrow> error option"

record Refiner =
  heap :: store
  progress :: "double list"
  fieldConstructions :: nat
  m_voxelSpacing :: real
  m_polyData :: vtkPolyData
  m_srep :: "addr vtkEllipticalSRep"
  m_masterBounds :: Bounds
  m_srepToImageCoordsTransform :: vtkMatrix4x4
  m_flattenedUpCoeff :: "real list"
  m_flattenedDownCoeff :: "real list"
  m_initialRegionSize :: real
  m_finalRegionSize :: real
  m_maxIterations :: int
  m_interpolationLevel :: int
  m_currentCoeff :: "SpokeOrientation option"
  m_L0Weight :: real
  m_L1Weight :: real
  m_L2Weight :: real
  m_iteration :: int
  m_totalProgressIterations :: int
  m_progressCallback :: "ProgressCallbackFunction option"

subsection \<open>Progress\<close>

definition ReportProgress :: "Refiner \<Rightarrow> error option \<times> Refiner" where
  "ReportProgress r =
     (case m_progressCallback r of
        None \<Rightarrow> (None, r)
      | Some callback \<Rightarrow>
          (let p = int_quotient (m_iteration r) (m_totalProgressIterations r)
           in (callback p, r\<lparr>progress := progress r @ [p]\<rparr>)))"

definition IncrementIteration :: "Refiner \<Rightarrow> error option \<times> Refiner" where
  "IncrementIteration r = ReportProgress (r\<lparr>m_iteration := int32 (m_iteration r + 1)\<rparr>)"

subsection \<open>Rebuilding a grid from coefficients: \<^verbatim>\<open>Refine\<close>\<close>

text \<open>
  The body of the two loops of \<^verbatim>\<open>Refine\<close> for the spoke at address \<open>a\<close>. The state is the
  coefficient index \<open>c\<close> and the store. The source reads \<^verbatim>\<open>coeff[c]\<close> .. \<^verbatim>\<open>coeff[c+3]\<close>
  through a raw pointer: the array has four entries per spoke of the grid when
  \<^verbatim>\<open>min_newuoa\<close> calls, and a shorter array is undefined behaviour. The store holds
  the spokes of the specification's data model, with real coordinates, so the radius is
  the exact product here; what the expression gives in binary64 is \<open>newRadius\<close> below.
\<close>

definition Refine_spoke ::
  "Environment \<Rightarrow> real list \<Rightarrow> addr \<Rightarrow> nat \<times> store \<Rightarrow> error option \<times> (nat \<times> store)" where
  "Refine_spoke env coeff a = (\<lambda>(c, h).
     (let tolerance = 1 / 10 ^ 13;
          spoke = h ! a;
          oldRadius = GetRadius spoke
      in case Unit (zero_unit env) (Direction spoke) of
           Inl e \<Rightarrow> (Some e, (c, h))
         | Inr oldUnitDir \<Rightarrow>
             (let newUnitDir = Vector3d (coeff ! c) (coeff ! (c + 1)) (coeff ! (c + 2));
                  c = c + 3;
                  newRadius = exp (coeff ! c) * oldRadius;
                  c = c + 1
              in if \<bar>oldRadius - newRadius\<bar> \<ge> tolerance
                    \<or> \<bar>vec_x oldUnitDir - vec_x newUnitDir\<bar> \<ge> tolerance
                    \<or> \<bar>vec_y oldUnitDir - vec_y newUnitDir\<bar> \<ge> tolerance
                    \<or> \<bar>vec_z oldUnitDir - vec_z newUnitDir\<bar> \<ge> tolerance
                 then (None, (c, h[a := SetDirectionAndMagnitude (times_Vector3d newUnitDir newRadius) spoke]))
                 else (None, (c, h)))))"

text \<open>
  The initialiser of the local variable \<^verbatim>\<open>newRadius\<close> of \<^verbatim>\<open>Refine\<close>,
  \<^verbatim>\<open>exp(coeff[c++]) * oldRadius\<close>, on doubles.
\<close>

definition newRadius :: "double \<Rightarrow> double \<Rightarrow> double" where
  "newRadius coeff oldRadius = dmul (dexp coeff) oldRadius"

text \<open>
  \<^verbatim>\<open>Refine\<close>: the clone is made first, then the orientation is checked. In the branch of
  the loops the orientation is up or down, so \<^verbatim>\<open>GetSpoke\<close> is not null there.
\<close>

definition Refine ::
  "Environment \<Rightarrow> addr vtkEllipticalSRep \<Rightarrow> real list \<Rightarrow> SpokeOrientation \<Rightarrow> store
     \<Rightarrow> (error + addr vtkEllipticalSRep) \<times> store" where
  "Refine env srep coeff spokeType h =
     (let (clone, h) = SmartClone srep h
      in if spokeType = UpOrientation \<or> spokeType = DownOrientation then
           (case for_each [0..<GetNumberOfLines clone] (\<lambda>l.
                   for_each [0..<GetNumberOfSteps clone] (\<lambda>s.
                     Refine_spoke env coeff (the (GetSpoke spokeType (GetSkeletalPoint clone l s)))))
                   (0, h) of
              (None, (c, h)) \<Rightarrow> (Inr clone, h)
            | (Some e, (c, h)) \<Rightarrow> (Inl e, h))
         else (Inl (invalid_argument ''Don't know how to refine spoke of type''), h))"

subsection \<open>The objective function\<close>

text \<open>
  The \<^verbatim>\<open>try\<close> block of \<^verbatim>\<open>EvaluateObjectiveFunction\<close>: its value, or the exception that
  leaves it. (The line written to \<^verbatim>\<open>std::cout\<close> is not modelled.)
\<close>

definition EvaluateObjectiveFunction_try ::
  "Environment \<Rightarrow> real list \<Rightarrow> SpokeOrientation \<Rightarrow> Refiner \<Rightarrow> (error + real) \<times> Refiner" where
  "EvaluateObjectiveFunction_try env coeff spokeType r =
     (case Refine env (m_srep r) coeff spokeType (heap r) of
        (Inl e, h) \<Rightarrow> (Inl e, r\<lparr>heap := h\<rparr>)
      | (Inr tempSRep, h) \<Rightarrow>
          (let r = r\<lparr>heap := h\<rparr>
           in case SmartInterpolateSRep env (snapshot h tempSRep) (m_interpolationLevel r) of
                Inl e \<Rightarrow> (Inl e, r)
              | Inr interpolatedTempSRep \<Rightarrow>
                  (case ComputeDistanceSquaredAndNormalToImage env interpolatedTempSRep spokeType of
                     Inl e \<Rightarrow> (Inl e, r)
                   | Inr (distanceSquared, normalPenalty) \<Rightarrow>
                       (case ComputeRSradPenalty env interpolatedTempSRep spokeType of
                          Inl e \<Rightarrow> (Inl e, r)
                        | Inr srad \<Rightarrow>
                            (let val = distanceSquared * m_L0Weight r
                                       + normalPenalty * m_L1Weight r
                                       + srad * m_L2Weight r
                             in case IncrementIteration r of
                                  (Some e, r) \<Rightarrow> (Inl e, r)
                                | (None, r) \<Rightarrow> (Inr val, r))))))"

text \<open>
  \<^verbatim>\<open>EvaluateObjectiveFunction\<close>: the two handlers, \<^verbatim>\<open>catch (const std::exception&)\<close> and
  \<^verbatim>\<open>catch (...)\<close>, both return \<^verbatim>\<open>1e10\<close>.
\<close>

definition EvaluateObjectiveFunction ::
  "Environment \<Rightarrow> real list \<Rightarrow> SpokeOrientation \<Rightarrow> Refiner \<Rightarrow> real \<times> Refiner" where
  "EvaluateObjectiveFunction env coeff spokeType r =
     (case EvaluateObjectiveFunction_try env coeff spokeType r of
        (Inr val, r) \<Rightarrow> (val, r)
      | (Inl e, r) \<Rightarrow>
          (case e of
             other_exception \<Rightarrow> (10000000000, r)
           | _ \<Rightarrow> (10000000000, r)))"

subsection \<open>The minimiser\<close>

text \<open>
  Modelled from the spec: \<^verbatim>\<open>min_newuoa\<close> (Private/newuoa.h, not among the source files),
  ``a derivative-free bound-free numerical minimizer (trust-region-style, evaluating the
  Evaluator as a black box) for up to \<open>maxIterations\<close> evaluations''. Which points it
  evaluates and what it returns is the environment's \<open>newuoa_next\<close>, a function of the
  start vector, the two region sizes and the evaluations made so far; after
  \<open>maxIterations\<close> evaluations it returns \<open>newuoa_exhausted\<close>. It does not throw.
\<close>

fun min_newuoa_loop ::
  "Environment \<Rightarrow> (real list \<Rightarrow> Refiner \<Rightarrow> real \<times> Refiner) \<Rightarrow> real list \<Rightarrow> real \<Rightarrow> real
     \<Rightarrow> nat \<Rightarrow> (real list \<times> real) list \<Rightarrow> Refiner \<Rightarrow> real list \<times> Refiner" where
  "min_newuoa_loop env func x rhobeg rhoend 0 evaluations r = (newuoa_exhausted env x evaluations, r)"
| "min_newuoa_loop env func x rhobeg rhoend (Suc remaining) evaluations r =
     (case newuoa_next env x rhobeg rhoend evaluations of
        Stop result \<Rightarrow> (result, r)
      | Evaluate coeff \<Rightarrow>
          (let (val, r) = func coeff r
           in min_newuoa_loop env func x rhobeg rhoend remaining (evaluations @ [(coeff, val)]) r))"

definition min_newuoa ::
  "Environment \<Rightarrow> real list \<Rightarrow> (real list \<Rightarrow> Refiner \<Rightarrow> real \<times> Refiner) \<Rightarrow> real \<Rightarrow> real \<Rightarrow> int
     \<Rightarrow> Refiner \<Rightarrow> real list \<times> Refiner" where
  "min_newuoa env x func r_start tol max_iter r =
     min_newuoa_loop env func x r_start tol (nat max_iter) [] r"

subsection \<open>Up and down spokes\<close>

definition RefineUpDownSpokes :: "Environment \<Rightarrow> SpokeOrientation \<Rightarrow> Refiner \<Rightarrow> error option \<times> Refiner" where
  "RefineUpDownSpokes env spokeType r =
     (let r = r\<lparr>m_currentCoeff := Some (if spokeType = UpOrientation then UpOrientation else DownOrientation)\<rparr>;
          start = (if spokeType = UpOrientation then m_flattenedUpCoeff r else m_flattenedDownCoeff r);
          (coeff, r) = min_newuoa env start (\<lambda>coeff. EvaluateObjectiveFunction env coeff spokeType)
                         (m_initialRegionSize r) (m_finalRegionSize r) (m_maxIterations r) r;
          r = (if spokeType = UpOrientation then r\<lparr>m_flattenedUpCoeff := coeff\<rparr>
               else r\<lparr>m_flattenedDownCoeff := coeff\<rparr>)
      in case Refine env (m_srep r) coeff spokeType (heap r) of
           (Inl e, h) \<Rightarrow> (Some e, r\<lparr>heap := h\<rparr>)
         | (Inr refinedSRep, h) \<Rightarrow>
             (let r = r\<lparr>heap := h\<rparr>
              in if GetNumberOfLines (m_srep r) \<noteq> GetNumberOfLines refinedSRep then
                   (Some (runtime_error ''Error: expected equal number of lines''), r)
                 else if GetNumberOfSteps (m_srep r) \<noteq> GetNumberOfSteps refinedSRep then
                   (Some (runtime_error ''Error: expected equal number of steps''), r)
                 else
                   for_each [0..<GetNumberOfLines (m_srep r)] (\<lambda>l.
                     for_each [0..<GetNumberOfSteps (m_srep r)] (\<lambda>s r.
                       (None, r\<lparr>m_srep :=
                          SetSkeletalPointAt l s
                            (SetSpoke spokeType (GetSpoke spokeType (GetSkeletalPoint refinedSRep l s))
                               (GetSkeletalPoint (m_srep r) l s))
                            (m_srep r)\<rparr>))) r))"

subsection \<open>Crest spokes\<close>

text \<open>
  The inner loop of \<^verbatim>\<open>OptimizeCrestSpokeLengths\<close> on one crest spoke, which the source
  holds by reference: \<open>n\<close> iterations are left, \<open>distance\<close> (\<^verbatim>\<open>dist\<close> in the source), \<open>oldDist\<close> and \<open>thisStepSize\<close> are
  the three local variables. It returns the spoke as the loop leaves it, also when
  \<^verbatim>\<open>SetRadius\<close> throws.
\<close>

fun OptimizeCrestSpokeLength ::
  "Environment \<Rightarrow> vtkPolyData \<Rightarrow> nat \<Rightarrow> real \<Rightarrow> real \<Rightarrow> real \<Rightarrow> vtkSRepSpoke
     \<Rightarrow> error option \<times> vtkSRepSpoke" where
  "OptimizeCrestSpokeLength env polyData 0 distance oldDist thisStepSize spoke = (None, spoke)"
| "OptimizeCrestSpokeLength env polyData (Suc n) distance oldDist thisStepSize spoke =
     (let epsilon = 1 / 100000
      in if \<bar>distance\<bar> \<le> epsilon then (None, spoke)
         else
           (case (if distance > 0
                  then SetRadius (zero_unit env) (GetRadius spoke - thisStepSize) spoke
                  else SetRadius (zero_unit env) (GetRadius spoke + thisStepSize) spoke) of
              Inl e \<Rightarrow> (Some e, spoke)
            | Inr spoke \<Rightarrow>
                (let distance = FunctionValue polyData (AsArray (GetBoundaryPoint spoke));
                     thisStepSize = (if oldDist * distance < 0 then thisStepSize / 10 else thisStepSize);
                     oldDist = distance
                 in OptimizeCrestSpokeLength env polyData n distance oldDist thisStepSize spoke)))"

text \<open>
  \<^verbatim>\<open>OptimizeCrestSpokeLengths\<close>. (The \<^verbatim>\<open>ModifiedBlocker\<close> defers the change notifications
  of the grid; notifications are not modelled.) \<open>GetCrestSpoke\<close> of a skeletal point
  that is a crest is not null.
\<close>

definition OptimizeCrestSpokeLengths ::
  "Environment \<Rightarrow> real \<Rightarrow> nat \<Rightarrow> Refiner \<Rightarrow> error option \<times> Refiner" where
  "OptimizeCrestSpokeLengths env stepSize maxIter r =
     for_each [0..<GetNumberOfLines (m_srep r)] (\<lambda>l.
       for_each [0..<GetNumberOfSteps (m_srep r)] (\<lambda>s r.
         (let skeletalPoint = GetSkeletalPoint (m_srep r) l s
          in if IsCrest skeletalPoint then
               (case IncrementIteration r of
                  (Some e, r) \<Rightarrow> (Some e, r)
                | (None, r) \<Rightarrow>
                    (let a = the (CrestSpoke skeletalPoint);
                         spoke = heap r ! a;
                         distance = FunctionValue (m_polyData r) (AsArray (GetBoundaryPoint spoke));
                         (thrown, spoke) =
                           OptimizeCrestSpokeLength env (m_polyData r) maxIter distance distance stepSize spoke
                     in (thrown, r\<lparr>heap := (heap r)[a := spoke]\<rparr>)))
             else (None, r)))) r"

text \<open>
  The curvature-based correction of one crest spoke, the body of the second pair of
  loops of \<^verbatim>\<open>RefineCrestSpokes\<close> after \<^verbatim>\<open>curMax\<close> and \<^verbatim>\<open>curMin\<close> have been read. When both
  curvatures are 0, \<^verbatim>\<open>rCrest = 1 / 0\<close> is \<open>+inf\<close> in the arithmetic of the source and
  \<^verbatim>\<open>rDiff\<close> is \<open>-inf\<close>: the spoke is skipped. (With real coordinates the constructor of
  \<^verbatim>\<open>srep::Point3d\<close> has no NaN to reject.)
\<close>

definition CorrectCrestSpoke ::
  "Environment \<Rightarrow> real \<Rightarrow> real \<Rightarrow> vtkSRepSpoke \<Rightarrow> error option \<times> vtkSRepSpoke" where
  "CorrectCrestSpoke env curMax curMin spoke =
     (if max \<bar>curMax\<bar> \<bar>curMin\<bar> = 0 then (None, spoke)
      else
        (let rCrest = 1 / (max \<bar>curMax\<bar> \<bar>curMin\<bar>);
             rDiff = GetRadius spoke - rCrest
         in if rDiff \<le> 0 then (None, spoke)
            else
              (case Unit (zero_unit env) (Direction spoke) of
                 Inl e \<Rightarrow> (Some e, spoke)
               | Inr unitDir \<Rightarrow>
                   (let spoke = SetSkeletalPoint
                          (Point3d_raw (GetX (SkeletalPoint spoke) + vec_x unitDir * rDiff)
                                       (GetY (SkeletalPoint spoke) + vec_y unitDir * rDiff)
                                       (GetZ (SkeletalPoint spoke) + vec_z unitDir * rDiff)) spoke
                    in case SetRadius (zero_unit env) rCrest spoke of
                         Inl e \<Rightarrow> (Some e, spoke)
                       | Inr spoke \<Rightarrow> (None, spoke)))))"

text \<open>
  The second pair of loops of \<^verbatim>\<open>RefineCrestSpokes\<close>, over the grid, with the two
  curvature arrays.
\<close>

definition CorrectCrestSpokes ::
  "Environment \<Rightarrow> (nat \<Rightarrow> real) \<Rightarrow> (nat \<Rightarrow> real) \<Rightarrow> Refiner \<Rightarrow> error option \<times> Refiner" where
  "CorrectCrestSpokes env maxC minC r =
     for_each [0..<GetNumberOfLines (m_srep r)] (\<lambda>l.
       for_each [0..<GetNumberOfSteps (m_srep r)] (\<lambda>s r.
         (let skeletalPoint = GetSkeletalPoint (m_srep r) l s
          in if IsCrest skeletalPoint then
               (case IncrementIteration r of
                  (Some e, r) \<Rightarrow> (Some e, r)
                | (None, r) \<Rightarrow>
                    (let a = the (CrestSpoke skeletalPoint);
                         spoke = heap r ! a;
                         idNearest = FindClosestPoint (m_polyData r) (AsArray (GetBoundaryPoint spoke));
                         curMax = maxC idNearest;
                         curMin = minC idNearest;
                         (thrown, spoke) = CorrectCrestSpoke env curMax curMin spoke
                     in (thrown, r\<lparr>heap := (heap r)[a := spoke]\<rparr>)))
             else (None, r)))) r"

definition RefineCrestSpokes :: "Environment \<Rightarrow> Refiner \<Rightarrow> error option \<times> Refiner" where
  "RefineCrestSpokes env r =
     (case OptimizeCrestSpokeLengths env (m_initialRegionSize r) (size_t_of_int (m_maxIterations r)) r of
        (Some e, r) \<Rightarrow> (Some e, r)
      | (None, r) \<Rightarrow>
          (case Maximum_Curvature (m_polyData r) of
             None \<Rightarrow> (Some (runtime_error ''Error getting max curvature''), r)
           | Some maxC \<Rightarrow>
               (case Minimum_Curvature (m_polyData r) of
                  None \<Rightarrow> (Some (runtime_error ''Error getting min curvature''), r)
                | Some minC \<Rightarrow> CorrectCrestSpokes env maxC minC r)))"

definition RefineSpokes :: "Environment \<Rightarrow> SpokeOrientation \<Rightarrow> Refiner \<Rightarrow> error option \<times> Refiner" where
  "RefineSpokes env spokeType r =
     (if spokeType = CrestOrientation then RefineCrestSpokes env r
      else RefineUpDownSpokes env spokeType r)"

subsection \<open>\<^verbatim>\<open>Refiner::Run\<close>\<close>

definition Refiner_Run :: "Environment \<Rightarrow> Refiner \<Rightarrow> (error + addr vtkEllipticalSRep) \<times> Refiner" where
  "Refiner_Run env r =
     (if \<not> IsEmpty (m_srep r) then
        (case ReportProgress (r\<lparr>m_iteration := 0\<rparr>) of
           (Some e, r) \<Rightarrow> (Inl e, r)
         | (None, r) \<Rightarrow>
        (case RefineSpokes env UpOrientation r of
           (Some e, r) \<Rightarrow> (Inl e, r)
         | (None, r) \<Rightarrow>
        (case ReportProgress (r\<lparr>m_iteration := int32 (1 * m_maxIterations r)\<rparr>) of
           (Some e, r) \<Rightarrow> (Inl e, r)
         | (None, r) \<Rightarrow>
        (case RefineSpokes env DownOrientation r of
           (Some e, r) \<Rightarrow> (Inl e, r)
         | (None, r) \<Rightarrow>
        (case ReportProgress (r\<lparr>m_iteration := int32 (2 * m_maxIterations r)\<rparr>) of
           (Some e, r) \<Rightarrow> (Inl e, r)
         | (None, r) \<Rightarrow>
        (case RefineSpokes env CrestOrientation r of
           (Some e, r) \<Rightarrow> (Inl e, r)
         | (None, r) \<Rightarrow>
             (let r = r\<lparr>m_iteration := m_totalProgressIterations r\<rparr>
              in (Inr (m_srep r), r))))))))
      else (Inr (m_srep r), r))"

subsection \<open>Construction\<close>

definition ComputeMasterBounds ::
  "Environment \<Rightarrow> vtkPolyData option \<Rightarrow> vtkSRepSpoke vtkEllipticalSRep \<Rightarrow> error + Bounds" where
  "ComputeMasterBounds env polyData srep =
     (case polyData of
        None \<Rightarrow> Inl (invalid_argument ''Expected existing polydata for computing bounds'')
      | Some pd \<Rightarrow>
          (let srepBounds = GetSRepBounds env srep;
               polyDataBounds = GetBounds pd
           in Inr [dmin (srepBounds ! 0) (polyDataBounds ! 0), dmax (srepBounds ! 1) (polyDataBounds ! 1),
                   dmin (srepBounds ! 2) (polyDataBounds ! 2), dmax (srepBounds ! 3) (polyDataBounds ! 3),
                   dmin (srepBounds ! 4) (polyDataBounds ! 4), dmax (srepBounds ! 5) (polyDataBounds ! 5)]))"

definition GetInitialCoefficients :: "Environment \<Rightarrow> Refiner \<Rightarrow> error option \<times> Refiner" where
  "GetInitialCoefficients env r =
     (let numLines = GetNumberOfLines (m_srep r);
          numSteps = GetNumberOfSteps (m_srep r)
      in for_each [0..<numLines] (\<lambda>l.
           for_each [0..<numSteps] (\<lambda>s r.
             (case Unit (zero_unit env) (Direction (heap r ! UpSpoke (GetSkeletalPoint (m_srep r) l s))) of
                Inl e \<Rightarrow> (Some e, r)
              | Inr upUnitDir \<Rightarrow>
                  (let r = r\<lparr>m_flattenedUpCoeff := m_flattenedUpCoeff r
                              @ [vec_x upUnitDir, vec_y upUnitDir, vec_z upUnitDir, 0]\<rparr>
                   in case Unit (zero_unit env)
                             (Direction (heap r ! DownSpoke (GetSkeletalPoint (m_srep r) l s))) of
                        Inl e \<Rightarrow> (Some e, r)
                      | Inr downUnitDir \<Rightarrow>
                          (None, r\<lparr>m_flattenedDownCoeff := m_flattenedDownCoeff r
                                     @ [vec_x downUnitDir, vec_y downUnitDir, vec_z downUnitDir, 0]\<rparr>))))) r)"

text \<open>
  The world outside the refiner: the store of spoke objects, the values the progress
  callback has been called with, the number of distance fields built, the messages of
  \<^verbatim>\<open>vtkErrorMacro\<close>, and the grid held by the destination node.
\<close>

record World =
  w_heap :: store
  w_progress :: "double list"
  w_fieldConstructions :: nat
  w_errorLog :: "string list"
  w_destination :: "addr vtkEllipticalSRep option"

text \<open>
  The constructor of \<^verbatim>\<open>Refiner\<close>, the members initialised in the order of their
  declaration. It clones the grid, computes the master bounds (which throws for a null
  \<^verbatim>\<open>polyData\<close>), builds the distance field, and fills the two coefficient vectors.
\<close>

definition Refiner_new ::
  "Environment \<Rightarrow> addr vtkEllipticalSRep \<Rightarrow> vtkPolyData option \<Rightarrow> real \<Rightarrow> real \<Rightarrow> int \<Rightarrow> int
     \<Rightarrow> real \<Rightarrow> real \<Rightarrow> real \<Rightarrow> World \<Rightarrow> (error + Refiner) \<times> World" where
  "Refiner_new env srep polyData initialRegionSize finalRegionSize maxIterations
       interpolationLevel L0Weight L1Weight L2Weight w =
     (let voxelSpacing = 0.005;
          (clone, h) = SmartClone srep (w_heap w);
          w = w\<lparr>w_heap := h\<rparr>
      in case ComputeMasterBounds env polyData (snapshot h clone) of
           Inl e \<Rightarrow> (Inl e, w)
         | Inr masterBounds \<Rightarrow>
             (case polyData of
                None \<Rightarrow> \<comment> \<open>not reached: \<^verbatim>\<open>ComputeMasterBounds\<close> has thrown\<close>
                  (Inl (invalid_argument ''Expected existing polydata for computing bounds''), w)
              | Some pd \<Rightarrow>
                  (let w = w\<lparr>w_fieldConstructions := w_fieldConstructions w + 1\<rparr>
                   in case BuildSignedDistanceMap env pd masterBounds voxelSpacing of
                        Some e \<Rightarrow> (Inl e, w)
                      | None \<Rightarrow>
                          (let r = \<lparr>heap = w_heap w,
                                    progress = w_progress w,
                                    fieldConstructions = w_fieldConstructions w,
                                    m_voxelSpacing = voxelSpacing,
                                    m_polyData = pd,
                                    m_srep = clone,
                                    m_masterBounds = masterBounds,
                                    m_srepToImageCoordsTransform = CreateBoundsToImageCoordsTransform masterBounds,
                                    m_flattenedUpCoeff = [],
                                    m_flattenedDownCoeff = [],
                                    m_initialRegionSize = initialRegionSize,
                                    m_finalRegionSize = finalRegionSize,
                                    m_maxIterations = maxIterations,
                                    m_interpolationLevel = interpolationLevel,
                                    m_currentCoeff = None,
                                    m_L0Weight = L0Weight,
                                    m_L1Weight = L1Weight,
                                    m_L2Weight = L2Weight,
                                    m_iteration = 0,
                                    m_totalProgressIterations =
                                      int32 (int32 (2 * maxIterations) + 2 * int (GetNumberOfLines clone)),
                                    m_progressCallback = None\<rparr>
                           in case GetInitialCoefficients env r of
                                (Some e, r) \<Rightarrow> (Inl e, w)
                              | (None, r) \<Rightarrow> (Inr r, w)))))"

definition SetProgressCallback :: "ProgressCallbackFunction option \<Rightarrow> Refiner \<Rightarrow> Refiner" where
  "SetProgressCallback f r = r\<lparr>m_progressCallback := f\<rparr>"

text \<open>The world as a refiner leaves it.\<close>

definition world_of :: "Refiner \<Rightarrow> World \<Rightarrow> World" where
  "world_of r w = w\<lparr>w_heap := heap r, w_progress := progress r,
                     w_fieldConstructions := fieldConstructions r\<rparr>"

definition RefineSRep ::
  "Environment \<Rightarrow> addr vtkEllipticalSRep \<Rightarrow> vtkPolyData option \<Rightarrow> real \<Rightarrow> real \<Rightarrow> int \<Rightarrow> int
     \<Rightarrow> real \<Rightarrow> real \<Rightarrow> real \<Rightarrow> ProgressCallbackFunction option \<Rightarrow> World
     \<Rightarrow> (error + addr vtkEllipticalSRep) \<times> World" where
  "RefineSRep env srep polyData initialRegionSize finalRegionSize maxIterations
       interpolationLevel L0Weight L1Weight L2Weight progressCallback w =
     (case Refiner_new env srep polyData initialRegionSize finalRegionSize maxIterations
             interpolationLevel L0Weight L1Weight L2Weight w of
        (Inl e, w) \<Rightarrow> (Inl e, w)
      | (Inr refiner, w) \<Rightarrow>
          (let refiner = SetProgressCallback progressCallback refiner;
               (result, refiner) = Refiner_Run env refiner
           in (result, world_of refiner w)))"

section \<open>The entry point (\<^verbatim>\<open>vtkSlicerSRepRefinementLogic::Run\<close>, ten arguments)\<close>

text \<open>
  The two nodes, by what \<^verbatim>\<open>Run\<close> reads of them; a null pointer is \<open>None\<close>. (For an
  elliptical s-rep node, \<^verbatim>\<open>GetSRep()\<close> and \<^verbatim>\<open>GetEllipticalSRep()\<close> return the same grid.)
\<close>

record vtkMRMLModelNode =
  GetPolyData :: "vtkPolyData option"

record vtkMRMLEllipticalSRepNode =
  GetSRep :: "addr vtkEllipticalSRep option"

fun what :: "error \<Rightarrow> string" where
  "what (invalid_argument msg) = msg"
| "what (runtime_error msg) = msg"
| "what (std_exception msg) = msg"
| "what other_exception = []"

text \<open>
  The \<^verbatim>\<open>try\<close> block of \<^verbatim>\<open>Run\<close>. \<open>observers\<close> is what the observers of the progress event
  do with a value (\<^verbatim>\<open>ProgressCallback\<close> invokes the event).
\<close>

definition Run_try ::
  "Environment \<Rightarrow> ProgressCallbackFunction \<Rightarrow> vtkMRMLModelNode option
     \<Rightarrow> vtkMRMLEllipticalSRepNode option \<Rightarrow> real \<Rightarrow> real \<Rightarrow> int \<Rightarrow> int \<Rightarrow> real \<Rightarrow> real \<Rightarrow> real
     \<Rightarrow> World \<Rightarrow> error option \<times> World" where
  "Run_try env observers model srepNode initialRegionSize finalRegionSize maxIterations
       interpolationLevel L0Weight L1Weight L2Weight w =
     (case model of
        None \<Rightarrow> (Some (invalid_argument ''Cannot refine an SRep with a null model''), w)
      | Some modelNode \<Rightarrow>
          (case (case srepNode of None \<Rightarrow> None | Some node \<Rightarrow> GetSRep node) of
             None \<Rightarrow> (Some (invalid_argument ''Cannot refine an SRep with a null srep''), w)
           | Some srep \<Rightarrow>
               if IsEmpty srep then
                 (Some (invalid_argument ''Cannot refine an SRep with a null srep''), w)
               else if maxIterations < 1 then
                 (Some (invalid_argument ''must have at least one iteration''), w)
               else if interpolationLevel < 0 then
                 (Some (invalid_argument ''interpolation level must be non-negative''), w)
               else
                 (case RefineSRep env srep (GetPolyData modelNode) initialRegionSize finalRegionSize
                         maxIterations interpolationLevel L0Weight L1Weight L2Weight
                         (Some observers) w of
                    (Inl e, w) \<Rightarrow> (Some e, w)
                  | (Inr refinedSRep, w) \<Rightarrow> (None, w\<lparr>w_destination := Some refinedSRep\<rparr>))))"

text \<open>\<^verbatim>\<open>Run\<close>: both handlers log the error and throw it again.\<close>

definition Run ::
  "Environment \<Rightarrow> ProgressCallbackFunction \<Rightarrow> vtkMRMLModelNode option
     \<Rightarrow> vtkMRMLEllipticalSRepNode option \<Rightarrow> real \<Rightarrow> real \<Rightarrow> int \<Rightarrow> int \<Rightarrow> real \<Rightarrow> real \<Rightarrow> real
     \<Rightarrow> World \<Rightarrow> error option \<times> World" where
  "Run env observers model srepNode initialRegionSize finalRegionSize maxIterations
       interpolationLevel L0Weight L1Weight L2Weight w =
     (case Run_try env observers model srepNode initialRegionSize finalRegionSize maxIterations
             interpolationLevel L0Weight L1Weight L2Weight w of
        (None, w) \<Rightarrow> (None, w)
      | (Some e, w) \<Rightarrow>
          (case e of
             other_exception \<Rightarrow>
               (Some e, w\<lparr>w_errorLog := w_errorLog w @ [''Unknown error running SRep refinement'']\<rparr>)
           | _ \<Rightarrow>
               (Some e, w\<lparr>w_errorLog := w_errorLog w @ [''Error running SRep refinement: '' @ what e]\<rparr>)))"


section \<open>A small example\<close>

text \<open>
  A grid of one line with two steps, the interior point of the spine and the fold
  point. The up and down spokes point along \<open>z\<close> and have length 1; the crest spoke
  starts at \<open>(1, 0, 0)\<close>, points along \<open>x\<close> and has length 1. The surface is the plane
  \<open>z = 0\<close> as far as the signed distance goes, with principal curvatures 2 and 1
  everywhere. The energy terms are the constants \<open>(2, 3)\<close> and \<open>5\<close>, the interpolation
  is the identity, and the minimiser evaluates the start vector once and stops.
\<close>

definition example_heap :: store where
  "example_heap =
     [\<lparr>SkeletalPoint = Point3d_raw 0 0 0, Direction = Vector3d 0 0 1\<rparr>,
      \<lparr>SkeletalPoint = Point3d_raw 0 0 0, Direction = Vector3d 0 0 (-1)\<rparr>,
      \<lparr>SkeletalPoint = Point3d_raw 1 0 0, Direction = Vector3d 0 0 1\<rparr>,
      \<lparr>SkeletalPoint = Point3d_raw 1 0 0, Direction = Vector3d 0 0 (-1)\<rparr>,
      \<lparr>SkeletalPoint = Point3d_raw 1 0 0, Direction = Vector3d 1 0 0\<rparr>]"

definition example_srep :: "addr vtkEllipticalSRep" where
  "example_srep = [[SkeletalPointOf 0 1 None, SkeletalPointOf 2 3 (Some 4)]]"

definition example_polyData :: vtkPolyData where
  "example_polyData =
     \<lparr>GetBounds = [Finite 0, Finite 4, Finite 0, Finite 2, Finite (-1), Finite 1],
      FunctionValue = (\<lambda>p. p ! 2),
      Maximum_Curvature = Some (\<lambda>id. 2),
      Minimum_Curvature = Some (\<lambda>id. 1),
      FindClosestPoint = (\<lambda>p. 0)\<rparr>"

definition example_env :: Environment where
  "example_env =
     \<lparr>zero_unit = Inl (runtime_error ''zero vector''),
      GetSRepBounds = (\<lambda>srep. [Finite 0, Finite 3, Finite 0, Finite 0, Finite (-1), Finite 1]),
      BuildSignedDistanceMap = (\<lambda>polyData bounds spacing. None),
      SmartInterpolateSRep = (\<lambda>srep level. Inr srep),
      ComputeDistanceSquaredAndNormalToImage = (\<lambda>srep spokeType. Inr (2, 3)),
      ComputeRSradPenalty = (\<lambda>srep spokeType. Inr 5),
      newuoa_next = (\<lambda>x rhobeg rhoend evaluations. if evaluations = [] then Evaluate x else Stop x),
      newuoa_exhausted = (\<lambda>x evaluations. x)\<rparr>"

definition example_world :: World where
  "example_world =
     \<lparr>w_heap = example_heap, w_progress = [], w_fieldConstructions = 0, w_errorLog = [],
      w_destination = None\<rparr>"

text \<open>A refiner on this grid, as its constructor leaves it, with weights 1, 10 and 100.\<close>

definition example_refiner :: Refiner where
  "example_refiner =
     \<lparr>heap = example_heap,
      progress = [],
      fieldConstructions = 1,
      m_voxelSpacing = 0.005,
      m_polyData = example_polyData,
      m_srep = example_srep,
      m_masterBounds = [Finite 0, Finite 4, Finite 0, Finite 2, Finite (-1), Finite 1],
      m_srepToImageCoordsTransform = CreateBoundsToImageCoordsTransform
          [Finite 0, Finite 4, Finite 0, Finite 2, Finite (-1), Finite 1],
      m_flattenedUpCoeff = [0, 0, 1, 0, 0, 0, 1, 0],
      m_flattenedDownCoeff = [0, 0, -1, 0, 0, 0, -1, 0],
      m_initialRegionSize = 0.01,
      m_finalRegionSize = 0.001,
      m_maxIterations = 2,
      m_interpolationLevel = 0,
      m_currentCoeff = None,
      m_L0Weight = 1,
      m_L1Weight = 10,
      m_L2Weight = 100,
      m_iteration = 0,
      m_totalProgressIterations = 6,
      m_progressCallback = Some (\<lambda>p. None)\<rparr>"

text \<open>
  A refiner on a grid of the shape of the example in any state of a run: the store,
  the grid, \<^verbatim>\<open>m_currentCoeff\<close>, the iteration budget, the total of the progress
  iterations, the iteration number and the reports made so far. \<open>example_grid\<close> says that
  a grid has the shape of the example in a store: one line of two steps, up and down
  spokes along \<open>z\<close> of length 1, and the crest spoke of the example.
\<close>

definition example_state ::
  "store \<Rightarrow> addr vtkEllipticalSRep \<Rightarrow> SpokeOrientation option \<Rightarrow> int \<Rightarrow> int \<Rightarrow> int \<Rightarrow> double list
     \<Rightarrow> Refiner" where
  "example_state h g cur M T i p =
     \<lparr>heap = h,
      progress = p,
      fieldConstructions = 1,
      m_voxelSpacing = 0.005,
      m_polyData = example_polyData,
      m_srep = g,
      m_masterBounds = [Finite 0, Finite 4, Finite 0, Finite 2, Finite (-1), Finite 1],
      m_srepToImageCoordsTransform = CreateBoundsToImageCoordsTransform
          [Finite 0, Finite 4, Finite 0, Finite 2, Finite (-1), Finite 1],
      m_flattenedUpCoeff = [0, 0, 1, 0, 0, 0, 1, 0],
      m_flattenedDownCoeff = [0, 0, -1, 0, 0, 0, -1, 0],
      m_initialRegionSize = 0.01,
      m_finalRegionSize = 0.001,
      m_maxIterations = M,
      m_interpolationLevel = 0,
      m_currentCoeff = cur,
      m_L0Weight = 1,
      m_L1Weight = 10,
      m_L2Weight = 100,
      m_iteration = i,
      m_totalProgressIterations = T,
      m_progressCallback = Some (\<lambda>p. None)\<rparr>"

definition example_grid :: "store \<Rightarrow> addr vtkEllipticalSRep \<Rightarrow> bool" where
  "example_grid h g =
     (\<exists>a b c d e. g = [[SkeletalPointOf a b None, SkeletalPointOf c d (Some e)]]
        \<and> a < length h \<and> b < length h \<and> c < length h \<and> d < length h \<and> e < length h
        \<and> Direction (h ! a) = Vector3d 0 0 1 \<and> Direction (h ! b) = Vector3d 0 0 (-1)
        \<and> Direction (h ! c) = Vector3d 0 0 1 \<and> Direction (h ! d) = Vector3d 0 0 (-1)
        \<and> h ! e = \<lparr>SkeletalPoint = Point3d_raw 1 0 0, Direction = Vector3d 1 0 0\<rparr>)"


text \<open>The example, evaluated.\<close>

lemma upt_small: "[0..<1] = [0]" "[0..<2] = [0, 1]"
  by (simp_all add: upt_rec)

lemma example_grid_facts:
  "GetNumberOfLines example_srep = 1" "GetNumberOfSteps example_srep = 2"
  "GetSkeletalPoint example_srep 0 0 = SkeletalPointOf 0 1 None"
  "GetSkeletalPoint example_srep 0 1 = SkeletalPointOf 2 3 (Some 4)"
  "GetSkeletalPoint example_srep 0 (Suc 0) = SkeletalPointOf 2 3 (Some 4)"
  "length example_srep = 1" "example_srep ! 0 = [SkeletalPointOf 0 1 None, SkeletalPointOf 2 3 (Some 4)]"
  by (simp_all add: example_srep_def GetNumberOfLines_def GetNumberOfSteps_def GetSkeletalPoint_def)

lemma example_valid: "valid_grid example_srep" "same_steps example_srep"
  "distinct (map (\<lambda>line. CrestSpoke (last line)) example_srep)"
  "in_store example_heap example_srep"
  by (simp_all add: valid_grid_def same_steps_def example_srep_def GetNumberOfSteps_def IsCrest_def
      upt_small in_store_def spokes_of_def spokes_of_point_def example_heap_def)

lemma example_refiner_sel:
  "heap example_refiner = example_heap" "m_srep example_refiner = example_srep"
  "m_polyData example_refiner = example_polyData" "m_iteration example_refiner = 0"
  "m_totalProgressIterations example_refiner = 6" "progress example_refiner = []"
  by (simp_all add: example_refiner_def)

lemma example_heap_sel:
  "length example_heap = 5"
  "example_heap ! 4 = \<lparr>SkeletalPoint = Point3d_raw 1 0 0, Direction = Vector3d 1 0 0\<rparr>"
  by (simp_all add: example_heap_def)

lemma ex_clone: "SmartClone example_srep example_heap =
   ([[SkeletalPointOf 5 6 None, SkeletalPointOf 7 8 (Some 9)]], example_heap @ example_heap)"
  by (simp add: example_srep_def example_heap_def ClonePoint_def alloc_def Let_def)

lemma ex_heap_nth:
  "(example_heap @ example_heap) ! 5 = \<lparr>SkeletalPoint = Point3d_raw 0 0 0, Direction = Vector3d 0 0 1\<rparr>"
  "(example_heap @ example_heap) ! 7 = \<lparr>SkeletalPoint = Point3d_raw 1 0 0, Direction = Vector3d 0 0 1\<rparr>"
  by (simp_all add: example_heap_def)

lemma ex_refine_spoke5:
  "Refine_spoke example_env [1, 0, 0, 0, 0, 0, 1, 0] 5 (0, example_heap @ example_heap)
   = (None, (4, (example_heap @ example_heap)[5 := \<lparr>SkeletalPoint = Point3d_raw 0 0 0, Direction = Vector3d 1 0 0\<rparr>]))"
  by (simp add: Refine_spoke_def ex_heap_nth Let_def GetRadius_def GetLength_def Unit_def example_env_def
      divide_Vector3d_def times_Vector3d_def SetDirectionAndMagnitude_def)

lemma ex_refine_spoke7:
  "Refine_spoke example_env [1, 0, 0, 0, 0, 0, 1, 0] 7 (4, (example_heap @ example_heap)[5 := x])
   = (None, (8, (example_heap @ example_heap)[5 := x]))"
  by (simp add: Refine_spoke_def ex_heap_nth Let_def GetRadius_def GetLength_def Unit_def example_env_def
      divide_Vector3d_def times_Vector3d_def SetDirectionAndMagnitude_def example_heap_sel)

lemma ex_refine:
  "Refine example_env example_srep [1, 0, 0, 0, 0, 0, 1, 0] UpOrientation example_heap
   = (Inr [[SkeletalPointOf 5 6 None, SkeletalPointOf 7 8 (Some 9)]],
      (example_heap @ example_heap)[5 := \<lparr>SkeletalPoint = Point3d_raw 0 0 0, Direction = Vector3d 1 0 0\<rparr>])"
  by (simp add: Refine_def ex_clone GetNumberOfLines_def GetNumberOfSteps_def GetSkeletalPoint_def
      upt_small ex_refine_spoke5 ex_refine_spoke7)

lemma ex_eval:
  "EvaluateObjectiveFunction example_env [1, 0, 0, 0, 0, 0, 1, 0] UpOrientation example_refiner
   = (532, example_refiner\<lparr>heap := (example_heap @ example_heap)[5 := \<lparr>SkeletalPoint = Point3d_raw 0 0 0, Direction = Vector3d 1 0 0\<rparr>],
        m_iteration := 1, progress := [int_quotient 1 6]\<rparr>)"
  by (simp add: EvaluateObjectiveFunction_def EvaluateObjectiveFunction_try_def example_refiner_sel ex_refine
      Let_def)
     (simp add: example_env_def example_refiner_def IncrementIteration_def ReportProgress_def
        int32_def)

lemma ex_eval_crest:
  "EvaluateObjectiveFunction example_env [1, 0, 0, 0, 0, 0, 1, 0] CrestOrientation example_refiner
   = (10000000000, example_refiner\<lparr>heap := example_heap @ example_heap\<rparr>)"
  by (simp add: EvaluateObjectiveFunction_def EvaluateObjectiveFunction_try_def example_refiner_sel
      Refine_def ex_clone)

lemma ex_crest: "CorrectCrestSpoke example_env 2 1 \<lparr>SkeletalPoint = Point3d_raw 1 0 0, Direction = Vector3d 1 0 0\<rparr>
  = (None, \<lparr>SkeletalPoint = Point3d_raw (3/2) 0 0, Direction = Vector3d (1/2) 0 0\<rparr>)"
  by (simp add: CorrectCrestSpoke_def Let_def GetRadius_def GetLength_def Unit_def example_env_def
      SetSkeletalPoint_def SetRadius_def divide_Vector3d_def times_Vector3d_def)

lemma ex_pass: "CorrectCrestSpokes example_env (\<lambda>id. 2) (\<lambda>id. 1) example_refiner =
   (None, example_refiner\<lparr>m_iteration := 1, progress := [int_quotient 1 6],
      heap := example_heap[4 := \<lparr>SkeletalPoint = Point3d_raw (3/2) 0 0, Direction = Vector3d (1/2) 0 0\<rparr>]\<rparr>)"
  by (simp add: CorrectCrestSpokes_def example_refiner_sel example_grid_facts upt_small IsCrest_def
      Let_def IncrementIteration_def ReportProgress_def example_refiner_def int32_def
      example_heap_sel ex_crest)


section \<open>Properties of the rounding\<close>

subsection \<open>Powers of two and the nearest integer\<close>

lemma pow2_powr: "pow2 e = 2 powr (of_int e)"
proof (cases "0 \<le> e")
  case True
  then show ?thesis
    by (simp add: pow2_def powr_realpow[symmetric])
next
  case False
  then have "(2::real) powr (of_int e) = 1 / 2 powr (of_int (- e))"
    by (simp add: powr_minus_divide)
  also have "\<dots> = 1 / 2 ^ nat (- e)"
    using False by (simp add: powr_realpow[symmetric])
  finally show ?thesis using False by (simp add: pow2_def)
qed

lemma pow2_pos: "0 < pow2 e"
  by (simp add: pow2_powr)

lemma pow2_add: "pow2 (a + b) = pow2 a * pow2 b"
  by (simp add: pow2_powr powr_add)

lemma pow2_mono: "a \<le> b \<Longrightarrow> pow2 a \<le> pow2 b"
  by (simp add: pow2_powr)

lemma pow2_less: "a < b \<Longrightarrow> pow2 a < pow2 b"
  by (simp add: pow2_powr)

lemma pow2_0: "pow2 0 = 1"
  by (simp add: pow2_def)

lemma rne_error: "\<bar>of_int (rne x) - x\<bar> \<le> 1 / 2"
  unfolding rne_def Let_def by (auto simp: abs_le_iff; linarith)

lemma rne_of_int: "rne (of_int n) = n"
  by (simp add: rne_def)

lemma rne_ge: "of_int n \<le> x \<Longrightarrow> n \<le> rne x"
proof -
  assume "of_int n \<le> x"
  then have "n \<le> \<lfloor>x\<rfloor>" by (simp add: le_floor_iff)
  then show ?thesis unfolding rne_def Let_def by auto
qed

lemma rne_le: "x \<le> of_int n \<Longrightarrow> rne x \<le> n"
proof -
  assume a: "x \<le> of_int n"
  show ?thesis
  proof (cases "x = of_int n")
    case True
    then show ?thesis by (simp add: rne_of_int)
  next
    case False
    then have "x < of_int n" using a by simp
    then have "\<lfloor>x\<rfloor> < n" by (simp add: floor_less_iff)
    then show ?thesis unfolding rne_def Let_def by auto
  qed
qed

lemma floor_minus_non_int:
  assumes "x \<noteq> of_int \<lfloor>x\<rfloor>"
  shows "\<lfloor>- x\<rfloor> = - \<lfloor>x\<rfloor> - 1"
proof -
  have "of_int \<lfloor>x\<rfloor> \<le> x" by simp
  then have "of_int \<lfloor>x\<rfloor> < x" using assms by linarith
  moreover have "x < of_int \<lfloor>x\<rfloor> + 1" by linarith
  ultimately show ?thesis by (intro floor_unique) simp_all
qed

lemma rne_minus: "rne (- x) = - rne x"
proof (cases "x = of_int \<lfloor>x\<rfloor>")
  case True
  then have "rne x = \<lfloor>x\<rfloor>" by (metis rne_of_int)
  moreover have "rne (- x) = - \<lfloor>x\<rfloor>" by (metis True rne_of_int of_int_minus)
  ultimately show ?thesis by simp
next
  case False
  have fl: "\<lfloor>- x\<rfloor> = - \<lfloor>x\<rfloor> - 1"
    by (rule floor_minus_non_int[OF False])
  have d: "0 < x - of_int \<lfloor>x\<rfloor>" "x - of_int \<lfloor>x\<rfloor> < 1"
    using False by linarith+
  show ?thesis
    unfolding rne_def Let_def fl using d by (auto simp: field_simps)
qed

subsection \<open>Binades\<close>

lemma binade:
  assumes "x \<noteq> 0"
  shows "pow2 \<lfloor>log 2 \<bar>x\<bar>\<rfloor> \<le> \<bar>x\<bar>" and "\<bar>x\<bar> < pow2 (\<lfloor>log 2 \<bar>x\<bar>\<rfloor> + 1)"
proof -
  have pos: "0 < \<bar>x\<bar>" using assms by simp
  have "2 powr (of_int \<lfloor>log 2 \<bar>x\<bar>\<rfloor>) \<le> 2 powr (log 2 \<bar>x\<bar>)"
    by (intro powr_mono) simp_all
  then show "pow2 \<lfloor>log 2 \<bar>x\<bar>\<rfloor> \<le> \<bar>x\<bar>"
    using pos by (simp add: pow2_powr)
  have "2 powr (log 2 \<bar>x\<bar>) < 2 powr (of_int (\<lfloor>log 2 \<bar>x\<bar>\<rfloor> + 1))"
    by (intro powr_less_mono) simp_all
  then show "\<bar>x\<bar> < pow2 (\<lfloor>log 2 \<bar>x\<bar>\<rfloor> + 1)"
    using pos by (simp add: pow2_powr)
qed

lemma binade_eq:
  assumes "pow2 k \<le> \<bar>x\<bar>" and "\<bar>x\<bar> < pow2 (k + 1)"
  shows "\<lfloor>log 2 \<bar>x\<bar>\<rfloor> = k"
proof -
  have pos: "0 < \<bar>x\<bar>" using assms(1) pow2_pos[of k] by linarith
  have "of_int k \<le> log 2 \<bar>x\<bar>"
    using assms(1) pos by (simp add: pow2_powr le_log_iff)
  moreover have "log 2 \<bar>x\<bar> < of_int k + 1"
    using assms(2) pos by (simp add: pow2_powr log_less_iff)
  ultimately show ?thesis by (intro floor_unique) simp_all
qed

text \<open>The scaled value of a normal number lies in \<open>[2^52, 2^53)\<close>, that of a subnormal one below \<open>2^52\<close>.\<close>

lemma scaled_normal:
  assumes "pow2 (- 1022) \<le> \<bar>x\<bar>"
  shows "pow2 52 \<le> \<bar>x / pow2 (ulp_exponent x)\<bar>" and "\<bar>x / pow2 (ulp_exponent x)\<bar> < pow2 53"
proof -
  have nz: "x \<noteq> 0" using assms pow2_pos[of "- 1022"] by auto
  define E where "E = \<lfloor>log 2 \<bar>x\<bar>\<rfloor>"
  have e: "ulp_exponent x = E - 52" using assms by (simp add: ulp_exponent_def E_def)
  have lo: "pow2 E \<le> \<bar>x\<bar>" and hi: "\<bar>x\<bar> < pow2 (E + 1)"
    using binade[OF nz] by (simp_all add: E_def)
  have split: "pow2 E = pow2 52 * pow2 (E - 52)" "pow2 (E + 1) = pow2 53 * pow2 (E - 52)"
    using pow2_add[of 52 "E - 52"] pow2_add[of 53 "E - 52"] by (simp_all add: add.commute)
  have abs: "\<bar>x / pow2 (E - 52)\<bar> = \<bar>x\<bar> / pow2 (E - 52)"
    using pow2_pos[of "E - 52"] by (simp add: abs_divide)
  show "pow2 52 \<le> \<bar>x / pow2 (ulp_exponent x)\<bar>"
    unfolding e abs using lo split(1) pow2_pos[of "E - 52"] by (simp add: le_divide_eq)
  show "\<bar>x / pow2 (ulp_exponent x)\<bar> < pow2 53"
    unfolding e abs using hi split(2) pow2_pos[of "E - 52"] by (simp add: divide_less_eq)
qed

lemma scaled_subnormal:
  assumes "\<bar>x\<bar> < pow2 (- 1022)"
  shows "\<bar>x / pow2 (ulp_exponent x)\<bar> < pow2 52"
proof -
  have e: "ulp_exponent x = - 1074" using assms by (simp add: ulp_exponent_def)
  have split: "pow2 (- 1022) = pow2 52 * pow2 (- 1074)"
    using pow2_add[of 52 "- 1074"] by simp
  have abs: "\<bar>x / pow2 (- 1074)\<bar> = \<bar>x\<bar> / pow2 (- 1074)"
    using pow2_pos[of "- 1074"] by (simp add: abs_divide)
  show ?thesis
    unfolding e abs using assms split pow2_pos[of "- 1074"] by (simp add: divide_less_eq)
qed

lemma ulp_exponent_minus: "ulp_exponent (- x) = ulp_exponent x"
  by (simp add: ulp_exponent_def)

lemma ulp_exponent_bound:
  "pow2 (ulp_exponent x - 1) \<le> max (\<bar>x\<bar> * pow2 (- 53)) (pow2 (- 1075))"
proof (cases "\<bar>x\<bar> < pow2 (- 1022)")
  case True
  then show ?thesis by (simp add: ulp_exponent_def)
next
  case False
  then have nz: "x \<noteq> 0" using pow2_pos[of "- 1022"] by auto
  define E where "E = \<lfloor>log 2 \<bar>x\<bar>\<rfloor>"
  have e: "ulp_exponent x = E - 52" using False by (simp add: ulp_exponent_def E_def)
  have "pow2 (E - 52 - 1) = pow2 E * pow2 (- 53)"
    using pow2_add[of E "- 53"] by simp
  also have "\<dots> \<le> \<bar>x\<bar> * pow2 (- 53)"
    using binade(1)[OF nz] pow2_pos[of "- 53"] by (simp add: E_def)
  finally show ?thesis unfolding e by simp
qed

subsection \<open>The rounded value\<close>

lemma rounded_error: "\<bar>rounded x - x\<bar> \<le> pow2 (ulp_exponent x - 1)"
proof -
  define e where "e = ulp_exponent x"
  have p: "0 < pow2 e" by (rule pow2_pos)
  have "rounded x - x = (of_int (rne (x / pow2 e)) - x / pow2 e) * pow2 e"
    using p by (simp add: rounded_def e_def[symmetric] algebra_simps)
  then have "\<bar>rounded x - x\<bar> = \<bar>of_int (rne (x / pow2 e)) - x / pow2 e\<bar> * pow2 e"
    using p by (simp add: abs_mult)
  also have "\<dots> \<le> (1 / 2) * pow2 e"
    using rne_error[of "x / pow2 e"] p by (intro mult_right_mono) simp_all
  also have "\<dots> = pow2 (e - 1)"
    using pow2_add[of e "- 1"] by (simp add: pow2_def)
  finally show ?thesis by (simp add: e_def)
qed

lemma rounded_0: "rounded 0 = 0"
  by (simp add: rounded_def rne_def)

lemma rounded_minus: "rounded (- x) = - rounded x"
  by (simp add: rounded_def ulp_exponent_minus rne_minus)

lemma rounded_nonneg: "0 \<le> x \<Longrightarrow> 0 \<le> rounded x"
proof -
  assume "0 \<le> x"
  then have "of_int 0 \<le> x / pow2 (ulp_exponent x)"
    using pow2_pos[of "ulp_exponent x"] by simp
  then have "0 \<le> rne (x / pow2 (ulp_exponent x))" by (rule rne_ge)
  then show ?thesis
    using pow2_pos[of "ulp_exponent x"] by (simp add: rounded_def)
qed

lemma rounded_nonpos: "x \<le> 0 \<Longrightarrow> rounded x \<le> 0"
  using rounded_nonneg[of "- x"] by (simp add: rounded_minus)

lemma pow2_of_int: "0 \<le> k \<Longrightarrow> pow2 k = of_int (2 ^ nat k)"
  by (simp add: pow2_def)

lemma rounded_le_pow2:
  assumes "x \<le> pow2 k" and "- 1022 \<le> k"
  shows "rounded x \<le> pow2 k"
proof (cases "x \<le> 0")
  case True
  then show ?thesis using rounded_nonpos[of x] pow2_pos[of k] by linarith
next
  case False
  then have pos: "0 < x" by simp
  define e where "e = ulp_exponent x"
  have p: "0 < pow2 e" by (rule pow2_pos)
  show ?thesis
  proof (cases "\<bar>x\<bar> < pow2 (- 1022)")
    case True
    have e: "e = - 1074" using True by (simp add: e_def ulp_exponent_def)
    have "x / pow2 e \<le> of_int (2 ^ 52)"
      using scaled_subnormal[OF True] pos p by (simp add: e_def pow2_def)
    then have "rne (x / pow2 e) \<le> 2 ^ 52" by (rule rne_le)
    then have "real_of_int (rne (x / pow2 e)) \<le> real_of_int (2 ^ 52)"
      by (simp only: of_int_le_iff)
    then have "real_of_int (rne (x / pow2 e)) \<le> pow2 52"
      by (simp add: pow2_def)
    then have "rounded x \<le> pow2 52 * pow2 e"
      using p by (simp add: rounded_def e_def)
    also have "\<dots> = pow2 (- 1022)" using pow2_add[of 52 "- 1074"] by (simp add: e)
    also have "\<dots> \<le> pow2 k" using assms(2) by (rule pow2_mono)
    finally show ?thesis .
  next
    case False
    then have normal: "pow2 (- 1022) \<le> \<bar>x\<bar>" by simp
    have nz: "x \<noteq> 0" using pos by simp
    define E where "E = \<lfloor>log 2 \<bar>x\<bar>\<rfloor>"
    have e: "e = E - 52" using False by (simp add: e_def ulp_exponent_def E_def)
    have lo: "pow2 E \<le> x" using binade(1)[OF nz] pos by (simp add: E_def)
    show ?thesis
    proof (cases "E < k")
      case True
      have "x / pow2 e \<le> of_int (2 ^ 53)"
        using scaled_normal(2)[OF normal] pos p by (simp add: e_def pow2_def)
      then have "rne (x / pow2 e) \<le> 2 ^ 53" by (rule rne_le)
      then have "real_of_int (rne (x / pow2 e)) \<le> real_of_int (2 ^ 53)"
        by (simp only: of_int_le_iff)
      then have "real_of_int (rne (x / pow2 e)) \<le> pow2 53"
        by (simp add: pow2_def)
      then have "rounded x \<le> pow2 53 * pow2 e"
        using p by (simp add: rounded_def e_def)
      also have "\<dots> = pow2 (E + 1)" using pow2_add[of 53 "E - 52"] by (simp add: e add.commute)
      also have "\<dots> \<le> pow2 k" using True by (intro pow2_mono) simp
      finally show ?thesis .
    next
      case False
      then have "pow2 k \<le> pow2 E" by (intro pow2_mono) simp
      then have x: "x = pow2 E" and kE: "pow2 k = pow2 E" using lo assms(1) by simp_all
      have "x / pow2 e = of_int (2 ^ 52)"
        using pow2_add[of 52 "E - 52"] p by (simp add: x e pow2_def)
      then have "rne (x / pow2 e) = 2 ^ 52" by (metis rne_of_int)
      then have "rounded x = pow2 52 * pow2 e"
        by (simp add: rounded_def e_def pow2_def)
      also have "\<dots> = pow2 E" using pow2_add[of 52 "E - 52"] by (simp add: e)
      finally show ?thesis using kE by simp
    qed
  qed
qed

lemma rounded_ge_pow2:
  assumes "pow2 k \<le> x" and "- 1022 \<le> k"
  shows "pow2 k \<le> rounded x"
proof -
  have pos: "0 < x" using assms(1) pow2_pos[of k] by linarith
  have normal: "pow2 (- 1022) \<le> \<bar>x\<bar>"
    using pow2_mono[OF assms(2)] assms(1) by simp
  have nz: "x \<noteq> 0" using pos by simp
  define e where "e = ulp_exponent x"
  have p: "0 < pow2 e" by (rule pow2_pos)
  define E where "E = \<lfloor>log 2 \<bar>x\<bar>\<rfloor>"
  have e: "e = E - 52" using normal by (simp add: e_def ulp_exponent_def E_def)
  have "pow2 k < pow2 (E + 1)" using binade(2)[OF nz] assms(1) pos by (simp add: E_def)
  then have kE: "k \<le> E" by (simp add: pow2_powr)
  have "of_int (2 ^ 52) \<le> x / pow2 e"
    using scaled_normal(1)[OF normal] pos p by (simp add: e_def pow2_def)
  then have "2 ^ 52 \<le> rne (x / pow2 e)" by (rule rne_ge)
  then have "real_of_int (2 ^ 52) \<le> real_of_int (rne (x / pow2 e))"
    by (simp only: of_int_le_iff)
  then have "pow2 52 \<le> real_of_int (rne (x / pow2 e))"
    by (simp add: pow2_def)
  then have "pow2 52 * pow2 e \<le> rounded x"
    using p by (simp add: rounded_def e_def)
  moreover have "pow2 52 * pow2 e = pow2 E" using pow2_add[of 52 "E - 52"] by (simp add: e)
  moreover have "pow2 k \<le> pow2 E" using kE by (rule pow2_mono)
  ultimately show ?thesis by linarith
qed

lemma rounded_pow2: "- 1022 \<le> k \<Longrightarrow> rounded (pow2 k) = pow2 k"
  using rounded_le_pow2[of "pow2 k" k] rounded_ge_pow2[of k "pow2 k"] by simp

lemma round64_Finite: "\<bar>rounded x\<bar> < pow2 1024 \<Longrightarrow> round64 x = Finite (rounded x)"
  by (simp add: round64_def Let_def)

lemma round64_0: "round64 0 = Finite 0"
  using pow2_pos[of 1024] by (simp add: round64_Finite rounded_0)

lemma pow2_vals: "pow2 0 = 1" "pow2 (- 1) = 1 / 2" "pow2 1 = 2"
  by (simp_all add: pow2_def)

lemma round64_1: "round64 1 = Finite 1"
proof -
  have "rounded 1 = 1" using rounded_pow2[of 0] by (simp add: pow2_vals)
  moreover have "(1::real) < pow2 1024" using pow2_less[of 0 1024] by (simp add: pow2_vals)
  ultimately show ?thesis by (simp add: round64_Finite)
qed

lemma round64_half: "round64 (1 / 2) = Finite (1 / 2)"
proof -
  have "rounded (1 / 2) = 1 / 2" using rounded_pow2[of "- 1"] by (simp add: pow2_vals)
  moreover have "(1 / 2::real) < pow2 1024" using pow2_less[of "- 1" 1024] by (simp add: pow2_vals)
  ultimately show ?thesis by (simp add: round64_Finite)
qed

text \<open>Rounding a value between 0 and a power of two.\<close>

lemma round64_range:
  assumes "0 \<le> x" and "x \<le> pow2 k" and "- 1022 \<le> k" and "k \<le> 1023"
  shows "round64 x = Finite (rounded x)" and "0 \<le> rounded x" and "rounded x \<le> pow2 k"
    and "\<bar>rounded x - x\<bar> \<le> max (x * pow2 (- 53)) (pow2 (- 1075))"
proof -
  show nonneg: "0 \<le> rounded x" using assms(1) by (rule rounded_nonneg)
  show le: "rounded x \<le> pow2 k" using assms(2,3) by (rule rounded_le_pow2)
  have "pow2 k < pow2 1024" using assms(4) by (intro pow2_less) simp
  then show "round64 x = Finite (rounded x)"
    using nonneg le by (intro round64_Finite) simp
  show "\<bar>rounded x - x\<bar> \<le> max (x * pow2 (- 53)) (pow2 (- 1075))"
    using rounded_error[of x] ulp_exponent_bound[of x] assms(1) by simp
qed

text \<open>A rounded value that overflows comes from a value of at least \<open>2^1023\<close>.\<close>

lemma round64_PosInf:
  assumes "0 \<le> x"
  shows "round64 x = PosInf \<or> (round64 x = Finite (rounded x) \<and> 0 \<le> rounded x)"
proof (cases "x = 0")
  case True
  then show ?thesis by (simp add: round64_0 rounded_0)
next
  case False
  then show ?thesis
    using assms rounded_nonneg[of x] by (auto simp: round64_def Let_def)
qed

lemma round64_overflow:
  assumes "0 \<le> x" and "round64 x \<noteq> Finite (rounded x)"
  shows "pow2 1023 < x"
proof (rule ccontr)
  assume "\<not> pow2 1023 < x"
  then have "x \<le> pow2 1023" by simp
  from round64_range(1)[OF assms(1) this] assms(2) show False by simp
qed

lemma round64_minus: "round64 (- x) = (case round64 x of Finite y \<Rightarrow> Finite (- y)
    | PosInf \<Rightarrow> NegInf | NegInf \<Rightarrow> PosInf | NaN \<Rightarrow> NaN)"
proof (cases "x = 0")
  case True
  then show ?thesis by (simp add: round64_0)
next
  case False
  then show ?thesis
    by (auto simp: round64_def Let_def rounded_minus)
qed

text \<open>A representable value is not changed by rounding.\<close>

lemma rounded_exact:
  assumes x: "x = of_int m * pow2 e" and m: "\<bar>m\<bar> < 2 ^ 53" and e: "- 1074 \<le> e"
  shows "rounded x = x"
proof -
  define u where "u = ulp_exponent x"
  have u: "u \<le> e"
  proof (cases "\<bar>x\<bar> < pow2 (- 1022)")
    case True
    then show ?thesis using e by (simp add: u_def ulp_exponent_def)
  next
    case False
    then have nz: "x \<noteq> 0" using pow2_pos[of "- 1022"] by auto
    define E where "E = \<lfloor>log 2 \<bar>x\<bar>\<rfloor>"
    have "real_of_int \<bar>m\<bar> < real_of_int (2 ^ 53)" using m by (simp only: of_int_less_iff)
    then have "\<bar>real_of_int m\<bar> < pow2 53" by (simp add: pow2_def)
    then have "\<bar>x\<bar> < pow2 53 * pow2 e"
      unfolding x abs_mult using pow2_pos[of e] by (simp add: mult_strict_right_mono)
    then have "pow2 E < pow2 (53 + e)"
      using binade(1)[OF nz] by (simp add: E_def pow2_add)
    then have "E < 53 + e" by (simp add: pow2_powr)
    then show ?thesis using False by (simp add: u_def ulp_exponent_def E_def)
  qed
  have "pow2 e = pow2 (e - u) * pow2 u" using pow2_add[of "e - u" u] by simp
  moreover have "pow2 (e - u) = of_int (2 ^ nat (e - u))" using u by (simp add: pow2_def)
  ultimately have scaled: "x / pow2 u = of_int (m * 2 ^ nat (e - u))"
    using pow2_pos[of u] by (simp add: x)
  have "rne (x / pow2 u) = m * 2 ^ nat (e - u)"
    unfolding scaled by (rule rne_of_int)
  then have "rounded x = x / pow2 u * pow2 u"
    unfolding rounded_def u_def[symmetric] scaled by simp
  then show ?thesis using pow2_pos[of u] by simp
qed

lemma round64_exact:
  assumes "x = of_int m * pow2 e" and "\<bar>m\<bar> < 2 ^ 53" and "- 1074 \<le> e" and "e \<le> 970"
  shows "round64 x = Finite x"
proof -
  have r: "rounded x = x" using assms(1-3) by (rule rounded_exact)
  have "real_of_int \<bar>m\<bar> < real_of_int (2 ^ 53)" using assms(2) by (simp only: of_int_less_iff)
  then have "\<bar>real_of_int m\<bar> < pow2 53" by (simp add: pow2_def)
  then have "\<bar>x\<bar> < pow2 53 * pow2 e"
    unfolding assms(1) abs_mult using pow2_pos[of e] by (simp add: mult_strict_right_mono)
  also have "\<dots> = pow2 (53 + e)" by (simp add: pow2_add)
  also have "\<dots> \<le> pow2 1024" using assms(4) by (intro pow2_mono) simp
  finally show ?thesis using r by (simp add: round64_Finite)
qed

text \<open>Rounding a normal number whose binade is known.\<close>

lemma round64_normal:
  assumes "pow2 k \<le> \<bar>x\<bar>" and "\<bar>x\<bar> < pow2 (k + 1)" and "- 1022 \<le> k" and "k \<le> 1022"
  shows "round64 x = Finite (of_int (rne (x / pow2 (k - 52))) * pow2 (k - 52))"
proof -
  have "pow2 (- 1022) \<le> pow2 k" using assms(3) by (rule pow2_mono)
  then have normal: "\<not> \<bar>x\<bar> < pow2 (- 1022)" using assms(1) by simp
  have u: "ulp_exponent x = k - 52"
    using normal binade_eq[OF assms(1,2)] by (simp add: ulp_exponent_def)
  have bound: "\<bar>rounded x\<bar> \<le> pow2 (k + 1)"
  proof (cases "0 \<le> x")
    case True
    then show ?thesis
      using rounded_nonneg[of x] rounded_le_pow2[of x "k + 1"] assms(2,3) by simp
  next
    case False
    then show ?thesis
      using rounded_nonneg[of "- x"] rounded_le_pow2[of "- x" "k + 1"] assms(2,3)
      by (simp add: rounded_minus)
  qed
  have "pow2 (k + 1) < pow2 1024" using assms(4) by (intro pow2_less) simp
  then have "round64 x = Finite (rounded x)" using bound by (intro round64_Finite) simp
  then show ?thesis by (simp add: rounded_def u)
qed

text \<open>Rounding is monotone.\<close>

lemma rne_mono: "x \<le> y \<Longrightarrow> rne x \<le> rne y"
proof -
  assume le: "x \<le> y"
  have fl: "\<lfloor>x\<rfloor> \<le> \<lfloor>y\<rfloor>" using le by (rule floor_mono)
  show ?thesis
  proof (cases "\<lfloor>x\<rfloor> = \<lfloor>y\<rfloor>")
    case True
    then have "x - of_int \<lfloor>x\<rfloor> \<le> y - of_int \<lfloor>y\<rfloor>" using le by simp
    then show ?thesis unfolding rne_def Let_def using True by auto
  next
    case False
    then have "\<lfloor>x\<rfloor> + 1 \<le> \<lfloor>y\<rfloor>" using fl by simp
    moreover have "rne x \<le> \<lfloor>x\<rfloor> + 1" unfolding rne_def Let_def by auto
    moreover have "\<lfloor>y\<rfloor> \<le> rne y" unfolding rne_def Let_def by auto
    ultimately show ?thesis by linarith
  qed
qed

lemma rounded_mono_nonneg:
  assumes "0 \<le> x" and "x \<le> y"
  shows "rounded x \<le> rounded y"
proof (cases "ulp_exponent x = ulp_exponent y")
  case True
  have "x / pow2 (ulp_exponent y) \<le> y / pow2 (ulp_exponent y)"
    using assms(2) pow2_pos[of "ulp_exponent y"] by (simp add: divide_right_mono)
  then have "rne (x / pow2 (ulp_exponent y)) \<le> rne (y / pow2 (ulp_exponent y))"
    by (rule rne_mono)
  then show ?thesis
    using pow2_pos[of "ulp_exponent y"] by (simp add: rounded_def True)
next
  case False
  have ynormal: "pow2 (- 1022) \<le> \<bar>y\<bar>"
  proof (rule ccontr)
    assume "\<not> pow2 (- 1022) \<le> \<bar>y\<bar>"
    then have "\<bar>y\<bar> < pow2 (- 1022)" by simp
    moreover from this have "\<bar>x\<bar> < pow2 (- 1022)" using assms by simp
    ultimately show False using False by (simp add: ulp_exponent_def)
  qed
  have ypos: "0 < y" using ynormal assms pow2_pos[of "- 1022"] by simp
  define E where "E = \<lfloor>log 2 \<bar>y\<bar>\<rfloor>"
  have Elo: "pow2 E \<le> y" using binade(1)[of y] ypos by (simp add: E_def)
  have E: "- 1022 \<le> E"
  proof -
    have "pow2 (- 1022) < pow2 (E + 1)" using binade(2)[of y] ynormal ypos by (simp add: E_def)
    then show ?thesis by (simp add: pow2_powr)
  qed
  have xlt: "x < pow2 E"
  proof (rule ccontr)
    assume "\<not> x < pow2 E"
    then have xge: "pow2 E \<le> \<bar>x\<bar>" using assms(1) by simp
    have "\<bar>x\<bar> < pow2 (E + 1)" using binade(2)[of y] ypos assms by (simp add: E_def)
    then have "\<lfloor>log 2 \<bar>x\<bar>\<rfloor> = E" using xge by (intro binade_eq)
    moreover have "pow2 (- 1022) \<le> \<bar>x\<bar>" using xge pow2_mono[OF E] by linarith
    ultimately have "ulp_exponent x = E - 52" by (simp add: ulp_exponent_def)
    moreover have "ulp_exponent y = E - 52" using ynormal by (simp add: ulp_exponent_def E_def)
    ultimately show False using False by simp
  qed
  have "rounded x \<le> pow2 E" using xlt E by (intro rounded_le_pow2) simp_all
  moreover have "pow2 E \<le> rounded y" using Elo E by (intro rounded_ge_pow2)
  ultimately show ?thesis by linarith
qed

section \<open>Properties of \<^verbatim>\<open>srep::Point3d\<close>\<close>

subsection \<open>The order\<close>

lemma dless_asym: "dless a b \<Longrightarrow> \<not> dless b a"
  by (cases a; cases b) auto

lemma dless_trans: "dless a b \<Longrightarrow> dless b c \<Longrightarrow> dless a c"
  by (cases a; cases b; cases c) auto

lemma dless_total: "\<not> isnan a \<Longrightarrow> \<not> isnan b \<Longrightarrow> dneq a b \<Longrightarrow> dless a b \<or> dless b a"
  by (cases a; cases b) (auto simp: isnan_def)

lemma dneq_sym: "dneq a b = dneq b a"
  by (cases a; cases b) auto

lemma dless_dneq: "dless a b \<Longrightarrow> dneq a b"
  by (cases a; cases b) auto

lemma dneq_iff: "\<not> isnan a \<Longrightarrow> \<not> isnan b \<Longrightarrow> dneq a b \<longleftrightarrow> a \<noteq> b"
  by (cases a; cases b) (auto simp: isnan_def)

lemma Point3d_Inr:
  "Point3d x y z = Inr p \<longleftrightarrow> p = Point3d_raw x y z \<and> \<not> isnan x \<and> \<not> isnan y \<and> \<not> isnan z"
  by (auto simp: Point3d_def)

lemma less_Point3d_asym: "less_Point3d a b \<Longrightarrow> \<not> less_Point3d b a"
  unfolding less_Point3d_def
  by (metis dless_asym dneq_sym dless_dneq)

text \<open>Without NaN, \<^verbatim>\<open>==\<close> is equality of the three coordinates.\<close>

lemma eq_Point3d_iff:
  assumes "Point3d ax ay az = Inr a" and "Point3d bx by' bz = Inr b"
  shows "eq_Point3d a b \<longleftrightarrow> a = b"
proof -
  have a: "a = Point3d_raw ax ay az" "\<not> isnan ax" "\<not> isnan ay" "\<not> isnan az"
    using assms(1) by (simp_all add: Point3d_Inr)
  have b: "b = Point3d_raw bx by' bz" "\<not> isnan bx" "\<not> isnan by'" "\<not> isnan bz"
    using assms(2) by (simp_all add: Point3d_Inr)
  show ?thesis
    unfolding eq_Point3d_def less_Point3d_def a(1) b(1)
    using dless_total[OF a(2) b(2)] dless_total[OF a(3) b(3)] dless_total[OF a(4) b(4)]
      dless_asym[of ax bx] dless_asym[of ay by'] dless_asym[of az bz]
      dneq_iff[OF a(2) b(2)] dneq_iff[OF a(3) b(3)] dneq_iff[OF a(4) b(4)]
      dneq_sym[of bx ax] dneq_sym[of by' ay] dneq_sym[of bz az]
      dless_dneq[of az bz] dless_dneq[of bz az]
    by auto
qed

text \<open>\<^verbatim>\<open><\<close> is transitive on points without NaN.\<close>

lemma less_Point3d_trans:
  assumes "Point3d ax ay az = Inr a" and "Point3d bx by' bz = Inr b" and "Point3d cx cy cz = Inr c"
    and "less_Point3d a b" and "less_Point3d b c"
  shows "less_Point3d a c"
proof -
  have a: "a = Point3d_raw ax ay az" "\<not> isnan ax" "\<not> isnan ay" "\<not> isnan az"
    using assms(1) by (simp_all add: Point3d_Inr)
  have b: "b = Point3d_raw bx by' bz" "\<not> isnan bx" "\<not> isnan by'" "\<not> isnan bz"
    using assms(2) by (simp_all add: Point3d_Inr)
  have c: "c = Point3d_raw cx cy cz" "\<not> isnan cx" "\<not> isnan cy" "\<not> isnan cz"
    using assms(3) by (simp_all add: Point3d_Inr)
  have n: "dneq ax bx \<longleftrightarrow> ax \<noteq> bx" "dneq ay by' \<longleftrightarrow> ay \<noteq> by'"
    "dneq bx cx \<longleftrightarrow> bx \<noteq> cx" "dneq by' cy \<longleftrightarrow> by' \<noteq> cy"
    "dneq ax cx \<longleftrightarrow> ax \<noteq> cx" "dneq ay cy \<longleftrightarrow> ay \<noteq> cy"
    using a b c by (simp_all add: dneq_iff)
  show ?thesis
    using assms(4,5) unfolding less_Point3d_def a(1) b(1) c(1) Point3d.sel n
    by (metis dless_trans dless_asym)
qed

subsection \<open>The distance\<close>

text \<open>The negation of a double, and a double that is not negative (and not NaN).\<close>

definition dneg :: "double \<Rightarrow> double" where
  "dneg d = (case d of Finite y \<Rightarrow> Finite (- y) | PosInf \<Rightarrow> NegInf | NegInf \<Rightarrow> PosInf | NaN \<Rightarrow> NaN)"

definition nonneg_double :: "double \<Rightarrow> bool" where
  "nonneg_double d = (case d of Finite y \<Rightarrow> 0 \<le> y | PosInf \<Rightarrow> True | _ \<Rightarrow> False)"

lemma round64_dneg: "round64 (- x) = dneg (round64 x)"
  by (simp add: round64_minus dneg_def)

lemma round64_nonneg: "0 \<le> x \<Longrightarrow> nonneg_double (round64 x)"
  using round64_PosInf[of x] by (auto simp: nonneg_double_def)

lemma round64_nonneg_case:
  "0 \<le> x \<Longrightarrow> (case round64 x of Finite y \<Rightarrow> 0 \<le> y | PosInf \<Rightarrow> True | _ \<Rightarrow> False)"
  using round64_nonneg[of x] by (simp add: nonneg_double_def)

lemma dsub_swap: "dsub y x = dneg (dsub x y)"
proof (cases x; cases y)
  fix u v assume "x = Finite u" "y = Finite v"
  then show ?thesis using round64_dneg[of "u - v"] by simp
qed (simp_all add: dneg_def)

lemma dsub_NaN:
  "\<not> isnan x \<Longrightarrow> \<not> isnan y \<Longrightarrow> dsub x y = NaN \<longleftrightarrow> same_infinity x y"
proof (cases x; cases y)
  fix u v assume "x = Finite u" "y = Finite v"
  then show "dsub x y = NaN \<longleftrightarrow> same_infinity x y"
    by (auto simp: same_infinity_def round64_def Let_def)
qed (simp_all add: isnan_def same_infinity_def)

lemma dmul_square_dneg: "dmul (dneg d) (dneg d) = dmul d d"
  by (cases d) (simp_all add: dneg_def)

lemma dmul_square: "d \<noteq> NaN \<Longrightarrow> nonneg_double (dmul d d)"
  by (cases d) (simp_all add: round64_nonneg_case nonneg_double_def)

lemma dmul_square_NaN: "dmul d d = NaN \<longleftrightarrow> d = NaN"
  using dmul_square[of d] by (cases d) (auto simp: nonneg_double_def)

lemma dadd_nonneg: "nonneg_double a \<Longrightarrow> nonneg_double b \<Longrightarrow> nonneg_double (dadd a b)"
  by (cases a; cases b) (simp_all add: nonneg_double_def round64_nonneg_case)

lemma dadd_NaN: "dadd NaN b = NaN" "dadd a NaN = NaN"
  by (cases a; simp)+

lemma pow_half_nonneg: "nonneg_double d \<Longrightarrow> nonneg_double (pow_half d)"
  by (cases d) (simp_all add: nonneg_double_def round64_nonneg_case)

lemma nonneg_double_dge: "nonneg_double d \<Longrightarrow> dge d (Finite 0) \<and> deq d d"
  by (cases d) (auto simp: nonneg_double_def dge_def deq_def)

lemma Distance_swap: "Distance a b = Distance b a"
  unfolding Distance_def Distance2BetweenPoints_def AsArray_def Let_def
  using dsub_swap[of "GetX a" "GetX b"] dsub_swap[of "GetY a" "GetY b"]
    dsub_swap[of "GetZ a" "GetZ b"]
  by (simp add: dmul_square_dneg)

text \<open>The distance of two points without NaN is NaN when they share an infinity, and not negative otherwise.\<close>

lemma Distance_cases:
  assumes "Point3d ax ay az = Inr a" and "Point3d bx by' bz = Inr b"
  shows "if shares_infinity a b then Distance a b = NaN else nonneg_double (Distance a b)"
proof -
  have a: "a = Point3d_raw ax ay az" "\<not> isnan ax" "\<not> isnan ay" "\<not> isnan az"
    using assms(1) by (simp_all add: Point3d_Inr)
  have b: "b = Point3d_raw bx by' bz" "\<not> isnan bx" "\<not> isnan by'" "\<not> isnan bz"
    using assms(2) by (simp_all add: Point3d_Inr)
  define sx where "sx = dmul (dsub ax bx) (dsub ax bx)"
  define sy where "sy = dmul (dsub ay by') (dsub ay by')"
  define sz where "sz = dmul (dsub az bz) (dsub az bz)"
  have D: "Distance a b = pow_half (dadd (dadd sx sy) sz)"
    by (simp add: Distance_def Distance2BetweenPoints_def AsArray_def a(1) b(1) sx_def sy_def sz_def)
  have sx: "if same_infinity ax bx then sx = NaN else nonneg_double sx"
    using dsub_NaN[OF a(2) b(2)] dmul_square[of "dsub ax bx"] by (auto simp: sx_def)
  have sy: "if same_infinity ay by' then sy = NaN else nonneg_double sy"
    using dsub_NaN[OF a(3) b(3)] dmul_square[of "dsub ay by'"] by (auto simp: sy_def)
  have sz: "if same_infinity az bz then sz = NaN else nonneg_double sz"
    using dsub_NaN[OF a(4) b(4)] dmul_square[of "dsub az bz"] by (auto simp: sz_def)
  show ?thesis
  proof (cases "shares_infinity a b")
    case True
    then have "sx = NaN \<or> sy = NaN \<or> sz = NaN"
      using sx sy sz by (auto simp: shares_infinity_def a(1) b(1) split: if_splits)
    then have "dadd (dadd sx sy) sz = NaN" by (auto simp: dadd_NaN)
    then show ?thesis using True by (simp add: D)
  next
    case False
    then have "nonneg_double sx" "nonneg_double sy" "nonneg_double sz"
      using sx sy sz by (auto simp: shares_infinity_def a(1) b(1) split: if_splits)
    then show ?thesis using False by (simp add: D dadd_nonneg pow_half_nonneg)
  qed
qed

lemma NaN_compare: "\<not> deq NaN d" "\<not> dge NaN d" "\<not> deq d NaN"
  by (cases d; simp add: deq_def dge_def)+

lemma finite_not_shares:
  "finite_Point3d a \<or> finite_Point3d b \<Longrightarrow> \<not> shares_infinity a b"
  by (auto simp: finite_Point3d_def shares_infinity_def same_infinity_def isfinite_def)

lemma shares_infinity_self:
  assumes "Point3d ax ay az = Inr a"
  shows "shares_infinity a a \<longleftrightarrow> \<not> finite_Point3d a"
proof -
  have a: "a = Point3d_raw ax ay az" "\<not> isnan ax" "\<not> isnan ay" "\<not> isnan az"
    using assms(1) by (simp_all add: Point3d_Inr)
  show ?thesis
    unfolding a(1) using a(2-4)
    by (cases ax; cases ay; cases az)
       (simp_all add: shares_infinity_def same_infinity_def finite_Point3d_def isfinite_def isnan_def)
qed

lemma Distance_self: "finite_Point3d a \<Longrightarrow> Distance a a = Finite 0"
  by (cases a)
     (auto simp: finite_Point3d_def isfinite_def Distance_def Distance2BetweenPoints_def AsArray_def
        round64_0 split: double.splits)

text \<open>
  Claim C9, as amended. For all points \<open>a\<close>, \<open>b\<close> and \<open>c\<close> built by the constructor (so
  without a NaN coordinate), the lexicographic comparison is a total order: exactly one
  of \<open>a < b\<close>, \<open>a == b\<close>, \<open>b < a\<close> holds, \<open>a == b\<close> holds just when the coordinates are
  equal, and \<open><\<close> is transitive. \<open>Distance(a,b) == Distance(b,a)\<close> and
  \<open>Distance(a,b) >= 0\<close> hold unless \<open>a\<close> and \<open>b\<close> have the same infinity in one of the
  coordinates (then the distance is NaN), so they hold whenever \<open>a\<close> or \<open>b\<close> has finite
  coordinates only; and \<open>Distance(a,a) == 0\<close> holds just when all coordinates of \<open>a\<close>
  are finite.
\<close>

theorem Point3d_order_and_Distance:
  assumes "Point3d ax ay az = Inr a" and "Point3d bx by' bz = Inr b" and "Point3d cx cy cz = Inr c"
  shows "(less_Point3d a b \<or> eq_Point3d a b \<or> less_Point3d b a)
       \<and> \<not> (less_Point3d a b \<and> eq_Point3d a b)
       \<and> \<not> (less_Point3d a b \<and> less_Point3d b a)
       \<and> \<not> (eq_Point3d a b \<and> less_Point3d b a)
       \<and> (eq_Point3d a b \<longleftrightarrow> a = b)
       \<and> (less_Point3d a b \<and> less_Point3d b c \<longrightarrow> less_Point3d a c)
       \<and> (deq (Distance a b) (Distance b a) \<longleftrightarrow> \<not> shares_infinity a b)
       \<and> (dge (Distance a b) (Finite 0) \<longleftrightarrow> \<not> shares_infinity a b)
       \<and> (finite_Point3d a \<or> finite_Point3d b \<longrightarrow> \<not> shares_infinity a b)
       \<and> (deq (Distance a a) (Finite 0) \<longleftrightarrow> finite_Point3d a)"
proof -
  have order: "(less_Point3d a b \<or> eq_Point3d a b \<or> less_Point3d b a)
       \<and> \<not> (less_Point3d a b \<and> eq_Point3d a b)
       \<and> \<not> (less_Point3d a b \<and> less_Point3d b a)
       \<and> \<not> (eq_Point3d a b \<and> less_Point3d b a)"
    using less_Point3d_asym[of a b] by (auto simp: eq_Point3d_def)
  have eq: "eq_Point3d a b \<longleftrightarrow> a = b"
    using assms(1,2) by (rule eq_Point3d_iff)
  have trans: "less_Point3d a b \<and> less_Point3d b c \<longrightarrow> less_Point3d a c"
    using less_Point3d_trans[OF assms] by blast
  have sym: "deq (Distance a b) (Distance b a) \<longleftrightarrow> \<not> shares_infinity a b"
    and nonneg: "dge (Distance a b) (Finite 0) \<longleftrightarrow> \<not> shares_infinity a b"
    using Distance_cases[OF assms(1,2)] Distance_swap[of b a]
      nonneg_double_dge[of "Distance a b"] NaN_compare
    by (auto split: if_splits)
  have fin: "finite_Point3d a \<or> finite_Point3d b \<longrightarrow> \<not> shares_infinity a b"
    using finite_not_shares[of a b] by blast
  have self: "deq (Distance a a) (Finite 0) \<longleftrightarrow> finite_Point3d a"
  proof (cases "finite_Point3d a")
    case True
    then show ?thesis using Distance_self[of a] by (simp add: deq_def)
  next
    case False
    then have "Distance a a = NaN"
      using Distance_cases[OF assms(1,1)] shares_infinity_self[OF assms(1)] by simp
    then show ?thesis using False NaN_compare by simp
  qed
  show ?thesis
    using order eq trans sym nonneg fin self by blast
qed

text \<open>
  The theorem at \<open>a = (1, 2, 3)\<close>, \<open>b = (1, 2, 4)\<close> and \<open>c = (1, 3, 0)\<close>: \<open>a < b < c\<close> and
  \<open>a < c\<close>, the distance of \<open>a\<close> and \<open>b\<close> is the same in both directions and not negative,
  and the distance of \<open>a\<close> to itself is 0.
\<close>

theorem Point3d_order_and_Distance_witness:
  "Point3d (Finite 1) (Finite 2) (Finite 3) = Inr (Point3d_raw (Finite 1) (Finite 2) (Finite 3))
   \<and> Point3d (Finite 1) (Finite 2) (Finite 4) = Inr (Point3d_raw (Finite 1) (Finite 2) (Finite 4))
   \<and> Point3d (Finite 1) (Finite 3) (Finite 0) = Inr (Point3d_raw (Finite 1) (Finite 3) (Finite 0))
   \<and> less_Point3d (Point3d_raw (Finite 1) (Finite 2) (Finite 3)) (Point3d_raw (Finite 1) (Finite 2) (Finite 4))
   \<and> less_Point3d (Point3d_raw (Finite 1) (Finite 2) (Finite 4)) (Point3d_raw (Finite 1) (Finite 3) (Finite 0))
   \<and> less_Point3d (Point3d_raw (Finite 1) (Finite 2) (Finite 3)) (Point3d_raw (Finite 1) (Finite 3) (Finite 0))
   \<and> \<not> eq_Point3d (Point3d_raw (Finite 1) (Finite 2) (Finite 3)) (Point3d_raw (Finite 1) (Finite 2) (Finite 4))
   \<and> \<not> less_Point3d (Point3d_raw (Finite 1) (Finite 2) (Finite 4)) (Point3d_raw (Finite 1) (Finite 2) (Finite 3))
   \<and> finite_Point3d (Point3d_raw (Finite 1) (Finite 2) (Finite 3))
   \<and> \<not> shares_infinity (Point3d_raw (Finite 1) (Finite 2) (Finite 3)) (Point3d_raw (Finite 1) (Finite 2) (Finite 4))
   \<and> deq (Distance (Point3d_raw (Finite 1) (Finite 2) (Finite 3)) (Point3d_raw (Finite 1) (Finite 2) (Finite 4)))
          (Distance (Point3d_raw (Finite 1) (Finite 2) (Finite 4)) (Point3d_raw (Finite 1) (Finite 2) (Finite 3)))
   \<and> dge (Distance (Point3d_raw (Finite 1) (Finite 2) (Finite 3)) (Point3d_raw (Finite 1) (Finite 2) (Finite 4))) (Finite 0)
   \<and> deq (Distance (Point3d_raw (Finite 1) (Finite 2) (Finite 3)) (Point3d_raw (Finite 1) (Finite 2) (Finite 3))) (Finite 0)"
proof -
  have a: "Point3d (Finite 1) (Finite 2) (Finite 3) = Inr (Point3d_raw (Finite 1) (Finite 2) (Finite 3))"
    by (simp add: Point3d_def isnan_def)
  have b: "Point3d (Finite 1) (Finite 2) (Finite 4) = Inr (Point3d_raw (Finite 1) (Finite 2) (Finite 4))"
    by (simp add: Point3d_def isnan_def)
  have c: "Point3d (Finite 1) (Finite 3) (Finite 0) = Inr (Point3d_raw (Finite 1) (Finite 3) (Finite 0))"
    by (simp add: Point3d_def isnan_def)
  have lt: "less_Point3d (Point3d_raw (Finite 1) (Finite 2) (Finite 3)) (Point3d_raw (Finite 1) (Finite 2) (Finite 4))"
    "less_Point3d (Point3d_raw (Finite 1) (Finite 2) (Finite 4)) (Point3d_raw (Finite 1) (Finite 3) (Finite 0))"
    by (simp_all add: less_Point3d_def)
  have fin: "finite_Point3d (Point3d_raw (Finite 1) (Finite 2) (Finite 3))"
    by (simp add: finite_Point3d_def isfinite_def)
  show ?thesis
    using Point3d_order_and_Distance [OF a b c] a b c lt fin by blast
qed

text \<open>
  The claim as stated fails for the distance: the constructor accepts an infinite
  coordinate, and for \<open>a = (+inf, 0, 0)\<close> the distance of \<open>a\<close> to itself is
  \<open>pow((inf - inf)^2 + 0 + 0, 0.5)\<close>, NaN, which is neither \<open>== 0\<close> nor \<open>>= 0\<close>.
\<close>

theorem Point3d_Distance_counterexample:
  "Point3d PosInf (Finite 0) (Finite 0) = Inr (Point3d_raw PosInf (Finite 0) (Finite 0))
   \<and> Distance (Point3d_raw PosInf (Finite 0) (Finite 0)) (Point3d_raw PosInf (Finite 0) (Finite 0)) = NaN
   \<and> \<not> deq (Distance (Point3d_raw PosInf (Finite 0) (Finite 0)) (Point3d_raw PosInf (Finite 0) (Finite 0))) (Finite 0)
   \<and> \<not> dge (Distance (Point3d_raw PosInf (Finite 0) (Finite 0)) (Point3d_raw PosInf (Finite 0) (Finite 0))) (Finite 0)"
  by (simp add: Point3d_def isnan_def Distance_def Distance2BetweenPoints_def AsArray_def
      deq_def dge_def round64_0)

section \<open>Properties of the normalised bounds\<close>

lemma pow2_small: "pow2 (- 1075) \<le> pow2 (- 54)" "pow2 (- 54) = pow2 (- 53) / 2"
  "pow2 (- 53) = pow2 (- 52) / 2" "pow2 (- 52) = pow2 (- 51) / 2" "0 < pow2 (- 53)"
  using pow2_mono[of "- 1075" "- 54"] pow2_add[of "- 53" "- 1"] pow2_add[of "- 52" "- 1"]
    pow2_add[of "- 51" "- 1"] pow2_pos[of "- 53"]
  by (simp_all add: pow2_vals)

lemma bound_max:
  fixes e :: real
  shows "\<bar>e\<bar> \<le> max a b \<Longrightarrow> a \<le> c \<Longrightarrow> b \<le> c \<Longrightarrow> \<bar>e\<bar> \<le> c"
  by linarith

text \<open>\<open>0.5 * (ri / rd)\<close> in doubles, for \<open>0 < ri \<le> rd\<close>.\<close>

lemma half_ratio_mul:
  assumes "0 < ri" and "ri \<le> rd"
  shows "\<exists>h. dmul (Finite (1 / 2)) (ddiv (Finite ri) (Finite rd)) = Finite h
           \<and> 0 \<le> h \<and> h \<le> 1 / 2 \<and> \<bar>2 * h - ri / rd\<bar> \<le> pow2 (- 52)
           \<and> (ri = rd \<longrightarrow> h = 1 / 2)"
proof -
  define t where "t = ri / rd"
  have rd: "0 < rd" using assms by simp
  have t: "0 \<le> t" "t \<le> pow2 0" using assms rd by (simp_all add: t_def pow2_vals)
  define q where "q = rounded t"
  have q: "round64 t = Finite q" "0 \<le> q" "q \<le> 1"
    "\<bar>q - t\<bar> \<le> max (t * pow2 (- 53)) (pow2 (- 1075))"
    using round64_range[OF t] by (simp_all add: q_def pow2_vals)
  have qe: "\<bar>q - t\<bar> \<le> pow2 (- 53)"
  proof -
    have "t * pow2 (- 53) \<le> 1 * pow2 (- 53)"
      using t(2) pow2_small(5) by (intro mult_right_mono) (simp_all add: pow2_vals)
    moreover have "pow2 (- 1075) \<le> pow2 (- 53)" by (intro pow2_mono) simp
    ultimately show ?thesis using q(4) by (intro bound_max[OF q(4)]) simp_all
  qed
  have hq: "0 \<le> q / 2" "q / 2 \<le> pow2 (- 1)" using q(2,3) by (simp_all add: pow2_vals)
  define h where "h = rounded (q / 2)"
  have h: "round64 (q / 2) = Finite h" "0 \<le> h" "h \<le> 1 / 2"
    "\<bar>h - q / 2\<bar> \<le> max (q / 2 * pow2 (- 53)) (pow2 (- 1075))"
    using round64_range[OF hq] by (simp_all add: h_def pow2_vals)
  have he: "\<bar>h - q / 2\<bar> \<le> pow2 (- 54)"
  proof -
    have "q / 2 * pow2 (- 53) \<le> 1 / 2 * pow2 (- 53)"
      using q(3) pow2_small(5) by (intro mult_right_mono) simp_all
    then have "q / 2 * pow2 (- 53) \<le> pow2 (- 54)" using pow2_small(2) by linarith
    then show ?thesis using pow2_small(1) by (intro bound_max[OF h(4)])
  qed
  have val: "dmul (Finite (1 / 2)) (ddiv (Finite ri) (Finite rd)) = Finite h"
    using rd q(1) h(1) by (simp add: t_def)
  have err: "\<bar>2 * h - t\<bar> \<le> pow2 (- 52)"
    using qe he pow2_small(2,3) by linarith
  have exact: "h = 1 / 2" if "ri = rd"
  proof -
    have "t = 1" using that rd by (simp add: t_def)
    then have "q = 1" using round64_1 q(1) by simp
    then show ?thesis using round64_half h(1) by simp
  qed
  show ?thesis
    using val h(2,3) err exact by (auto simp: t_def)
qed

text \<open>\<open>0.5 / (rd / ri)\<close> in doubles, for \<open>0 < ri \<le> rd\<close>.\<close>

lemma half_ratio_div:
  assumes "0 < ri" and "ri \<le> rd"
  shows "\<exists>h. ddiv (Finite (1 / 2)) (ddiv (Finite rd) (Finite ri)) = Finite h
           \<and> 0 \<le> h \<and> h \<le> 1 / 2 \<and> \<bar>2 * h - ri / rd\<bar> \<le> pow2 (- 52)
           \<and> (ri = rd \<longrightarrow> h = 1 / 2)"
proof -
  define T where "T = rd / ri"
  have rd: "0 < rd" using assms by simp
  have T: "1 \<le> T" using assms by (simp add: T_def)
  have inv: "ri / rd = 1 / T" using assms rd by (simp add: T_def)
  show ?thesis
  proof (cases "round64 T = Finite (rounded T)")
    case False
    have big: "pow2 1023 < T" using round64_overflow[OF _ False] T by simp
    have inf: "round64 T = PosInf" using round64_PosInf[of T] T False by auto
    have val: "ddiv (Finite (1 / 2)) (ddiv (Finite rd) (Finite ri)) = Finite 0"
      using assms inf by (simp add: T_def)
    have "pow2 52 \<le> pow2 1023" by (intro pow2_mono) simp
    then have "pow2 52 < T" using big by simp
    moreover have "pow2 52 * pow2 (- 52) = 1" using pow2_add[of 52 "- 52"] by (simp add: pow2_vals)
    ultimately have "1 / T \<le> pow2 (- 52)"
      using T pow2_pos[of "- 52"] pow2_pos[of 52]
      by (simp add: divide_le_eq) (metis less_eq_real_def mult.commute mult_le_cancel_left_pos)
    moreover have "ri \<noteq> rd"
    proof
      assume "ri = rd"
      then have "T = 1" using rd by (simp add: T_def)
      moreover have "pow2 0 \<le> pow2 1023" by (intro pow2_mono) simp
      ultimately show False using big by (simp add: pow2_vals)
    qed
    ultimately show ?thesis
      using val T by (auto simp: inv)
  next
    case True
    define Q where "Q = rounded T"
    have Q1: "1 \<le> Q" using rounded_ge_pow2[of 0 T] T by (simp add: Q_def pow2_vals)
    have Qe: "\<bar>Q - T\<bar> \<le> T * pow2 (- 53)"
    proof -
      have "pow2 (- 1075) \<le> T * pow2 (- 53)"
      proof -
        have "pow2 (- 1075) \<le> 1 * pow2 (- 53)" using pow2_mono[of "- 1075" "- 53"] by simp
        also have "\<dots> \<le> T * pow2 (- 53)"
          using T pow2_small(5) by (intro mult_right_mono) simp_all
        finally show ?thesis .
      qed
      then show ?thesis
        using rounded_error[of T] ulp_exponent_bound[of T] T by (simp add: Q_def)
    qed
    define x where "x = (1 / 2) / Q"
    have x: "0 \<le> x" "x \<le> pow2 (- 1)" using Q1 by (simp_all add: x_def pow2_vals divide_le_eq)
    define h where "h = rounded x"
    have h: "round64 x = Finite h" "0 \<le> h" "h \<le> 1 / 2"
      "\<bar>h - x\<bar> \<le> max (x * pow2 (- 53)) (pow2 (- 1075))"
      using round64_range[OF x] by (simp_all add: h_def pow2_vals)
    have he: "\<bar>h - x\<bar> \<le> pow2 (- 54)"
    proof -
      have "x * pow2 (- 53) \<le> 1 / 2 * pow2 (- 53)"
        using x(2) pow2_small(5) by (intro mult_right_mono) (simp_all add: pow2_vals)
      then have "x * pow2 (- 53) \<le> pow2 (- 54)" using pow2_small(2) by linarith
      then show ?thesis using pow2_small(1) by (intro bound_max[OF h(4)])
    qed
    have val: "ddiv (Finite (1 / 2)) (ddiv (Finite rd) (Finite ri)) = Finite h"
      using assms True Q1 h(1) by (simp add: T_def[symmetric] Q_def[symmetric] x_def)
    have xe: "\<bar>2 * x - 1 / T\<bar> \<le> pow2 (- 53)"
    proof -
      have "2 * x - 1 / T = (T - Q) / (Q * T)" using Q1 T by (simp add: x_def field_simps)
      then have "\<bar>2 * x - 1 / T\<bar> = \<bar>Q - T\<bar> / (Q * T)"
        using Q1 T by (simp add: abs_divide abs_mult abs_minus_commute)
      also have "\<dots> \<le> (T * pow2 (- 53)) / (Q * T)"
        using Qe Q1 T by (intro divide_right_mono) simp_all
      also have "\<dots> = pow2 (- 53) / Q" using T by simp
      also have "\<dots> \<le> pow2 (- 53) / 1"
        using Q1 pow2_small(5) by (intro divide_left_mono) simp_all
      finally show ?thesis by simp
    qed
    have err: "\<bar>2 * h - 1 / T\<bar> \<le> pow2 (- 52)"
      using he xe pow2_small(2,3) by linarith
    have exact: "h = 1 / 2" if "ri = rd"
    proof -
      have "T = 1" using that rd by (simp add: T_def)
      then have "Q = 1" using round64_1 True by (simp add: Q_def)
      then show ?thesis using round64_half h(1) by (simp add: x_def)
    qed
    show ?thesis
      using val h(2,3) err exact by (auto simp: inv)
  qed
qed

text \<open>\<open>0.5 - h\<close> and \<open>0.5 + h\<close> in doubles, for \<open>0 \<le> h \<le> 0.5\<close>.\<close>

lemma centred_interval:
  assumes "0 \<le> h" and "h \<le> 1 / 2"
  shows "\<exists>lo hi. dsub (Finite (1 / 2)) (Finite h) = Finite lo
           \<and> dadd (Finite (1 / 2)) (Finite h) = Finite hi
           \<and> 0 \<le> lo \<and> lo \<le> 1 / 2 \<and> 1 / 2 \<le> hi \<and> hi \<le> 1
           \<and> \<bar>lo - (1 / 2 - h)\<bar> \<le> pow2 (- 54) \<and> \<bar>hi - (1 / 2 + h)\<bar> \<le> pow2 (- 53)
           \<and> (h = 1 / 2 \<longrightarrow> lo = 0 \<and> hi = 1)"
proof -
  have a: "0 \<le> 1 / 2 - h" "1 / 2 - h \<le> pow2 (- 1)" using assms by (simp_all add: pow2_vals)
  have b: "0 \<le> 1 / 2 + h" "1 / 2 + h \<le> pow2 0" using assms by (simp_all add: pow2_vals)
  define lo where "lo = rounded (1 / 2 - h)"
  define hi where "hi = rounded (1 / 2 + h)"
  have lo: "round64 (1 / 2 - h) = Finite lo" "0 \<le> lo" "lo \<le> 1 / 2"
    "\<bar>lo - (1 / 2 - h)\<bar> \<le> max ((1 / 2 - h) * pow2 (- 53)) (pow2 (- 1075))"
    using round64_range[OF a] by (simp_all add: lo_def pow2_vals)
  have hi: "round64 (1 / 2 + h) = Finite hi" "hi \<le> 1"
    "\<bar>hi - (1 / 2 + h)\<bar> \<le> max ((1 / 2 + h) * pow2 (- 53)) (pow2 (- 1075))"
    using round64_range[OF b] by (simp_all add: hi_def pow2_vals)
  have hi_ge: "1 / 2 \<le> hi"
    using rounded_ge_pow2[of "- 1" "1 / 2 + h"] assms by (simp add: hi_def pow2_vals)
  have loe: "\<bar>lo - (1 / 2 - h)\<bar> \<le> pow2 (- 54)"
  proof -
    have "(1 / 2 - h) * pow2 (- 53) \<le> 1 / 2 * pow2 (- 53)"
      using assms pow2_small(5) by (intro mult_right_mono) simp_all
    then have "(1 / 2 - h) * pow2 (- 53) \<le> pow2 (- 54)" using pow2_small(2) by linarith
    then show ?thesis using pow2_small(1) by (intro bound_max[OF lo(4)])
  qed
  have hie: "\<bar>hi - (1 / 2 + h)\<bar> \<le> pow2 (- 53)"
  proof -
    have "(1 / 2 + h) * pow2 (- 53) \<le> 1 * pow2 (- 53)"
      using assms pow2_small(5) by (intro mult_right_mono) simp_all
    moreover have "pow2 (- 1075) \<le> pow2 (- 53)" by (intro pow2_mono) simp
    ultimately show ?thesis by (intro bound_max[OF hi(3)]) simp_all
  qed
  have exact: "lo = 0 \<and> hi = 1" if "h = 1 / 2"
    using lo(1) hi(1) round64_0 round64_1 unfolding that by simp
  show ?thesis
    using lo(1,2,3) hi(1,2) hi_ge loe hie exact by auto
qed

text \<open>
  What holds of the two bounds \<open>dlo\<close>, \<open>dhi\<close> of an axis whose range is \<open>t\<close> times the longest
  range: they are finite, \<open>0 \<le> lo \<le> 0.5 \<le> hi \<le> 1\<close>, the centre is 0.5 and the length \<open>t\<close>
  up to rounding errors, and they are 0 and 1 when \<open>t = 1\<close>.
\<close>

definition normalised :: "double \<Rightarrow> double \<Rightarrow> real \<Rightarrow> bool" where
  "normalised dlo dhi t =
     (\<exists>lo hi. dlo = Finite lo \<and> dhi = Finite hi
        \<and> 0 \<le> lo \<and> lo \<le> 1 / 2 \<and> 1 / 2 \<le> hi \<and> hi \<le> 1
        \<and> \<bar>(lo + hi) / 2 - 1 / 2\<bar> \<le> 1 / 2 ^ 53
        \<and> \<bar>(hi - lo) - t\<bar> \<le> 1 / 2 ^ 51
        \<and> (t = 1 \<longrightarrow> lo = 0 \<and> hi = 1))"

lemma pow2_bounds: "pow2 (- 51) = 1 / 2 ^ 51" "pow2 (- 53) = 1 / 2 ^ 53"
  by (simp_all add: pow2_def)

lemma normalised_slot:
  assumes "dh = Finite h" and "0 \<le> h" and "h \<le> 1 / 2" and "\<bar>2 * h - t\<bar> \<le> pow2 (- 52)"
    and "t = 1 \<longrightarrow> h = 1 / 2"
  shows "normalised (dsub (Finite (1 / 2)) dh) (dadd (Finite (1 / 2)) dh) t"
proof -
  obtain lo hi where *: "dsub (Finite (1 / 2)) (Finite h) = Finite lo"
    "dadd (Finite (1 / 2)) (Finite h) = Finite hi"
    "0 \<le> lo" "lo \<le> 1 / 2" "1 / 2 \<le> hi" "hi \<le> 1"
    "\<bar>lo - (1 / 2 - h)\<bar> \<le> pow2 (- 54)" "\<bar>hi - (1 / 2 + h)\<bar> \<le> pow2 (- 53)"
    "h = 1 / 2 \<longrightarrow> lo = 0 \<and> hi = 1"
    using centred_interval[OF assms(2,3)] by blast
  have centre: "\<bar>(lo + hi) / 2 - 1 / 2\<bar> \<le> pow2 (- 53)"
    using *(7,8) pow2_small(2,5) unfolding abs_le_iff by (simp add: field_simps)
  have len: "\<bar>(hi - lo) - t\<bar> \<le> pow2 (- 51)"
    using *(7,8) assms(4) pow2_small(2,3,4,5) unfolding abs_le_iff by (simp add: field_simps)
  show ?thesis
    unfolding normalised_def assms(1)
    using *(1-6,9) centre len assms(5) by (auto simp: pow2_bounds)
qed

lemma normalised_mul:
  assumes "0 < ri" and "ri \<le> rd"
  shows "normalised (dsub (Finite (1 / 2)) (dmul (Finite (1 / 2)) (ddiv (Finite ri) (Finite rd))))
                    (dadd (Finite (1 / 2)) (dmul (Finite (1 / 2)) (ddiv (Finite ri) (Finite rd))))
                    (ri / rd)"
proof -
  obtain h where h: "dmul (Finite (1 / 2)) (ddiv (Finite ri) (Finite rd)) = Finite h"
    "0 \<le> h" "h \<le> 1 / 2" "\<bar>2 * h - ri / rd\<bar> \<le> pow2 (- 52)" "ri = rd \<longrightarrow> h = 1 / 2"
    using half_ratio_mul[OF assms] by blast
  have "ri / rd = 1 \<longrightarrow> h = 1 / 2" using h(5) assms by simp
  then show ?thesis using h(1-4) by (intro normalised_slot)
qed

lemma normalised_div:
  assumes "0 < ri" and "ri \<le> rd"
  shows "normalised (dsub (Finite (1 / 2)) (ddiv (Finite (1 / 2)) (ddiv (Finite rd) (Finite ri))))
                    (dadd (Finite (1 / 2)) (ddiv (Finite (1 / 2)) (ddiv (Finite rd) (Finite ri))))
                    (ri / rd)"
proof -
  obtain h where h: "ddiv (Finite (1 / 2)) (ddiv (Finite rd) (Finite ri)) = Finite h"
    "0 \<le> h" "h \<le> 1 / 2" "\<bar>2 * h - ri / rd\<bar> \<le> pow2 (- 52)" "ri = rd \<longrightarrow> h = 1 / 2"
    using half_ratio_div[OF assms] by blast
  have "ri / rd = 1 \<longrightarrow> h = 1 / 2" using h(5) assms by simp
  then show ?thesis using h(1-4) by (intro normalised_slot)
qed

lemma normalised_dominant: "normalised (Finite 0) (Finite 1) 1"
  by (simp add: normalised_def)

lemma dge_Finite: "dge (Finite x) (Finite y) \<longleftrightarrow> y \<le> x"
  by (auto simp: dge_def deq_def)

text \<open>The three branches of \<^verbatim>\<open>ComputePolyDataToImageDataNewBounds\<close> on finite ranges.\<close>

lemma NewBounds_explicit:
  assumes "axis_range bounds 0 = Finite r0" and "axis_range bounds 1 = Finite r1"
    and "axis_range bounds 2 = Finite r2"
  shows "ComputePolyDataToImageDataNewBounds uninitialized bounds =
     (if r1 \<le> r0 \<and> r2 \<le> r0 then
        [Finite 0, Finite 1,
         dsub (Finite (1 / 2)) (dmul (Finite (1 / 2)) (ddiv (Finite r1) (Finite r0))),
         dadd (Finite (1 / 2)) (dmul (Finite (1 / 2)) (ddiv (Finite r1) (Finite r0))),
         dsub (Finite (1 / 2)) (dmul (Finite (1 / 2)) (ddiv (Finite r2) (Finite r0))),
         dadd (Finite (1 / 2)) (dmul (Finite (1 / 2)) (ddiv (Finite r2) (Finite r0)))]
      else if r0 \<le> r1 \<and> r2 \<le> r1 then
        [dsub (Finite (1 / 2)) (ddiv (Finite (1 / 2)) (ddiv (Finite r1) (Finite r0))),
         dadd (Finite (1 / 2)) (ddiv (Finite (1 / 2)) (ddiv (Finite r1) (Finite r0))),
         Finite 0, Finite 1,
         dsub (Finite (1 / 2)) (dmul (Finite (1 / 2)) (ddiv (Finite r2) (Finite r1))),
         dadd (Finite (1 / 2)) (dmul (Finite (1 / 2)) (ddiv (Finite r2) (Finite r1)))]
      else
        [dsub (Finite (1 / 2)) (ddiv (Finite (1 / 2)) (ddiv (Finite r2) (Finite r0))),
         dadd (Finite (1 / 2)) (ddiv (Finite (1 / 2)) (ddiv (Finite r2) (Finite r0))),
         dsub (Finite (1 / 2)) (ddiv (Finite (1 / 2)) (ddiv (Finite r2) (Finite r1))),
         dadd (Finite (1 / 2)) (ddiv (Finite (1 / 2)) (ddiv (Finite r2) (Finite r1))),
         Finite 0, Finite 1])"
proof -
  have r: "dsub (bounds ! 1) (bounds ! 0) = Finite r0"
    "dsub (bounds ! 3) (bounds ! 2) = Finite r1" "dsub (bounds ! 5) (bounds ! 4) = Finite r2"
    using assms by (simp_all add: axis_range_def)
  show ?thesis
    unfolding ComputePolyDataToImageDataNewBounds_def r Let_def
    by (auto simp add: dge_Finite simp del: dsub.simps dadd.simps dmul.simps ddiv.simps)
qed

text \<open>
  Claim C5, as amended. For a box whose three ranges, as the function computes them,
  are finite and strictly positive, \<^verbatim>\<open>ComputePolyDataToImageDataNewBounds\<close> gives every
  axis two finite bounds \<open>lo\<close> and \<open>hi\<close> with \<open>0 \<le> lo \<le> 0.5 \<le> hi \<le> 1\<close>. An axis of the
  longest range gets exactly \<open>[0, 1]\<close>. For the other axes the centre of the interval
  is 0.5 and its length is the range divided by the longest range up to the rounding
  of the double arithmetic: the centre is off by at most \<open>2^-53\<close> and the length by at
  most \<open>2^-51\<close>.
\<close>

theorem ComputePolyDataToImageDataNewBounds_normalised:
  fixes uninitialized bounds :: Bounds and r0 r1 r2 :: real
  assumes "axis_range bounds 0 = Finite r0" and "axis_range bounds 1 = Finite r1"
    and "axis_range bounds 2 = Finite r2"
    and "0 < r0" and "0 < r1" and "0 < r2" and "i < 3"
  defines "newBounds \<equiv> ComputePolyDataToImageDataNewBounds uninitialized bounds"
    and "ri \<equiv> [r0, r1, r2] ! i" and "rd \<equiv> max r0 (max r1 r2)"
  shows "\<exists>lo hi. newBounds ! (2 * i) = Finite lo \<and> newBounds ! (2 * i + 1) = Finite hi
           \<and> 0 \<le> lo \<and> lo \<le> 1 / 2 \<and> 1 / 2 \<le> hi \<and> hi \<le> 1
           \<and> \<bar>(lo + hi) / 2 - 1 / 2\<bar> \<le> 1 / 2 ^ 53
           \<and> \<bar>(hi - lo) - ri / rd\<bar> \<le> 1 / 2 ^ 51
           \<and> (ri = rd \<longrightarrow> lo = 0 \<and> hi = 1)"
proof -
  note explicit = NewBounds_explicit[OF assms(1-3), of uninitialized, folded newBounds_def]
  have axes: "normalised (newBounds ! 0) (newBounds ! 1) (r0 / rd)
      \<and> normalised (newBounds ! 2) (newBounds ! 3) (r1 / rd)
      \<and> normalised (newBounds ! 4) (newBounds ! 5) (r2 / rd)"
  proof (cases "r1 \<le> r0 \<and> r2 \<le> r0")
    case True
    then have rd: "rd = r0" by (simp add: rd_def)
    show ?thesis
      unfolding explicit if_P[OF True] rd using True assms(4-6)
      by (simp add: normalised_mul normalised_dominant
            del: dsub.simps dadd.simps dmul.simps ddiv.simps)
  next
    case first: False
    show ?thesis
    proof (cases "r0 \<le> r1 \<and> r2 \<le> r1")
      case True
      then have rd: "rd = r1" by (simp add: rd_def)
      show ?thesis
        unfolding explicit if_not_P[OF first] if_P[OF True] rd using True assms(4-6)
        by (simp add: normalised_mul normalised_div normalised_dominant
              del: dsub.simps dadd.simps dmul.simps ddiv.simps)
    next
      case False
      then have le: "r0 \<le> r2" "r1 \<le> r2" using first by auto
      then have rd: "rd = r2" by (simp add: rd_def)
      show ?thesis
        unfolding explicit if_not_P[OF first] if_not_P[OF False] rd using le assms(4-6)
        by (simp add: normalised_div normalised_dominant
              del: dsub.simps dadd.simps dmul.simps ddiv.simps)
    qed
  qed
  have rd_pos: "0 < rd" using assms(4) by (simp add: rd_def)
  have "i = 0 \<or> i = 1 \<or> i = 2" using assms(7) by auto
  then have "normalised (newBounds ! (2 * i)) (newBounds ! (2 * i + 1)) (ri / rd)"
    using axes by (auto simp: ri_def)
  then show ?thesis
    unfolding normalised_def using rd_pos by auto
qed

text \<open>Doubles that the example boxes go through.\<close>

lemma round64_dyadic:
  "round64 4 = Finite 4" "round64 3 = Finite 3" "round64 2 = Finite 2"
  "round64 (1 / 4) = Finite (1 / 4)" "round64 (3 / 4) = Finite (3 / 4)"
  "round64 (1 / 8) = Finite (1 / 8)" "round64 (3 / 8) = Finite (3 / 8)"
  "round64 (5 / 8) = Finite (5 / 8)"
  using round64_exact[of 4 4 0] round64_exact[of 3 3 0] round64_exact[of 2 2 0]
    round64_exact[of "1 / 4" 1 "- 2"] round64_exact[of "3 / 4" 3 "- 2"]
    round64_exact[of "1 / 8" 1 "- 3"] round64_exact[of "3 / 8" 3 "- 3"]
    round64_exact[of "5 / 8" 5 "- 3"]
  by (simp_all add: pow2_def)

text \<open>
  The theorem on the box of ranges \<open>(4, 2, 1)\<close>, for the axis \<open>y\<close>: the quotients are exact,
  and the new bounds are \<open>[0, 1]\<close>, \<open>[1/4, 3/4]\<close> and \<open>[3/8, 5/8]\<close>.
\<close>

theorem ComputePolyDataToImageDataNewBounds_normalised_witness:
  "axis_range [Finite 0, Finite 4, Finite 0, Finite 2, Finite 0, Finite 1] 0 = Finite 4
   \<and> axis_range [Finite 0, Finite 4, Finite 0, Finite 2, Finite 0, Finite 1] 1 = Finite 2
   \<and> axis_range [Finite 0, Finite 4, Finite 0, Finite 2, Finite 0, Finite 1] 2 = Finite 1
   \<and> (0 :: real) < 4 \<and> (0 :: real) < 2 \<and> (0 :: real) < 1 \<and> (1 :: nat) < 3
   \<and> ComputePolyDataToImageDataNewBounds []
         [Finite 0, Finite 4, Finite 0, Finite 2, Finite 0, Finite 1]
       = [Finite 0, Finite 1, Finite (1 / 4), Finite (3 / 4), Finite (3 / 8), Finite (5 / 8)]
   \<and> (\<exists>lo hi.
         ComputePolyDataToImageDataNewBounds []
           [Finite 0, Finite 4, Finite 0, Finite 2, Finite 0, Finite 1] ! (2 * 1) = Finite lo
       \<and> ComputePolyDataToImageDataNewBounds []
           [Finite 0, Finite 4, Finite 0, Finite 2, Finite 0, Finite 1] ! (2 * 1 + 1) = Finite hi
       \<and> 0 \<le> lo \<and> lo \<le> 1 / 2 \<and> 1 / 2 \<le> hi \<and> hi \<le> 1
       \<and> \<bar>(lo + hi) / 2 - 1 / 2\<bar> \<le> 1 / 2 ^ 53
       \<and> \<bar>(hi - lo) - [4, 2, 1] ! 1 / max 4 (max 2 1)\<bar> \<le> 1 / 2 ^ 51)"
proof -
  have r: "axis_range [Finite 0, Finite 4, Finite 0, Finite 2, Finite 0, Finite 1] 0 = Finite 4"
    "axis_range [Finite 0, Finite 4, Finite 0, Finite 2, Finite 0, Finite 1] 1 = Finite 2"
    "axis_range [Finite 0, Finite 4, Finite 0, Finite 2, Finite 0, Finite 1] 2 = Finite 1"
    by (simp_all add: axis_range_def round64_dyadic round64_1)
  have p: "(0 :: real) < 4" "(0 :: real) < 2" "(0 :: real) < 1" by simp_all
  have i: "(1 :: nat) < 3" by simp
  have v: "ComputePolyDataToImageDataNewBounds []
         [Finite 0, Finite 4, Finite 0, Finite 2, Finite 0, Finite 1]
       = [Finite 0, Finite 1, Finite (1 / 4), Finite (3 / 4), Finite (3 / 8), Finite (5 / 8)]"
    unfolding NewBounds_explicit[OF r]
    by (simp add: round64_dyadic round64_half round64_1)
  show ?thesis
    using ComputePolyDataToImageDataNewBounds_normalised [OF r p i, of "[]"] r p i v
    by blast
qed

text \<open>Roundings on the boxes of ranges \<open>(3, 1, 1)\<close> and \<open>(1, 2^-70, 1)\<close>.\<close>

lemma round64_third: "round64 (1 / 3) = Finite (6004799503160661 / 18014398509481984)"
  using round64_normal[of "- 2" "1 / 3"]
  by (simp add: pow2_def rne_def)

lemma round64_third_lo: "round64 (12009599006321323 / 36028797018963968)
  = Finite (3002399751580331 / 9007199254740992)"
  using round64_normal[of "- 2" "12009599006321323 / 36028797018963968"]
  by (simp add: pow2_def rne_def)

lemma round64_third_hi: "round64 (24019198012642645 / 36028797018963968)
  = Finite (6004799503160661 / 9007199254740992)"
  using round64_normal[of "- 1" "24019198012642645 / 36028797018963968"]
  by (simp add: pow2_def rne_def)

lemma round64_tiny:
  "round64 (1 / 2 ^ 70) = Finite (1 / 2 ^ 70)" "round64 (1 / 2 ^ 71) = Finite (1 / 2 ^ 71)"
  "round64 (1 / 2 - 1 / 2 ^ 71) = Finite (1 / 2)" "round64 (1 / 2 + 1 / 2 ^ 71) = Finite (1 / 2)"
  using round64_exact[of "1 / 2 ^ 70" 1 "- 70"] round64_exact[of "1 / 2 ^ 71" 1 "- 71"]
    round64_normal[of "- 2" "1 / 2 - 1 / 2 ^ 71"] round64_normal[of "- 1" "1 / 2 + 1 / 2 ^ 71"]
  by (simp_all add: pow2_def rne_def)

text \<open>
  The claim as stated fails: the quotient of two ranges and the two bounds are
  rounded. On the box of ranges \<open>(3, 1, 1)\<close> the bounds of \<open>y\<close> are
  \<open>0.33333333333333337\<close> and \<open>0.66666666666666663\<close>, and the length of the interval is
  neither \<open>1/3\<close> nor the double nearest to it. On the box of ranges \<open>(1, 2^-70, 1)\<close> both bounds of \<open>y\<close> are \<open>0.5\<close>: the
  interval has length 0.
\<close>

theorem ComputePolyDataToImageDataNewBounds_counterexample:
  "ComputePolyDataToImageDataNewBounds []
     [Finite 0, Finite 3, Finite 0, Finite 1, Finite 0, Finite 1]
   = [Finite 0, Finite 1,
      Finite (6004799503160662 / 18014398509481984), Finite (6004799503160661 / 9007199254740992),
      Finite (6004799503160662 / 18014398509481984), Finite (6004799503160661 / 9007199254740992)]
   \<and> 6004799503160661 / 9007199254740992 - 6004799503160662 / 18014398509481984 \<noteq> (1 / 3 :: real)
   \<and> 6004799503160661 / 9007199254740992 - 6004799503160662 / 18014398509481984
       \<noteq> (6004799503160661 / 18014398509481984 :: real)
   \<and> ComputePolyDataToImageDataNewBounds []
        [Finite 0, Finite 1, Finite 0, Finite (1 / 2 ^ 70), Finite 0, Finite 1]
      = [Finite 0, Finite 1, Finite (1 / 2), Finite (1 / 2), Finite 0, Finite 1]"
proof -
  have r: "axis_range [Finite 0, Finite 3, Finite 0, Finite 1, Finite 0, Finite 1] 0 = Finite 3"
    "axis_range [Finite 0, Finite 3, Finite 0, Finite 1, Finite 0, Finite 1] 1 = Finite 1"
    "axis_range [Finite 0, Finite 3, Finite 0, Finite 1, Finite 0, Finite 1] 2 = Finite 1"
    by (simp_all add: axis_range_def round64_dyadic round64_1)
  have half: "round64 (6004799503160661 / 36028797018963968) = Finite (6004799503160661 / 36028797018963968)"
    using round64_exact[of "6004799503160661 / 36028797018963968" 6004799503160661 "- 55"]
    by (simp add: pow2_def)
  have first: "ComputePolyDataToImageDataNewBounds []
     [Finite 0, Finite 3, Finite 0, Finite 1, Finite 0, Finite 1]
   = [Finite 0, Finite 1,
      Finite (6004799503160662 / 18014398509481984), Finite (6004799503160661 / 9007199254740992),
      Finite (6004799503160662 / 18014398509481984), Finite (6004799503160661 / 9007199254740992)]"
    unfolding NewBounds_explicit[OF r]
    by (simp add: round64_third half round64_third_lo round64_third_hi)
  have t: "axis_range [Finite 0, Finite 1, Finite 0, Finite (1 / 2 ^ 70), Finite 0, Finite 1] 0 = Finite 1"
    "axis_range [Finite 0, Finite 1, Finite 0, Finite (1 / 2 ^ 70), Finite 0, Finite 1] 1 = Finite (1 / 2 ^ 70)"
    "axis_range [Finite 0, Finite 1, Finite 0, Finite (1 / 2 ^ 70), Finite 0, Finite 1] 2 = Finite 1"
    by (simp_all add: axis_range_def round64_tiny[simplified] round64_1)
  have second: "ComputePolyDataToImageDataNewBounds []
        [Finite 0, Finite 1, Finite 0, Finite (1 / 2 ^ 70), Finite 0, Finite 1]
      = [Finite 0, Finite 1, Finite (1 / 2), Finite (1 / 2), Finite 0, Finite 1]"
    unfolding NewBounds_explicit[OF t]
    by (simp add: round64_tiny[simplified] round64_1 round64_half round64_0)
  show ?thesis
    using first second by simp
qed

section \<open>The radius rebuilt by \<^verbatim>\<open>Refine\<close>\<close>








section \<open>Loops, clones and the store\<close>

lemma for_each_invariant:
  assumes "\<And>i s. i \<in> set is \<Longrightarrow> P s \<Longrightarrow> P (snd (body i s))" and "P s"
  shows "P (snd (for_each is body s))"
  using assms
proof (induction "is" arbitrary: s)
  case Nil
  then show ?case by simp
next
  case (Cons i "is")
  have step: "P (snd (body i s))" using Cons.prems by simp
  show ?case
  proof (cases "body i s")
    case (Pair thrown s')
    with step have s': "P s'" by simp
    show ?thesis
    proof (cases thrown)
      case None
      then show ?thesis using Pair Cons.IH[of s'] Cons.prems(1) s' by simp
    next
      case (Some e)
      then show ?thesis using Pair s' by simp
    qed
  qed
qed

definition fresh_point :: "nat \<Rightarrow> nat \<Rightarrow> addr vtkSRepSkeletalPoint \<Rightarrow> bool" where
  "fresh_point n m p = (\<forall>a \<in> set (spokes_of_point p). n \<le> a \<and> a < m)"

lemma ClonePoint_fresh:
  assumes "ClonePoint p h = (p', h')"
  shows "\<exists>new. h' = h @ new" and "fresh_point (length h) (length h') p'"
    and "IsCrest p' = IsCrest p"
  using assms
  by (auto simp: ClonePoint_def alloc_def fresh_point_def spokes_of_point_def IsCrest_def Let_def
      split: option.splits prod.splits)

lemma fresh_point_mono: "fresh_point n m p \<Longrightarrow> n' \<le> n \<Longrightarrow> m \<le> m' \<Longrightarrow> fresh_point n' m' p"
  by (auto simp: fresh_point_def)

lemma CloneLine_fresh:
  assumes "CloneLine ps h = (ps', h')"
  shows "(\<exists>new. h' = h @ new) \<and> length ps' = length ps
       \<and> (\<forall>p' \<in> set ps'. fresh_point (length h) (length h') p')"
  using assms
proof (induction ps arbitrary: h ps' h')
  case Nil
  then show ?case by simp
next
  case (Cons p ps)
  obtain p1 h1 where p1: "ClonePoint p h = (p1, h1)" by (cases "ClonePoint p h")
  obtain ps2 h2 where ps2: "CloneLine ps h1 = (ps2, h2)" by (cases "CloneLine ps h1")
  have res: "ps' = p1 # ps2" "h' = h2" using Cons.prems p1 ps2 by simp_all
  from ClonePoint_fresh[OF p1] obtain new1 where h1: "h1 = h @ new1"
    and f1: "fresh_point (length h) (length h1) p1" by blast
  from Cons.IH[OF ps2] obtain new2 where h2: "h2 = h1 @ new2"
    and len: "length ps2 = length ps"
    and f2: "\<forall>p' \<in> set ps2. fresh_point (length h1) (length h2) p'" by blast
  have "fresh_point (length h) (length h2) p1"
    using f1 fresh_point_mono[of "length h" "length h1" p1 "length h" "length h2"]
    by (simp add: h2)
  moreover have "fresh_point (length h) (length h2) p'" if "p' \<in> set ps2" for p'
    using f2 that fresh_point_mono[of "length h1" "length h2" p' "length h" "length h2"]
    by (simp add: h1)
  ultimately show ?case
    unfolding res using h1 h2 len by auto
qed

lemma SmartClone_fresh:
  assumes "SmartClone srep h = (clone, h')"
  shows "(\<exists>new. h' = h @ new) \<and> map length clone = map length srep
       \<and> (\<forall>line \<in> set clone. \<forall>p' \<in> set line. fresh_point (length h) (length h') p')"
  using assms
proof (induction srep arbitrary: h clone h')
  case Nil
  then show ?case by simp
next
  case (Cons line lines)
  obtain l1 h1 where l1: "CloneLine line h = (l1, h1)" by (cases "CloneLine line h")
  obtain ls2 h2 where ls2: "SmartClone lines h1 = (ls2, h2)" by (cases "SmartClone lines h1")
  have res: "clone = l1 # ls2" "h' = h2" using Cons.prems l1 ls2 by simp_all
  from CloneLine_fresh[OF l1] obtain new1 where h1: "h1 = h @ new1"
    and len1: "length l1 = length line"
    and f1: "\<forall>p' \<in> set l1. fresh_point (length h) (length h1) p'" by blast
  from Cons.IH[OF ls2] obtain new2 where h2: "h2 = h1 @ new2"
    and len2: "map length ls2 = map length lines"
    and f2: "\<forall>line \<in> set ls2. \<forall>p' \<in> set line. fresh_point (length h1) (length h2) p'" by blast
  have "fresh_point (length h) (length h2) p'" if "p' \<in> set l1" for p'
    using f1 that fresh_point_mono[of "length h" "length h1" p' "length h" "length h2"]
    by (simp add: h2)
  moreover have "fresh_point (length h) (length h2) p'" if "line \<in> set ls2" "p' \<in> set line" for line p'
    using f2 that fresh_point_mono[of "length h1" "length h2" p' "length h" "length h2"]
    by (simp add: h1)
  ultimately show ?case
    unfolding res using h1 h2 len1 len2 by auto
qed

lemma same_steps_nth:
  "same_steps srep \<Longrightarrow> l < length srep \<Longrightarrow> length (srep ! l) = GetNumberOfSteps srep"
  by (simp add: same_steps_def list_all_length)

lemma same_steps_shape:
  assumes "map length clone = map length srep" and "same_steps srep"
  shows "same_steps clone" and "GetNumberOfSteps clone = GetNumberOfSteps srep"
    and "GetNumberOfLines clone = GetNumberOfLines srep"
proof -
  have len: "length clone = length srep"
    using assms(1) by (metis length_map)
  show steps: "GetNumberOfSteps clone = GetNumberOfSteps srep"
    using assms(1) by (cases clone; cases srep) (simp_all add: GetNumberOfSteps_def)
  show "GetNumberOfLines clone = GetNumberOfLines srep"
    by (simp add: GetNumberOfLines_def len)
  have "length (clone ! l) = length (srep ! l)" if "l < length srep" for l
    using assms(1) that by (metis len nth_map)
  then show "same_steps clone"
    using assms(2) by (simp add: same_steps_def list_all_length len steps)
qed

lemma GetSpoke_in_spokes:
  "spokeType \<noteq> CrestOrientation \<Longrightarrow> the (GetSpoke spokeType p) \<in> set (spokes_of_point p)"
  by (cases spokeType) (simp_all add: spokes_of_point_def)

lemma Refine_spoke_frame:
  assumes "n \<le> a"
  shows "take n (snd (snd (Refine_spoke env coeff a (c, h)))) = take n h"
  using assms
  by (simp add: Refine_spoke_def Let_def split: sum.splits)

lemma Refine_frame:
  assumes "same_steps srep" and "Refine env srep coeff spokeType h = (result, h')"
  shows "take (length h) h' = h"
proof -
  obtain clone h1 where clone: "SmartClone srep h = (clone, h1)" by (cases "SmartClone srep h")
  from SmartClone_fresh[OF clone] obtain new where h1: "h1 = h @ new"
    and shape: "map length clone = map length srep"
    and fresh: "\<forall>line \<in> set clone. \<forall>p' \<in> set line. fresh_point (length h) (length h1) p'"
    by blast
  have steps: "same_steps clone" using shape assms(1) by (rule same_steps_shape)
  let ?P = "\<lambda>state. take (length h) (snd state) = h"
  let ?body = "\<lambda>l s. Refine_spoke env coeff (the (GetSpoke spokeType (GetSkeletalPoint clone l s)))"
  have start: "?P (0::nat, h1)" by (simp add: h1)
  show ?thesis
  proof (cases "spokeType = CrestOrientation")
    case True
    then show ?thesis using assms(2) clone h1 by (auto simp: Refine_def)
  next
    case False
    have body: "?P (snd (?body l s state))"
      if "l \<in> set [0..<GetNumberOfLines clone]" "s \<in> set [0..<GetNumberOfSteps clone]" "?P state"
      for l s state
    proof -
      have l: "l < length clone" using that(1) by (simp add: GetNumberOfLines_def)
      have s: "s < length (clone ! l)" using that(2) same_steps_nth[OF steps l] by simp
      have "fresh_point (length h) (length h1) (clone ! l ! s)"
        using fresh l s by (meson nth_mem)
      then have "length h \<le> the (GetSpoke spokeType (GetSkeletalPoint clone l s))"
        using GetSpoke_in_spokes[OF False, of "clone ! l ! s"]
        by (simp add: fresh_point_def GetSkeletalPoint_def)
      then show ?thesis
        using that(3) Refine_spoke_frame[of "length h" _ env coeff "fst state" "snd state"]
        by simp
    qed
    have inner: "?P (snd (for_each [0..<GetNumberOfSteps clone] (?body l) state))"
      if l: "l \<in> set [0..<GetNumberOfLines clone]" and P: "?P state" for l state
    proof (rule for_each_invariant[where P = ?P])
      show "?P (snd (?body l s st))" if "s \<in> set [0..<GetNumberOfSteps clone]" "?P st" for s st
        using l that by (rule body)
      show "?P state" by (rule P)
    qed
    have outer: "?P (snd (for_each [0..<GetNumberOfLines clone]
                        (\<lambda>l. for_each [0..<GetNumberOfSteps clone] (?body l)) (0, h1)))"
    proof (rule for_each_invariant[where P = ?P])
      show "?P (snd (for_each [0..<GetNumberOfSteps clone] (?body l) st))"
        if "l \<in> set [0..<GetNumberOfLines clone]" "?P st" for l st
        using that by (rule inner)
      show "?P (0::nat, h1)" by (rule start)
    qed
    have up_down: "spokeType = UpOrientation \<or> spokeType = DownOrientation"
      using False by (cases spokeType) simp_all
    show ?thesis
      using assms(2) outer up_down
      by (auto simp: Refine_def clone split: prod.splits option.splits)
  qed
qed

text \<open>
  A loop over distinct indices in which only the iteration \<open>i\<close> changes the observation
  \<open>f\<close> of the state, and changes it by \<open>g\<close>.
\<close>

lemma for_each_once:
  assumes "distinct xs" and "i \<in> set xs" and "I s"
    and inv: "\<And>j t. j \<in> set xs \<Longrightarrow> I t \<Longrightarrow> I (snd (body j t))"
    and other: "\<And>j t. j \<in> set xs \<Longrightarrow> j \<noteq> i \<Longrightarrow> I t \<Longrightarrow> f (snd (body j t)) = f t"
    and here: "\<And>t t'. I t \<Longrightarrow> body i t = (None, t') \<Longrightarrow> f t' = g (f t)"
    and run: "for_each xs body s = (None, s')"
  shows "f s' = g (f s)"
  using assms(1-3) run inv other
proof (induction xs arbitrary: s)
  case Nil
  then show ?case by simp
next
  case (Cons j js)
  obtain thrown t where step: "body j s = (thrown, t)" by (cases "body j s")
  have thrown: "thrown = None"
    using Cons.prems(4) step by (cases thrown) simp_all
  have rest: "for_each js body t = (None, s')"
    using Cons.prems(4) step thrown by simp
  have It: "I t"
    using Cons.prems(5)[of j s] Cons.prems(3) step by simp
  show ?case
  proof (cases "j = i")
    case True
    have ft: "f t = g (f s)"
      using here[OF Cons.prems(3)] step thrown True by simp
    have notin: "i \<notin> set js" using Cons.prems(1) True by simp
    have "f (snd (for_each js body t)) = f t"
    proof (rule for_each_invariant[where P = "\<lambda>u. I u \<and> f u = f t", THEN conjunct2])
      show "I (snd (body k u)) \<and> f (snd (body k u)) = f t"
        if "k \<in> set js" "I u \<and> f u = f t" for k u
        using that notin Cons.prems(5)[of k u] Cons.prems(6)[of k u] by auto
      show "I t \<and> f t = f t" using It by simp
    qed
    then show ?thesis using rest ft by simp
  next
    case False
    have "f t = f s"
      using Cons.prems(6)[of j s] False Cons.prems(3) step by simp
    moreover have "f s' = g (f t)"
    proof (rule Cons.IH[OF _ _ It rest])
      show "distinct js" using Cons.prems(1) by simp
      show "i \<in> set js" using Cons.prems(2) False by simp
      show "I (snd (body k u))" if "k \<in> set js" "I u" for k u
        using that Cons.prems(5)[of k u] by simp
      show "f (snd (body k u)) = f u" if "k \<in> set js" "k \<noteq> i" "I u" for k u
        using that Cons.prems(6)[of k u] by simp
    qed
    ultimately show ?thesis by simp
  qed
qed


section \<open>The objective function\<close>

lemma ReportProgress_frame:
  "heap (snd (ReportProgress r)) = heap r" "m_srep (snd (ReportProgress r)) = m_srep r"
  "m_polyData (snd (ReportProgress r)) = m_polyData r"
  by (simp_all add: ReportProgress_def Let_def split: option.splits)

lemma IncrementIteration_frame:
  "heap (snd (IncrementIteration r)) = heap r" "m_srep (snd (IncrementIteration r)) = m_srep r"
  "m_polyData (snd (IncrementIteration r)) = m_polyData r"
  by (simp_all add: IncrementIteration_def ReportProgress_frame)

lemma IncrementIteration_frame':
  assumes "IncrementIteration r = (thrown, r')"
  shows "heap r' = heap r \<and> m_srep r' = m_srep r \<and> m_polyData r' = m_polyData r"
  using IncrementIteration_frame[of r] assms by simp

lemma EvaluateObjectiveFunction_try_frame:
  assumes "EvaluateObjectiveFunction_try env coeff spokeType r = (result, r')"
  shows "m_srep r' = m_srep r"
    and "heap r' = snd (Refine env (m_srep r) coeff spokeType (heap r))"
proof -
  have "m_srep r' = m_srep r \<and> heap r' = snd (Refine env (m_srep r) coeff spokeType (heap r))"
    using assms
    unfolding EvaluateObjectiveFunction_try_def Let_def
    by (auto split: prod.splits sum.splits option.splits dest: IncrementIteration_frame')
  then show "m_srep r' = m_srep r"
    and "heap r' = snd (Refine env (m_srep r) coeff spokeType (heap r))" by simp_all
qed

lemma EvaluateObjectiveFunction_frame:
  assumes "EvaluateObjectiveFunction env coeff spokeType r = (val, r')"
  shows "m_srep r' = m_srep r"
    and "heap r' = snd (Refine env (m_srep r) coeff spokeType (heap r))"
proof -
  obtain result r1 where tr: "EvaluateObjectiveFunction_try env coeff spokeType r = (result, r1)"
    by (cases "EvaluateObjectiveFunction_try env coeff spokeType r")
  have "r' = r1"
    using assms tr unfolding EvaluateObjectiveFunction_def
    by (auto split: sum.splits error.splits)
  then show "m_srep r' = m_srep r"
    and "heap r' = snd (Refine env (m_srep r) coeff spokeType (heap r))"
    using EvaluateObjectiveFunction_try_frame[OF tr] by simp_all
qed

lemma set_spokes_of_point: "set (spokes_of_point p) = set_vtkSRepSkeletalPoint p"
  by (cases p) (auto simp: spokes_of_point_def split: option.splits)

lemma snapshot_cong:
  assumes "in_store h srep" and "take (length h) h' = h"
  shows "snapshot h' srep = snapshot h srep"
proof -
  have nth: "h' ! a = h ! a" if "a < length h" for a
    using that assms(2) by (metis nth_take)
  have "map_vtkSRepSkeletalPoint ((!) h') p = map_vtkSRepSkeletalPoint ((!) h) p"
    if "line \<in> set srep" "p \<in> set line" for line p
  proof (rule vtkSRepSkeletalPoint.map_cong[OF refl])
    fix a assume "a \<in> set_vtkSRepSkeletalPoint p"
    then have "a \<in> set (spokes_of srep)"
      using that by (auto simp: spokes_of_def set_spokes_of_point)
    then have "a < length h"
      using assms(1) by (simp add: in_store_def list_all_iff)
    then show "h' ! a = h ! a" by (rule nth)
  qed
  then show ?thesis
    by (simp add: snapshot_def)
qed


section \<open>Crest spokes\<close>

lemma OptimizeCrestSpokeLength_on_surface:
  "OptimizeCrestSpokeLength env polyData n 0 oldDist thisStepSize spoke = (None, spoke)"
  by (cases n) simp_all

lemma GetLength_nonneg: "0 \<le> GetLength v"
  by (simp add: GetLength_def)

lemma GetLength_times: "GetLength (times_Vector3d v k) = GetLength v * \<bar>k\<bar>"
proof -
  have "vec_x v * k * (vec_x v * k) + vec_y v * k * (vec_y v * k) + vec_z v * k * (vec_z v * k)
      = (vec_x v * vec_x v + vec_y v * vec_y v + vec_z v * vec_z v) * (k * k)"
    by (simp add: algebra_simps)
  then show ?thesis
    by (simp add: GetLength_def times_Vector3d_def real_sqrt_mult)
qed

lemma GetLength_divide: "GetLength (divide_Vector3d v k) = GetLength v / \<bar>k\<bar>"
proof -
  have "divide_Vector3d v k = times_Vector3d v (1 / k)"
    by (simp add: divide_Vector3d_def times_Vector3d_def)
  then show ?thesis
    by (simp add: GetLength_times)
qed

lemma Unit_nonzero:
  "GetLength v \<noteq> 0 \<Longrightarrow> Unit z v = Inr (divide_Vector3d v (GetLength v))"
  by (simp add: Unit_def)

lemma GetLength_Unit:
  "GetLength v \<noteq> 0 \<Longrightarrow> GetLength (divide_Vector3d v (GetLength v)) = 1"
  using GetLength_nonneg[of v] by (simp add: GetLength_divide)

lemma times_divide_Vector3d:
  "k \<noteq> 0 \<Longrightarrow> times_Vector3d (divide_Vector3d v k) k = v"
  by (cases v) (simp add: times_Vector3d_def divide_Vector3d_def)

text \<open>The curvature correction of a spoke that is longer than the target radius.\<close>

lemma CorrectCrestSpoke_longer:
  fixes spoke :: vtkSRepSpoke and curMax curMin :: real
  defines "m \<equiv> max \<bar>curMax\<bar> \<bar>curMin\<bar>"
  defines "unitDir \<equiv> divide_Vector3d (Direction spoke) (GetRadius spoke)"
  assumes "m \<noteq> 0" and "1 / m < GetRadius spoke"
  shows "CorrectCrestSpoke env curMax curMin spoke =
     (None, \<lparr>SkeletalPoint =
               Point3d_raw (GetX (SkeletalPoint spoke) + vec_x unitDir * (GetRadius spoke - 1 / m))
                           (GetY (SkeletalPoint spoke) + vec_y unitDir * (GetRadius spoke - 1 / m))
                           (GetZ (SkeletalPoint spoke) + vec_z unitDir * (GetRadius spoke - 1 / m)),
             Direction = times_Vector3d unitDir (1 / m)\<rparr>)"
proof -
  have m: "0 < m" using assms(3) by (simp add: m_def max_def split: if_splits)
  have len: "GetLength (Direction spoke) \<noteq> 0"
    using assms(4) m by (smt (verit) GetRadius_def divide_pos_pos)
  have unit: "Unit (zero_unit env) (Direction spoke) = Inr unitDir"
    unfolding unitDir_def GetRadius_def using len by (rule Unit_nonzero)
  show ?thesis
    using assms(3,4) unit
    by (simp add: CorrectCrestSpoke_def m_def[symmetric] Let_def SetSkeletalPoint_def SetRadius_def)
qed


text \<open>
  The two passes over the crest spokes have the same shape: for every skeletal point
  that is a crest, count an iteration, then replace the crest spoke by what a step
  function makes of it.
\<close>

definition crest_body ::
  "(vtkPolyData \<Rightarrow> vtkSRepSpoke \<Rightarrow> error option \<times> vtkSRepSpoke) \<Rightarrow> nat \<Rightarrow> nat \<Rightarrow> Refiner
     \<Rightarrow> error option \<times> Refiner" where
  "crest_body step l s r =
     (let skeletalPoint = GetSkeletalPoint (m_srep r) l s
      in if IsCrest skeletalPoint then
           (case IncrementIteration r of
              (Some e, r) \<Rightarrow> (Some e, r)
            | (None, r) \<Rightarrow>
                (let a = the (CrestSpoke skeletalPoint);
                     (thrown, spoke) = step (m_polyData r) (heap r ! a)
                 in (thrown, r\<lparr>heap := (heap r)[a := spoke]\<rparr>)))
         else (None, r))"

definition crest_pass ::
  "(vtkPolyData \<Rightarrow> vtkSRepSpoke \<Rightarrow> error option \<times> vtkSRepSpoke) \<Rightarrow> Refiner \<Rightarrow> error option \<times> Refiner" where
  "crest_pass step r =
     for_each [0..<GetNumberOfLines (m_srep r)] (\<lambda>l.
       for_each [0..<GetNumberOfSteps (m_srep r)] (crest_body step l)) r"

lemma OptimizeCrestSpokeLengths_crest_pass:
  "OptimizeCrestSpokeLengths env stepSize maxIter =
     crest_pass (\<lambda>polyData spoke.
       OptimizeCrestSpokeLength env polyData maxIter
         (FunctionValue polyData (AsArray (GetBoundaryPoint spoke)))
         (FunctionValue polyData (AsArray (GetBoundaryPoint spoke))) stepSize spoke)"
  unfolding OptimizeCrestSpokeLengths_def crest_pass_def crest_body_def Let_def
  by (rule ext) simp

lemma CorrectCrestSpokes_crest_pass:
  "CorrectCrestSpokes env maxC minC =
     crest_pass (\<lambda>polyData spoke.
       CorrectCrestSpoke env
         (maxC (FindClosestPoint polyData (AsArray (GetBoundaryPoint spoke))))
         (minC (FindClosestPoint polyData (AsArray (GetBoundaryPoint spoke)))) spoke)"
  unfolding CorrectCrestSpokes_def crest_pass_def crest_body_def Let_def
  by (rule ext) simp

lemma crest_body_frame:
  "m_srep (snd (crest_body step l s r)) = m_srep r"
  "m_polyData (snd (crest_body step l s r)) = m_polyData r"
  "length (heap (snd (crest_body step l s r))) = length (heap r)"
  unfolding crest_body_def Let_def
  by (auto split: prod.splits option.splits dest: IncrementIteration_frame')

lemma crest_body_other:
  assumes "CrestSpoke (GetSkeletalPoint (m_srep r) l s) \<noteq> Some a"
  shows "heap (snd (crest_body step l s r)) ! a = heap r ! a"
  using assms unfolding crest_body_def Let_def IsCrest_def
  by (auto split: prod.splits option.splits dest: IncrementIteration_frame')

lemma crest_body_fixed:
  assumes "step (m_polyData r) (heap r ! a) = (None, heap r ! a)"
  shows "heap (snd (crest_body step l s r)) ! a = heap r ! a"
proof (cases "CrestSpoke (GetSkeletalPoint (m_srep r) l s) = Some a")
  case True
  show ?thesis
  proof (cases "IncrementIteration r")
    case (Pair thrown r1)
    have r1: "heap r1 = heap r" "m_polyData r1 = m_polyData r"
      using IncrementIteration_frame'[OF Pair] by simp_all
    show ?thesis
      using True Pair assms r1
      unfolding crest_body_def Let_def IsCrest_def
      by (cases thrown) simp_all
  qed
next
  case False
  then show ?thesis by (rule crest_body_other)
qed

lemma crest_body_this:
  assumes "CrestSpoke (GetSkeletalPoint (m_srep r) l s) = Some a" and "a < length (heap r)"
    and "crest_body step l s r = (None, r')"
  shows "heap r' ! a = snd (step (m_polyData r) (heap r ! a))"
proof (cases "IncrementIteration r")
  case (Pair thrown r1)
  have r1: "heap r1 = heap r" "m_polyData r1 = m_polyData r"
    using IncrementIteration_frame'[OF Pair] by simp_all
  show ?thesis
    using assms Pair r1
    unfolding crest_body_def Let_def IsCrest_def
    by (cases thrown) (auto split: prod.splits)
qed

lemma valid_grid_line:
  assumes "valid_grid srep" and "l < length srep"
  shows "length (srep ! l) = GetNumberOfSteps srep" and "0 < GetNumberOfSteps srep"
    and "\<And>s. s < GetNumberOfSteps srep \<Longrightarrow>
           IsCrest (srep ! l ! s) = (s + 1 = GetNumberOfSteps srep)"
    and "last (srep ! l) = srep ! l ! (GetNumberOfSteps srep - 1)"
proof -
  have steps: "same_steps srep" using assms(1) by (simp add: valid_grid_def)
  show len: "length (srep ! l) = GetNumberOfSteps srep"
    using steps assms(2) by (rule same_steps_nth)
  show pos: "0 < GetNumberOfSteps srep"
    using assms by (auto simp: valid_grid_def)
  show "IsCrest (srep ! l ! s) = (s + 1 = GetNumberOfSteps srep)" if "s < GetNumberOfSteps srep" for s
    using assms that len by (simp add: valid_grid_def list_all_length)
  show "last (srep ! l) = srep ! l ! (GetNumberOfSteps srep - 1)"
    using len pos by (metis last_conv_nth length_greater_0_conv)
qed

lemma crest_pass_fixed:
  assumes "step (m_polyData r) (heap r ! a) = (None, heap r ! a)"
  shows "heap (snd (crest_pass step r)) ! a = heap r ! a"
proof -
  let ?P = "\<lambda>t. m_polyData t = m_polyData r \<and> heap t ! a = heap r ! a"
  have body: "?P (snd (crest_body step l s t))" if "?P t" for l s t
    using that assms crest_body_frame(2)[of step l s t] crest_body_fixed[of step t a l s] by simp
  have inner: "?P (snd (for_each [0..<GetNumberOfSteps (m_srep r)] (crest_body step l) t))"
    if "?P t" for l t
  proof (rule for_each_invariant[where P = ?P])
    show "?P (snd (crest_body step l s u))" if "?P u" for s u using that by (rule body)
    show "?P t" by (rule that)
  qed
  have "?P (snd (crest_pass step r))"
    unfolding crest_pass_def
  proof (rule for_each_invariant[where P = ?P])
    show "?P (snd (for_each [0..<GetNumberOfSteps (m_srep r)] (crest_body step l) u))"
      if "?P u" for l u using that by (rule inner)
    show "?P r" by simp
  qed
  then show ?thesis by simp
qed

lemma crest_pass_frame:
  "m_srep (snd (crest_pass step r)) = m_srep r"
  "m_polyData (snd (crest_pass step r)) = m_polyData r"
  "length (heap (snd (crest_pass step r))) = length (heap r)"
proof -
  let ?P = "\<lambda>t. m_srep t = m_srep r \<and> m_polyData t = m_polyData r \<and> length (heap t) = length (heap r)"
  have inner: "?P (snd (for_each [0..<GetNumberOfSteps (m_srep r)] (crest_body step l) t))"
    if "?P t" for l t
  proof (rule for_each_invariant[where P = ?P])
    show "?P (snd (crest_body step l s u))" if "?P u" for s u
      using that by (simp add: crest_body_frame)
    show "?P t" by (rule that)
  qed
  have "?P (snd (crest_pass step r))"
    unfolding crest_pass_def
  proof (rule for_each_invariant[where P = ?P])
    show "?P (snd (for_each [0..<GetNumberOfSteps (m_srep r)] (crest_body step l) u))"
      if "?P u" for l u using that by (rule inner)
    show "?P r" by simp
  qed
  then show "m_srep (snd (crest_pass step r)) = m_srep r"
    "m_polyData (snd (crest_pass step r)) = m_polyData r"
    "length (heap (snd (crest_pass step r))) = length (heap r)" by simp_all
qed

text \<open>
  In a valid grid whose crest spokes are distinct objects, a pass that completes has
  applied the step function once to every crest spoke.
\<close>

lemma crest_pass_at:
  assumes valid: "valid_grid (m_srep r)"
    and distinct: "distinct (map (\<lambda>line. CrestSpoke (last line)) (m_srep r))"
    and l: "l < length (m_srep r)"
    and a: "CrestSpoke (last (m_srep r ! l)) = Some a" "a < length (heap r)"
    and run: "crest_pass step r = (None, r')"
  shows "heap r' ! a = snd (step (m_polyData r) (heap r ! a))"
proof -
  define srep where "srep = m_srep r"
  define S where "S = GetNumberOfSteps srep"
  let ?I = "\<lambda>t. m_srep t = srep \<and> m_polyData t = m_polyData r \<and> length (heap t) = length (heap r)"
  let ?f = "\<lambda>t. heap t ! a"
  let ?g = "\<lambda>spoke. snd (step (m_polyData r) spoke)"
  have Spos: "0 < S" using valid_grid_line(2)[OF valid l] by (simp add: S_def srep_def)
  have crest: "IsCrest (srep ! k ! s) = (s + 1 = S)" if "k < length srep" "s < S" for k s
    using valid_grid_line(3)[OF valid, of k s] that by (simp add: S_def srep_def)
  have last: "last (srep ! k) = srep ! k ! (S - 1)" if "k < length srep" for k
    using valid_grid_line(4)[OF valid, of k] that by (simp add: S_def srep_def)
  have body_inv: "?I (snd (crest_body step k s t))" if "?I t" for k s t
    using that by (simp add: crest_body_frame)
  have inner_inv: "?I (snd (for_each [0..<S] (crest_body step k) t))" if "?I t" for k t
  proof (rule for_each_invariant[where P = ?I])
    show "?I (snd (crest_body step k s u))" if "?I u" for s u using that by (rule body_inv)
    show "?I t" by (rule that)
  qed
  have not_here: "CrestSpoke (GetSkeletalPoint (m_srep t) k s) \<noteq> Some a"
    if "?I t" "k < length srep" "s < S" "k \<noteq> l \<or> s \<noteq> S - 1" for t k s
  proof
    assume eq: "CrestSpoke (GetSkeletalPoint (m_srep t) k s) = Some a"
    then have "IsCrest (srep ! k ! s)"
      using that(1) by (simp add: IsCrest_def GetSkeletalPoint_def)
    then have s: "s = S - 1" using crest[OF that(2,3)] by simp
    then have "CrestSpoke (last (srep ! k)) = CrestSpoke (last (srep ! l))"
      using eq that(1) last[OF that(2)] a(1) by (simp add: GetSkeletalPoint_def srep_def)
    then have "k = l"
      using distinct that(2) l
      by (auto simp: srep_def[symmetric] distinct_conv_nth)
    then show False using that(4) s by simp
  qed
  have other_line: "?f (snd (for_each [0..<S] (crest_body step k) t)) = ?f t"
    if "k \<in> set [0..<length srep]" "k \<noteq> l" "?I t" for k t
  proof -
    let ?P = "\<lambda>u. ?I u \<and> ?f u = ?f t"
    have "?P (snd (for_each [0..<S] (crest_body step k) t))"
    proof (rule for_each_invariant[where P = ?P])
      show "?P (snd (crest_body step k s u))" if "s \<in> set [0..<S]" "?P u" for s u
        using that body_inv[of u k s] crest_body_other[OF not_here[of u k s], of step]
          \<open>k \<in> set [0..<length srep]\<close> \<open>k \<noteq> l\<close> by simp
      show "?P t" using that(3) by simp
    qed
    then show ?thesis by simp
  qed
  have this_line: "?f t' = ?g (?f t)"
    if "?I t" "for_each [0..<S] (crest_body step l) t = (None, t')" for t t'
  proof (rule for_each_once[where I = ?I and f = ?f and g = ?g and i = "S - 1"
        and body = "crest_body step l" and xs = "[0..<S]" and s = t])
    show "distinct [0..<S]" by simp
    show "S - 1 \<in> set [0..<S]" using Spos by simp
    show "?I t" by (rule that(1))
    show "?I (snd (crest_body step l s u))" if "?I u" for s u using that by (rule body_inv)
    show "?f (snd (crest_body step l s u)) = ?f u"
      if "s \<in> set [0..<S]" "s \<noteq> S - 1" "?I u" for s u
      using that l by (intro crest_body_other not_here[of u l s]) (simp_all add: srep_def)
    show "?f u' = ?g (?f u)" if "?I u" "crest_body step l (S - 1) u = (None, u')" for u u'
    proof -
      have "CrestSpoke (GetSkeletalPoint (m_srep u) l (S - 1)) = Some a"
        using that(1) a(1) last[of l] l by (simp add: GetSkeletalPoint_def srep_def)
      moreover have "a < length (heap u)" using that(1) a(2) by simp
      ultimately have "heap u' ! a = snd (step (m_polyData u) (heap u ! a))"
        using that(2) by (rule crest_body_this)
      then show ?thesis using that(1) by simp
    qed
    show "for_each [0..<S] (crest_body step l) t = (None, t')" by (rule that(2))
  qed
  show ?thesis
  proof (rule for_each_once[where I = ?I and f = ?f and g = ?g and i = l
        and body = "\<lambda>k. for_each [0..<S] (crest_body step k)" and xs = "[0..<length srep]"
        and s = r])
    show "distinct [0..<length srep]" by simp
    show "l \<in> set [0..<length srep]" using l by (simp add: srep_def)
    show "?I r" by (simp add: srep_def)
    show "?I (snd (for_each [0..<S] (crest_body step k) t))" if "?I t" for k t
      using that by (rule inner_inv)
    show "?f (snd (for_each [0..<S] (crest_body step k) t)) = ?f t"
      if "k \<in> set [0..<length srep]" "k \<noteq> l" "?I t" for k t
      using that by (rule other_line)
    show "?f t' = ?g (?f t)"
      if "?I t" "for_each [0..<S] (crest_body step l) t = (None, t')" for t t'
      using that by (rule this_line)
    show "for_each [0..<length srep] (\<lambda>k. for_each [0..<S] (crest_body step k)) r = (None, r')"
      using run by (simp add: crest_pass_def srep_def S_def GetNumberOfLines_def)
  qed
qed

lemma CorrectCrestSpokes_at:
  assumes "valid_grid (m_srep r)"
    and "distinct (map (\<lambda>line. CrestSpoke (last line)) (m_srep r))"
    and "l < length (m_srep r)"
    and "CrestSpoke (last (m_srep r ! l)) = Some a" and "a < length (heap r)"
    and "CorrectCrestSpokes env maxC minC r = (None, r')"
  shows "heap r' ! a =
     snd (CorrectCrestSpoke env
            (maxC (FindClosestPoint (m_polyData r) (AsArray (GetBoundaryPoint (heap r ! a)))))
            (minC (FindClosestPoint (m_polyData r) (AsArray (GetBoundaryPoint (heap r ! a)))))
            (heap r ! a))"
  using crest_pass_at[OF assms(1-5), of _ r'] assms(6)
  unfolding CorrectCrestSpokes_crest_pass by simp

lemma CorrectCrestSpoke_boundary:
  fixes spoke :: vtkSRepSpoke and curMax curMin :: real
  assumes "max \<bar>curMax\<bar> \<bar>curMin\<bar> \<noteq> 0" and "1 / max \<bar>curMax\<bar> \<bar>curMin\<bar> < GetRadius spoke"
  shows "GetBoundaryPoint (snd (CorrectCrestSpoke env curMax curMin spoke)) = GetBoundaryPoint spoke"
proof -
  define m where "m = max \<bar>curMax\<bar> \<bar>curMin\<bar>"
  define R where "R = GetRadius spoke"
  have m: "0 < m" using assms(1) by (simp add: m_def max_def split: if_splits)
  have R: "0 < R" using assms(2) m by (smt (verit) R_def m_def divide_pos_pos)
  have sum: "c * (R - 1 / m) / R + c / (R * m) = c" for c
    using R m by (simp add: field_simps)
  show ?thesis
    unfolding CorrectCrestSpoke_longer[OF assms] m_def[symmetric] R_def[symmetric]
    by (simp add: GetBoundaryPoint_def times_Vector3d_def divide_Vector3d_def add.assoc sum)
qed

lemma CorrectCrestSpoke_radius:
  fixes spoke :: vtkSRepSpoke and curMax curMin :: real
  assumes "max \<bar>curMax\<bar> \<bar>curMin\<bar> \<noteq> 0" and "1 / max \<bar>curMax\<bar> \<bar>curMin\<bar> < GetRadius spoke"
  shows "GetRadius (snd (CorrectCrestSpoke env curMax curMin spoke)) = 1 / max \<bar>curMax\<bar> \<bar>curMin\<bar>"
    and "GetLength (divide_Vector3d (Direction spoke) (GetRadius spoke)) = 1"
proof -
  define m where "m = max \<bar>curMax\<bar> \<bar>curMin\<bar>"
  have m: "0 < m" using assms(1) by (simp add: m_def max_def split: if_splits)
  have len: "GetLength (Direction spoke) \<noteq> 0"
    using assms(2) m by (smt (verit) GetRadius_def m_def divide_pos_pos)
  show unit: "GetLength (divide_Vector3d (Direction spoke) (GetRadius spoke)) = 1"
    unfolding GetRadius_def using len by (rule GetLength_Unit)
  show "GetRadius (snd (CorrectCrestSpoke env curMax curMin spoke)) = 1 / max \<bar>curMax\<bar> \<bar>curMin\<bar>"
    unfolding CorrectCrestSpoke_longer[OF assms] m_def[symmetric]
    using m unit by (simp add: GetRadius_def GetLength_times)
qed


section \<open>Claims on the objective function\<close>

text \<open>
  Claim C1. \<^verbatim>\<open>EvaluateObjectiveFunction\<close> returns a number for every coefficient vector and
  every orientation, whatever its steps do: an exception of a step is a value of the
  \<^verbatim>\<open>try\<close> block (\<open>Inl\<close>), and both handlers turn it into the result \<open>1e10\<close>. Either some
  step has thrown and the result is \<open>1e10\<close>, or every step (the rebuilding of the grid,
  the interpolation, the two energy functions, the progress report) has completed and
  the result is \<open>L0 * w0 + L1 * w1 + L2 * w2\<close>. In particular the result is \<open>1e10\<close> when
  the rebuilding, the interpolation, an energy function or the progress report throws.
\<close>

theorem EvaluateObjectiveFunction_never_throws:
  "(((\<exists>e. fst (EvaluateObjectiveFunction_try env coeff spokeType r) = Inl e)
      \<and> fst (EvaluateObjectiveFunction env coeff spokeType r) = 10000000000)
   \<or> (\<exists>tempSRep h interpolated L0 L1 L2.
        Refine env (m_srep r) coeff spokeType (heap r) = (Inr tempSRep, h)
      \<and> SmartInterpolateSRep env (snapshot h tempSRep) (m_interpolationLevel r) = Inr interpolated
      \<and> ComputeDistanceSquaredAndNormalToImage env interpolated spokeType = Inr (L0, L1)
      \<and> ComputeRSradPenalty env interpolated spokeType = Inr L2
      \<and> fst (IncrementIteration (r\<lparr>heap := h\<rparr>)) = None
      \<and> fst (EvaluateObjectiveFunction_try env coeff spokeType r)
          = Inr (L0 * m_L0Weight r + L1 * m_L1Weight r + L2 * m_L2Weight r)
      \<and> fst (EvaluateObjectiveFunction env coeff spokeType r)
          = L0 * m_L0Weight r + L1 * m_L1Weight r + L2 * m_L2Weight r))
   \<and> (\<forall>tempSRep h interpolated L0 L1 L2 e.
         fst (Refine env (m_srep r) coeff spokeType (heap r)) = Inl e
       \<or> (Refine env (m_srep r) coeff spokeType (heap r) = (Inr tempSRep, h)
          \<and> (SmartInterpolateSRep env (snapshot h tempSRep) (m_interpolationLevel r) = Inl e
             \<or> (SmartInterpolateSRep env (snapshot h tempSRep) (m_interpolationLevel r) = Inr interpolated
                \<and> (ComputeDistanceSquaredAndNormalToImage env interpolated spokeType = Inl e
                   \<or> ComputeRSradPenalty env interpolated spokeType = Inl e
                   \<or> (ComputeDistanceSquaredAndNormalToImage env interpolated spokeType = Inr (L0, L1)
                      \<and> ComputeRSradPenalty env interpolated spokeType = Inr L2
                      \<and> fst (IncrementIteration (r\<lparr>heap := h\<rparr>)) = Some e)))))
       \<longrightarrow> fst (EvaluateObjectiveFunction env coeff spokeType r) = 10000000000)"
  unfolding EvaluateObjectiveFunction_def EvaluateObjectiveFunction_try_def Let_def
  by (auto split: prod.splits sum.splits option.splits error.splits)

text \<open>
  The theorem on the example: with the weights 1, 10 and 100 and the energy terms 2, 3
  and 5 the objective function is 532 for the up spokes, and it is \<open>1e10\<close> for the crest
  orientation, which \<^verbatim>\<open>Refine\<close> rejects with an exception.
\<close>

theorem EvaluateObjectiveFunction_never_throws_witness:
  "fst (Refine example_env (m_srep example_refiner) [1, 0, 0, 0, 0, 0, 1, 0] CrestOrientation
          (heap example_refiner)) = Inl (invalid_argument ''Don't know how to refine spoke of type'')
   \<and> fst (EvaluateObjectiveFunction example_env [1, 0, 0, 0, 0, 0, 1, 0] CrestOrientation example_refiner)
       = 10000000000
   \<and> fst (EvaluateObjectiveFunction example_env [1, 0, 0, 0, 0, 0, 1, 0] UpOrientation example_refiner)
       = 2 * 1 + 3 * 10 + 5 * 100"
proof -
  have fails: "fst (Refine example_env (m_srep example_refiner) [1, 0, 0, 0, 0, 0, 1, 0]
      CrestOrientation (heap example_refiner)) = Inl (invalid_argument ''Don't know how to refine spoke of type'')"
    by (simp add: Refine_def example_refiner_sel ex_clone)
  have "fst (EvaluateObjectiveFunction example_env [1, 0, 0, 0, 0, 0, 1, 0] CrestOrientation example_refiner)
       = 10000000000"
    using EvaluateObjectiveFunction_never_throws
      [of example_env "[1, 0, 0, 0, 0, 0, 1, 0]" CrestOrientation example_refiner] fails
    by blast
  then show ?thesis
    using fails by (simp add: ex_eval)
qed

text \<open>
  Claim C7. An evaluation of the objective function leaves the base grid as it was: the
  grid \<open>m_srep\<close> holds the same spoke objects, every object that existed before has
  the value it had (the store has only grown, by the clone), and so the spokes of the
  base grid are the same before and after. The grid is assumed to satisfy the invariant
  of the data model that all lines have the same number of steps, and to hold objects
  of the store. \<^verbatim>\<open>SmartClone\<close> is modelled from the specification as a deep copy.
\<close>

theorem EvaluateObjectiveFunction_preserves_base_grid:
  assumes "same_steps (m_srep r)" and "in_store (heap r) (m_srep r)"
    and "EvaluateObjectiveFunction env coeff spokeType r = (val, r')"
  shows "m_srep r' = m_srep r
       \<and> take (length (heap r)) (heap r') = heap r
       \<and> snapshot (heap r') (m_srep r') = snapshot (heap r) (m_srep r)"
proof -
  have grid: "m_srep r' = m_srep r"
    and heap: "heap r' = snd (Refine env (m_srep r) coeff spokeType (heap r))"
    using assms(3) by (rule EvaluateObjectiveFunction_frame)+
  have prefix: "take (length (heap r)) (heap r') = heap r"
    unfolding heap
    by (rule Refine_frame[OF assms(1), of env coeff spokeType "heap r"
          "fst (Refine env (m_srep r) coeff spokeType (heap r))"]) simp
  have "snapshot (heap r') (m_srep r) = snapshot (heap r) (m_srep r)"
    using assms(2) prefix by (rule snapshot_cong)
  then show ?thesis
    using grid prefix by simp
qed


text \<open>
  The theorem on the example. The evaluation has changed a spoke of the clone (the
  object 5, the copy of the up spoke 0, now points along \<open>x\<close>), and no spoke of the grid.
\<close>

theorem EvaluateObjectiveFunction_preserves_base_grid_witness:
  "same_steps (m_srep example_refiner) \<and> in_store (heap example_refiner) (m_srep example_refiner)
   \<and> m_srep (snd (EvaluateObjectiveFunction example_env [1, 0, 0, 0, 0, 0, 1, 0] UpOrientation example_refiner))
       = m_srep example_refiner
   \<and> take (length (heap example_refiner))
        (heap (snd (EvaluateObjectiveFunction example_env [1, 0, 0, 0, 0, 0, 1, 0] UpOrientation example_refiner)))
       = heap example_refiner
   \<and> heap (snd (EvaluateObjectiveFunction example_env [1, 0, 0, 0, 0, 0, 1, 0] UpOrientation example_refiner)) ! 5
       = \<lparr>SkeletalPoint = Point3d_raw 0 0 0, Direction = Vector3d 1 0 0\<rparr>
   \<and> heap example_refiner ! 0 = \<lparr>SkeletalPoint = Point3d_raw 0 0 0, Direction = Vector3d 0 0 1\<rparr>"
proof -
  have valid: "same_steps (m_srep example_refiner)"
    "in_store (heap example_refiner) (m_srep example_refiner)"
    by (simp_all add: example_refiner_sel example_valid)
  have changed:
    "heap (snd (EvaluateObjectiveFunction example_env [1, 0, 0, 0, 0, 0, 1, 0] UpOrientation example_refiner)) ! 5
       = \<lparr>SkeletalPoint = Point3d_raw 0 0 0, Direction = Vector3d 1 0 0\<rparr>"
    "heap example_refiner ! 0 = \<lparr>SkeletalPoint = Point3d_raw 0 0 0, Direction = Vector3d 0 0 1\<rparr>"
    by (simp_all add: ex_eval example_refiner_sel example_heap_def)
  show ?thesis
    using EvaluateObjectiveFunction_preserves_base_grid [OF valid prod.collapse [symmetric]]
      valid changed
    by blast
qed


section \<open>Claims on the crest spokes\<close>

text \<open>
  Claim C8. Whatever the length-correction pass does and however it ends, a crest spoke
  whose boundary point is at signed distance 0 of the surface when the pass starts is
  the same after the pass: same radius, same direction, same skeletal point. (\<open>a\<close> is
  the crest spoke of the skeletal point at line \<open>l\<close> and step \<open>s\<close>.)
\<close>

theorem OptimizeCrestSpokeLengths_on_surface:
  assumes "CrestSpoke (GetSkeletalPoint (m_srep r) l s) = Some a"
    and "FunctionValue (m_polyData r) (AsArray (GetBoundaryPoint (heap r ! a))) = 0"
    and "OptimizeCrestSpokeLengths env stepSize maxIter r = (thrown, r')"
  shows "CrestSpoke (GetSkeletalPoint (m_srep r') l s) = Some a
       \<and> heap r' ! a = heap r ! a
       \<and> GetRadius (heap r' ! a) = GetRadius (heap r ! a)
       \<and> Direction (heap r' ! a) = Direction (heap r ! a)
       \<and> SkeletalPoint (heap r' ! a) = SkeletalPoint (heap r ! a)"
proof -
  let ?step = "\<lambda>polyData spoke.
       OptimizeCrestSpokeLength env polyData maxIter
         (FunctionValue polyData (AsArray (GetBoundaryPoint spoke)))
         (FunctionValue polyData (AsArray (GetBoundaryPoint spoke))) stepSize spoke"
  have r': "r' = snd (crest_pass ?step r)"
    using assms(3) by (simp add: OptimizeCrestSpokeLengths_crest_pass)
  have fixed: "?step (m_polyData r) (heap r ! a) = (None, heap r ! a)"
    unfolding assms(2) by (rule OptimizeCrestSpokeLength_on_surface)
  have "heap r' ! a = heap r ! a"
    unfolding r' using fixed by (rule crest_pass_fixed)
  moreover have "m_srep r' = m_srep r"
    unfolding r' by (rule crest_pass_frame)
  ultimately show ?thesis
    using assms(1) by simp
qed


text \<open>
  The theorem on the example: the boundary point \<open>(2, 0, 0)\<close> of the crest spoke is on
  the surface \<open>z = 0\<close>.
\<close>

theorem OptimizeCrestSpokeLengths_on_surface_witness:
  "CrestSpoke (GetSkeletalPoint (m_srep example_refiner) 0 1) = Some 4
   \<and> FunctionValue (m_polyData example_refiner) (AsArray (GetBoundaryPoint (heap example_refiner ! 4))) = 0
   \<and> heap (snd (OptimizeCrestSpokeLengths example_env (1 / 100) 2 example_refiner)) ! 4
       = \<lparr>SkeletalPoint = Point3d_raw 1 0 0, Direction = Vector3d 1 0 0\<rparr>
   \<and> GetRadius (heap (snd (OptimizeCrestSpokeLengths example_env (1 / 100) 2 example_refiner)) ! 4) = 1"
proof -
  have crest: "CrestSpoke (GetSkeletalPoint (m_srep example_refiner) 0 1) = Some 4"
    by (simp add: example_refiner_sel example_grid_facts)
  have on_surface:
    "FunctionValue (m_polyData example_refiner) (AsArray (GetBoundaryPoint (heap example_refiner ! 4))) = 0"
    by (simp add: example_refiner_sel example_heap_sel example_polyData_def AsArray_def
        GetBoundaryPoint_def)
  have radius: "GetRadius \<lparr>SkeletalPoint = Point3d_raw 1 0 0, Direction = Vector3d 1 0 0\<rparr> = 1"
    by (simp add: GetRadius_def GetLength_def)
  show ?thesis
    using OptimizeCrestSpokeLengths_on_surface [OF crest on_surface prod.collapse [symmetric]]
      crest on_surface radius
    by (simp add: example_refiner_sel example_heap_sel)
qed




text \<open>
  Claim C10. Under the conditions of the previous theorem, a crest spoke that the
  curvature-correction pass modifies (its radius exceeds \<open>rCrest = 1 / m\<close>) has the same
  boundary point, skeletal point plus direction, after the pass as before, in exact
  arithmetic.
\<close>

theorem CorrectCrestSpokes_preserves_boundary_point:
  fixes maxC minC :: "nat \<Rightarrow> real"
  assumes "valid_grid (m_srep r)"
    and "distinct (map (\<lambda>line. CrestSpoke (last line)) (m_srep r))"
    and "l < length (m_srep r)"
    and "CrestSpoke (last (m_srep r ! l)) = Some a" and "a < length (heap r)"
    and "CorrectCrestSpokes env maxC minC r = (None, r')"
  defines "spoke \<equiv> heap r ! a"
  defines "idNearest \<equiv> FindClosestPoint (m_polyData r) (AsArray (GetBoundaryPoint spoke))"
  defines "m \<equiv> max \<bar>maxC idNearest\<bar> \<bar>minC idNearest\<bar>"
  assumes "m \<noteq> 0" and "1 / m < GetRadius spoke"
  shows "heap r' ! a \<noteq> spoke
       \<and> GetBoundaryPoint (heap r' ! a) = GetBoundaryPoint spoke"
proof -
  have at: "heap r' ! a = snd (CorrectCrestSpoke env (maxC idNearest) (minC idNearest) spoke)"
    unfolding spoke_def idNearest_def by (rule CorrectCrestSpokes_at[OF assms(1-6)])
  have pre: "max \<bar>maxC idNearest\<bar> \<bar>minC idNearest\<bar> \<noteq> 0"
    "1 / max \<bar>maxC idNearest\<bar> \<bar>minC idNearest\<bar> < GetRadius spoke"
    using assms(10,11) by (simp_all add: m_def)
  have "GetBoundaryPoint (heap r' ! a) = GetBoundaryPoint spoke"
    unfolding at by (rule CorrectCrestSpoke_boundary[OF pre])
  moreover have "GetRadius (heap r' ! a) \<noteq> GetRadius spoke"
    unfolding at CorrectCrestSpoke_radius(1)[OF pre] using pre(2) by simp
  ultimately show ?thesis by auto
qed


text \<open>The theorem on the example: the boundary point of the crest spoke stays \<open>(2, 0, 0)\<close>.\<close>

theorem CorrectCrestSpokes_preserves_boundary_point_witness:
  "valid_grid (m_srep example_refiner)
   \<and> distinct (map (\<lambda>line. CrestSpoke (last line)) (m_srep example_refiner))
   \<and> (0::nat) < length (m_srep example_refiner)
   \<and> CrestSpoke (last (m_srep example_refiner ! 0)) = Some 4 \<and> 4 < length (heap example_refiner)
   \<and> fst (CorrectCrestSpokes example_env (\<lambda>id. 2) (\<lambda>id. 1) example_refiner) = None
   \<and> max \<bar>2\<bar> \<bar>1\<bar> \<noteq> (0::real) \<and> 1 / max \<bar>2\<bar> \<bar>1\<bar> < GetRadius (heap example_refiner ! 4)
   \<and> GetBoundaryPoint (heap example_refiner ! 4) = Point3d_raw 2 0 0
   \<and> GetBoundaryPoint (heap (snd (CorrectCrestSpokes example_env (\<lambda>id. 2) (\<lambda>id. 1) example_refiner)) ! 4)
       = Point3d_raw 2 0 0
   \<and> heap (snd (CorrectCrestSpokes example_env (\<lambda>id. 2) (\<lambda>id. 1) example_refiner)) ! 4
       \<noteq> heap example_refiner ! 4"
proof -
  have grid: "valid_grid (m_srep example_refiner)"
    "distinct (map (\<lambda>line. CrestSpoke (last line)) (m_srep example_refiner))"
    "(0::nat) < length (m_srep example_refiner)"
    "CrestSpoke (last (m_srep example_refiner ! 0)) = Some 4" "4 < length (heap example_refiner)"
    by (simp_all add: example_refiner_sel example_valid example_grid_facts example_heap_sel)
  have run: "CorrectCrestSpokes example_env (\<lambda>id. 2) (\<lambda>id. 1) example_refiner
      = (None, snd (CorrectCrestSpokes example_env (\<lambda>id. 2) (\<lambda>id. 1) example_refiner))"
    by (simp add: ex_pass)
  have completes: "fst (CorrectCrestSpokes example_env (\<lambda>id. 2) (\<lambda>id. 1) example_refiner) = None"
    by (simp add: ex_pass)
  have longer: "max \<bar>2\<bar> \<bar>1\<bar> \<noteq> (0::real)" "1 / max \<bar>2\<bar> \<bar>1\<bar> < GetRadius (heap example_refiner ! 4)"
    by (simp_all add: example_refiner_sel example_heap_sel GetRadius_def GetLength_def)
  have before: "GetBoundaryPoint (heap example_refiner ! 4) = Point3d_raw 2 0 0"
    by (simp add: example_refiner_sel example_heap_sel GetBoundaryPoint_def)
  show ?thesis
    using CorrectCrestSpokes_preserves_boundary_point [OF grid run longer] grid completes longer before
    by simp
qed


section \<open>Claim on the entry point\<close>

text \<open>
  Claim C4. When the model is null, or the s-rep node is null, has no s-rep or has an
  empty one, or \<open>maxIterations < 1\<close>, or \<open>interpolationLevel < 0\<close>, the ten-argument
  \<^verbatim>\<open>Run\<close> throws \<^verbatim>\<open>std::invalid_argument\<close>, and all it has done is to log the error:
  no distance field has been built, no spoke object has been created (the grid has not
  been cloned), the progress callback has not been called and the destination is
  untouched.
\<close>

theorem Run_rejects_invalid_arguments:
  assumes "model = None
         \<or> srepNode = None
         \<or> (\<exists>node. srepNode = Some node \<and> GetSRep node = None)
         \<or> (\<exists>node srep. srepNode = Some node \<and> GetSRep node = Some srep \<and> IsEmpty srep)
         \<or> maxIterations < 1
         \<or> interpolationLevel < 0"
    and "Run env observers model srepNode initialRegionSize finalRegionSize maxIterations
           interpolationLevel L0Weight L1Weight L2Weight w = (thrown, w')"
  shows "(\<exists>msg. thrown = Some (invalid_argument msg)
              \<and> w' = w\<lparr>w_errorLog := w_errorLog w @ [''Error running SRep refinement: '' @ msg]\<rparr>)
       \<and> w_fieldConstructions w' = w_fieldConstructions w
       \<and> w_heap w' = w_heap w
       \<and> w_progress w' = w_progress w
       \<and> w_destination w' = w_destination w"
proof -
  have "\<exists>msg. Run_try env observers model srepNode initialRegionSize finalRegionSize maxIterations
           interpolationLevel L0Weight L1Weight L2Weight w = (Some (invalid_argument msg), w)"
    using assms(1) unfolding Run_try_def
    by (auto split: option.splits)
  then obtain msg where "Run_try env observers model srepNode initialRegionSize finalRegionSize
      maxIterations interpolationLevel L0Weight L1Weight L2Weight w = (Some (invalid_argument msg), w)"
    by blast
  then have "thrown = Some (invalid_argument msg)
      \<and> w' = w\<lparr>w_errorLog := w_errorLog w @ [''Error running SRep refinement: '' @ msg]\<rparr>"
    using assms(2) unfolding Run_def by auto
  then show ?thesis by auto
qed


text \<open>The theorem on the example, called with \<open>maxIterations = 0\<close>.\<close>

lemma ex_Run_invalid:
  "Run example_env (\<lambda>p. None) (Some \<lparr>GetPolyData = Some example_polyData\<rparr>)
        (Some \<lparr>GetSRep = Some example_srep\<rparr>) (1 / 100) (1 / 1000) 0 0 1 10 100 example_world
   = (Some (invalid_argument ''must have at least one iteration''),
      example_world\<lparr>w_errorLog := [''Error running SRep refinement: must have at least one iteration'']\<rparr>)"
  by (simp add: Run_def Run_try_def IsEmpty_def example_srep_def example_world_def)

theorem Run_rejects_invalid_arguments_witness:
  "(0::int) < 1
   \<and> fst (Run example_env (\<lambda>p. None) (Some \<lparr>GetPolyData = Some example_polyData\<rparr>)
        (Some \<lparr>GetSRep = Some example_srep\<rparr>) (1 / 100) (1 / 1000) 0 0 1 10 100 example_world)
       = Some (invalid_argument ''must have at least one iteration'')
   \<and> w_fieldConstructions (snd (Run example_env (\<lambda>p. None) (Some \<lparr>GetPolyData = Some example_polyData\<rparr>)
        (Some \<lparr>GetSRep = Some example_srep\<rparr>) (1 / 100) (1 / 1000) 0 0 1 10 100 example_world)) = 0
   \<and> w_heap (snd (Run example_env (\<lambda>p. None) (Some \<lparr>GetPolyData = Some example_polyData\<rparr>)
        (Some \<lparr>GetSRep = Some example_srep\<rparr>) (1 / 100) (1 / 1000) 0 0 1 10 100 example_world)) = example_heap"
proof -
  have invalid: "Some \<lparr>GetPolyData = Some example_polyData\<rparr> = None
         \<or> Some \<lparr>GetSRep = Some example_srep\<rparr> = None
         \<or> (\<exists>node. Some \<lparr>GetSRep = Some example_srep\<rparr> = Some node \<and> GetSRep node = None)
         \<or> (\<exists>node srep. Some \<lparr>GetSRep = Some example_srep\<rparr> = Some node \<and> GetSRep node = Some srep
               \<and> IsEmpty srep)
         \<or> (0::int) < 1
         \<or> (0::int) < 0"
    by simp
  show ?thesis
    using Run_rejects_invalid_arguments
      [where env = example_env and observers = "\<lambda>p. None" and initialRegionSize = "1 / 100"
         and finalRegionSize = "1 / 1000" and ?L0Weight.0 = 1 and ?L1Weight.0 = 10
         and ?L2Weight.0 = 100 and w = example_world,
       OF invalid prod.collapse [symmetric]]
    unfolding ex_Run_invalid
    by (simp add: example_world_def)
qed


section \<open>The progress reports of a run\<close>

lemma int32_id: "- (2 ^ 31) \<le> x \<Longrightarrow> x < 2 ^ 31 \<Longrightarrow> int32 x = x"
  by (simp add: int32_def)

text \<open>
  What has been reported since the log was \<open>p0\<close>: the quotients by \<open>T\<close> of a non-empty
  ascending list of iteration numbers that starts at 0 or above and ends with the
  current iteration number.
\<close>

definition reported :: "int \<Rightarrow> double list \<Rightarrow> Refiner \<Rightarrow> bool" where
  "reported T p0 r =
     (m_totalProgressIterations r = T \<and> m_progressCallback r \<noteq> None
      \<and> (\<exists>is. is \<noteq> [] \<and> sorted is \<and> 0 \<le> hd is \<and> last is = m_iteration r
               \<and> progress r = p0 @ map (\<lambda>i. int_quotient i T) is))"

lemma sorted_le_last: "sorted xs \<Longrightarrow> x \<in> set xs \<Longrightarrow> x \<le> last (xs :: int list)"
  by (induction xs) auto

lemma sorted_hd_le_last: "sorted xs \<Longrightarrow> xs \<noteq> [] \<Longrightarrow> hd xs \<le> last (xs :: int list)"
  by (rule sorted_le_last) simp_all

lemma reported_nonneg: "reported T p0 r \<Longrightarrow> 0 \<le> m_iteration r"
proof -
  assume "reported T p0 r"
  then obtain "is" where "is \<noteq> []" "sorted is" "0 \<le> hd is" "last is = m_iteration r"
    by (auto simp: reported_def)
  then show ?thesis
    using sorted_hd_le_last[of "is"] by simp
qed

lemma reported_start:
  assumes "m_totalProgressIterations r = T" and "m_progressCallback r \<noteq> None" and "progress r = p0"
    and "0 \<le> X"
  shows "reported T p0 (snd (ReportProgress (r\<lparr>m_iteration := X\<rparr>)))"
    and "m_iteration (snd (ReportProgress (r\<lparr>m_iteration := X\<rparr>))) = X"
  using assms
  by (auto simp: reported_def ReportProgress_def Let_def intro!: exI[of _ "[X]"])

lemma reported_report:
  assumes "reported T p0 r" and "m_iteration r \<le> X"
  shows "reported T p0 (snd (ReportProgress (r\<lparr>m_iteration := X\<rparr>)))"
    and "m_iteration (snd (ReportProgress (r\<lparr>m_iteration := X\<rparr>))) = X"
proof -
  obtain "is" cb where *: "is \<noteq> []" "sorted is" "0 \<le> hd is" "last is = m_iteration r"
    "progress r = p0 @ map (\<lambda>i. int_quotient i T) is" "m_totalProgressIterations r = T"
    "m_progressCallback r = Some cb"
    using assms(1) by (auto simp: reported_def)
  have sorted: "sorted (is @ [X])"
    using *(1,2,4) assms(2) sorted_le_last[of "is"]
    by (fastforce simp: sorted_append)
  have "progress (snd (ReportProgress (r\<lparr>m_iteration := X\<rparr>)))
      = p0 @ map (\<lambda>i. int_quotient i T) (is @ [X])"
    using * by (simp add: ReportProgress_def Let_def)
  then show "reported T p0 (snd (ReportProgress (r\<lparr>m_iteration := X\<rparr>)))"
    unfolding reported_def using * sorted
    by (auto simp: ReportProgress_def Let_def intro!: exI[of _ "is @ [X]"])
  show "m_iteration (snd (ReportProgress (r\<lparr>m_iteration := X\<rparr>))) = X"
    using * by (simp add: ReportProgress_def Let_def)
qed

lemma reported_increment:
  assumes "reported T p0 r" and "m_iteration r + 1 < 2 ^ 31"
  shows "reported T p0 (snd (IncrementIteration r))"
    and "m_iteration (snd (IncrementIteration r)) = m_iteration r + 1"
proof -
  have "int32 (m_iteration r + 1) = m_iteration r + 1"
    using reported_nonneg[OF assms(1)] assms(2) by (intro int32_id) simp_all
  then show "reported T p0 (snd (IncrementIteration r))"
    and "m_iteration (snd (IncrementIteration r)) = m_iteration r + 1"
    using reported_report[OF assms(1), of "m_iteration r + 1"]
    by (simp_all add: IncrementIteration_def)
qed

text \<open>
  The invariant of a run: the iteration budget \<open>M\<close>, a valid grid of \<open>L\<close> lines, and the
  reports made so far.
\<close>

definition run_inv :: "int \<Rightarrow> nat \<Rightarrow> int \<Rightarrow> double list \<Rightarrow> Refiner \<Rightarrow> bool" where
  "run_inv M L T p0 r =
     (m_maxIterations r = M \<and> valid_grid (m_srep r) \<and> length (m_srep r) = L \<and> reported T p0 r)"

text \<open>Two states that differ in the store, the coefficient vectors and the spokes of the grid only.\<close>

definition same_run :: "Refiner \<Rightarrow> Refiner \<Rightarrow> bool" where
  "same_run r r' =
     (m_maxIterations r' = m_maxIterations r
      \<and> m_totalProgressIterations r' = m_totalProgressIterations r
      \<and> m_progressCallback r' = m_progressCallback r
      \<and> m_iteration r' = m_iteration r
      \<and> progress r' = progress r
      \<and> map (map IsCrest) (m_srep r') = map (map IsCrest) (m_srep r))"

lemma same_run_refl: "same_run r r"
  by (simp add: same_run_def)

lemma same_run_trans: "same_run r r' \<Longrightarrow> same_run r' r'' \<Longrightarrow> same_run r r''"
  by (simp add: same_run_def)

lemma valid_grid_cong:
  assumes "map (map IsCrest) a = map (map IsCrest) b"
  shows "valid_grid a = valid_grid b"
proof -
  have len: "length a = length b"
    using assms by (metis length_map)
  have line: "map IsCrest (a ! l) = map IsCrest (b ! l)" if "l < length b" for l
    using assms that len by (metis nth_map)
  have line_len: "length (a ! l) = length (b ! l)" if "l < length b" for l
    using line[OF that] by (metis length_map)
  have crest: "IsCrest (a ! l ! s) = IsCrest (b ! l ! s)" if "l < length b" "s < length (b ! l)" for l s
    using line[OF that(1)] that(2) line_len[OF that(1)] by (metis nth_map)
  have steps: "GetNumberOfSteps a = GetNumberOfSteps b"
  proof (cases b)
    case Nil
    then show ?thesis using len by (simp add: GetNumberOfSteps_def)
  next
    case (Cons x xs)
    then obtain y ys where a: "a = y # ys" using len by (cases a) simp_all
    have "length y = length x" using line_len[of 0] Cons a by simp
    then show ?thesis by (simp add: GetNumberOfSteps_def Cons a)
  qed
  have empty: "(a = []) = (b = [])" using len by auto
  show ?thesis
    unfolding valid_grid_def same_steps_def list_all_length steps empty len
    using line_len crest by (auto simp: len)
qed

lemma run_inv_same:
  assumes "run_inv M L T p0 r" and "same_run r r'"
  shows "run_inv M L T p0 r'"
proof -
  have "valid_grid (m_srep r') = valid_grid (m_srep r)"
    using assms(2) by (intro valid_grid_cong) (simp add: same_run_def)
  moreover have "length (m_srep r') = length (m_srep r)"
    using assms(2) by (metis same_run_def length_map)
  ultimately show ?thesis
    using assms by (auto simp: run_inv_def same_run_def reported_def)
qed

lemma same_run_heap: "same_run r (r\<lparr>heap := h\<rparr>)"
  by (simp add: same_run_def)

lemma EvaluateObjectiveFunction_cases:
  "snd (EvaluateObjectiveFunction env coeff spokeType r)
     = r\<lparr>heap := snd (Refine env (m_srep r) coeff spokeType (heap r))\<rparr>
   \<or> snd (EvaluateObjectiveFunction env coeff spokeType r)
     = snd (IncrementIteration (r\<lparr>heap := snd (Refine env (m_srep r) coeff spokeType (heap r))\<rparr>))"
  unfolding EvaluateObjectiveFunction_def EvaluateObjectiveFunction_try_def Let_def
  by (auto split: prod.splits sum.splits option.splits error.splits)

lemma ReportProgress_same:
  "m_maxIterations (snd (ReportProgress r)) = m_maxIterations r"
  "m_srep (snd (ReportProgress r)) = m_srep r"
  by (simp_all add: ReportProgress_def Let_def split: option.splits)

lemma IncrementIteration_same:
  "m_maxIterations (snd (IncrementIteration r)) = m_maxIterations r"
  "m_srep (snd (IncrementIteration r)) = m_srep r"
  by (simp_all add: IncrementIteration_def ReportProgress_same)

lemma run_inv_increment:
  assumes "run_inv M L T p0 r" and "m_iteration r + 1 < 2 ^ 31"
  shows "run_inv M L T p0 (snd (IncrementIteration r))"
    and "m_iteration (snd (IncrementIteration r)) = m_iteration r + 1"
  using assms reported_increment[of T p0 r]
  by (simp_all add: run_inv_def IncrementIteration_same)

lemma run_inv_report:
  assumes "run_inv M L T p0 r" and "m_iteration r \<le> X"
  shows "run_inv M L T p0 (snd (ReportProgress (r\<lparr>m_iteration := X\<rparr>)))"
    and "m_iteration (snd (ReportProgress (r\<lparr>m_iteration := X\<rparr>))) = X"
  using assms reported_report[of T p0 r X]
  by (simp_all add: run_inv_def ReportProgress_same)

lemma EvaluateObjectiveFunction_inv:
  assumes "run_inv M L T p0 r" and "m_iteration r + 1 < 2 ^ 31"
  shows "run_inv M L T p0 (snd (EvaluateObjectiveFunction env coeff spokeType r))"
    and "m_iteration r \<le> m_iteration (snd (EvaluateObjectiveFunction env coeff spokeType r))"
    and "m_iteration (snd (EvaluateObjectiveFunction env coeff spokeType r)) \<le> m_iteration r + 1"
proof -
  define r1 where "r1 = r\<lparr>heap := snd (Refine env (m_srep r) coeff spokeType (heap r))\<rparr>"
  have r1: "run_inv M L T p0 r1" "m_iteration r1 = m_iteration r"
    using run_inv_same[OF assms(1) same_run_heap] by (simp_all add: r1_def)
  have inc: "run_inv M L T p0 (snd (IncrementIteration r1))"
    "m_iteration (snd (IncrementIteration r1)) = m_iteration r + 1"
    using run_inv_increment[OF r1(1)] assms(2) r1(2) by simp_all
  consider "snd (EvaluateObjectiveFunction env coeff spokeType r) = r1"
    | "snd (EvaluateObjectiveFunction env coeff spokeType r) = snd (IncrementIteration r1)"
    using EvaluateObjectiveFunction_cases[of env coeff spokeType r] by (auto simp: r1_def)
  then have "run_inv M L T p0 (snd (EvaluateObjectiveFunction env coeff spokeType r))
      \<and> m_iteration r \<le> m_iteration (snd (EvaluateObjectiveFunction env coeff spokeType r))
      \<and> m_iteration (snd (EvaluateObjectiveFunction env coeff spokeType r)) \<le> m_iteration r + 1"
    using r1 inc by cases simp_all
  then show "run_inv M L T p0 (snd (EvaluateObjectiveFunction env coeff spokeType r))"
    and "m_iteration r \<le> m_iteration (snd (EvaluateObjectiveFunction env coeff spokeType r))"
    and "m_iteration (snd (EvaluateObjectiveFunction env coeff spokeType r)) \<le> m_iteration r + 1"
    by simp_all
qed

lemma min_newuoa_loop_inv:
  assumes "run_inv M L T p0 r" and "m_iteration r + int n < 2 ^ 31"
  shows "run_inv M L T p0
           (snd (min_newuoa_loop env (\<lambda>coeff. EvaluateObjectiveFunction env coeff spokeType)
                   x rhobeg rhoend n evaluations r))
       \<and> m_iteration r \<le> m_iteration
           (snd (min_newuoa_loop env (\<lambda>coeff. EvaluateObjectiveFunction env coeff spokeType)
                   x rhobeg rhoend n evaluations r))
       \<and> m_iteration
           (snd (min_newuoa_loop env (\<lambda>coeff. EvaluateObjectiveFunction env coeff spokeType)
                   x rhobeg rhoend n evaluations r)) \<le> m_iteration r + int n"
  using assms
proof (induction n arbitrary: evaluations r)
  case 0
  then show ?case by simp
next
  case (Suc n)
  show ?case
  proof (cases "newuoa_next env x rhobeg rhoend evaluations")
    case (Stop result)
    then show ?thesis using Suc.prems by simp
  next
    case (Evaluate coeff)
    obtain val r1 where ev: "EvaluateObjectiveFunction env coeff spokeType r = (val, r1)"
      by (cases "EvaluateObjectiveFunction env coeff spokeType r")
    have r1: "run_inv M L T p0 r1" "m_iteration r \<le> m_iteration r1"
      "m_iteration r1 \<le> m_iteration r + 1"
      using EvaluateObjectiveFunction_inv[OF Suc.prems(1), of env coeff spokeType] Suc.prems(2) ev
      by simp_all
    have "m_iteration r1 + int n < 2 ^ 31" using r1(3) Suc.prems(2) by simp
    from Suc.IH[OF r1(1) this, of "evaluations @ [(coeff, val)]"]
    show ?thesis
      using Evaluate ev r1 by simp
  qed
qed

lemma list_update_same_image:
  assumes "f y = f (xs ! k)"
  shows "map f (xs[k := y]) = map f xs"
proof (cases "k < length xs")
  case True
  then show ?thesis using assms by (simp add: map_update list_update_same_conv)
next
  case False
  then show ?thesis by (simp add: not_less list_update_beyond)
qed

lemma SetSkeletalPointAt_shape:
  assumes "IsCrest p' = IsCrest (GetSkeletalPoint srep l s)"
  shows "map (map IsCrest) (SetSkeletalPointAt l s p' srep) = map (map IsCrest) srep"
  unfolding SetSkeletalPointAt_def
proof (rule list_update_same_image)
  show "map IsCrest ((srep ! l)[s := p']) = map IsCrest (srep ! l)"
    using assms by (intro list_update_same_image) (simp add: GetSkeletalPoint_def)
qed

lemma IsCrest_SetSpoke:
  "spokeType \<noteq> CrestOrientation \<Longrightarrow> IsCrest (SetSpoke spokeType x p) = IsCrest p"
  by (cases spokeType; cases x) (simp_all add: IsCrest_def)

lemma Refine_crest:
  "fst (Refine env srep coeff CrestOrientation h) = Inl (invalid_argument ''Don't know how to refine spoke of type'')"
  by (simp add: Refine_def split: prod.splits)

lemma copy_spokes_same_run:
  assumes "spokeType \<noteq> CrestOrientation"
  shows "same_run r
     (snd (for_each ls (\<lambda>l.
             for_each ss (\<lambda>s r.
               (None, r\<lparr>m_srep :=
                  SetSkeletalPointAt l s
                    (SetSpoke spokeType (GetSpoke spokeType (GetSkeletalPoint refinedSRep l s))
                       (GetSkeletalPoint (m_srep r) l s))
                    (m_srep r)\<rparr>))) r))"
proof -
  let ?body = "\<lambda>l s r. (None :: error option, r\<lparr>m_srep :=
                  SetSkeletalPointAt l s
                    (SetSpoke spokeType (GetSpoke spokeType (GetSkeletalPoint refinedSRep l s))
                       (GetSkeletalPoint (m_srep r) l s))
                    (m_srep r)\<rparr>)"
  have body: "same_run r (snd (?body l s t))" if "same_run r t" for l s t
  proof -
    have "same_run t (snd (?body l s t))"
      using SetSkeletalPointAt_shape[OF IsCrest_SetSpoke[OF assms]]
      by (simp add: same_run_def)
    with that show ?thesis by (rule same_run_trans)
  qed
  have inner: "same_run r (snd (for_each ss (?body l) t))" if "same_run r t" for l t
  proof (rule for_each_invariant[where P = "same_run r"])
    show "same_run r (snd (?body l s u))" if "same_run r u" for s u
      using that by (rule body)
    show "same_run r t" by (rule that)
  qed
  show ?thesis
  proof (rule for_each_invariant[where P = "same_run r"])
    show "same_run r (snd (for_each ss (?body l) t))" if "same_run r t" for l t
      using that by (rule inner)
    show "same_run r r" by (rule same_run_refl)
  qed
qed

lemma RefineUpDownSpokes_inv:
  assumes "run_inv M L T p0 r" and "0 \<le> M" and "m_iteration r + M < 2 ^ 31"
  shows "run_inv M L T p0 (snd (RefineUpDownSpokes env spokeType r))
       \<and> m_iteration r \<le> m_iteration (snd (RefineUpDownSpokes env spokeType r))
       \<and> m_iteration (snd (RefineUpDownSpokes env spokeType r)) \<le> m_iteration r + M"
proof -
  define ra where "ra = r\<lparr>m_currentCoeff :=
      Some (if spokeType = UpOrientation then UpOrientation else DownOrientation)\<rparr>"
  define start where "start =
      (if spokeType = UpOrientation then m_flattenedUpCoeff ra else m_flattenedDownCoeff ra)"
  define opt where "opt = min_newuoa env start (\<lambda>coeff. EvaluateObjectiveFunction env coeff spokeType)
                         (m_initialRegionSize ra) (m_finalRegionSize ra) (m_maxIterations ra) ra"
  define coeff where "coeff = fst opt"
  define rb where "rb = snd opt"
  define rc where "rc = (if spokeType = UpOrientation then rb\<lparr>m_flattenedUpCoeff := coeff\<rparr>
               else rb\<lparr>m_flattenedDownCoeff := coeff\<rparr>)"
  have ra: "run_inv M L T p0 ra" "m_iteration ra = m_iteration r" "m_maxIterations ra = M"
    using assms(1) run_inv_same[OF assms(1), of ra]
    by (simp_all add: ra_def same_run_def run_inv_def)
  have "m_iteration ra + int (nat M) < 2 ^ 31" using assms(2,3) ra(2) by simp
  from min_newuoa_loop_inv[OF ra(1) this]
  have rb: "run_inv M L T p0 rb" "m_iteration r \<le> m_iteration rb" "m_iteration rb \<le> m_iteration r + M"
    using assms(2) ra(2,3) by (simp_all add: rb_def opt_def min_newuoa_def)
  have rc: "run_inv M L T p0 rc" "m_iteration rc = m_iteration rb"
    using run_inv_same[OF rb(1), of rc] by (simp_all add: rc_def same_run_def)
  have unfold: "RefineUpDownSpokes env spokeType r =
      (case Refine env (m_srep rc) coeff spokeType (heap rc) of
           (Inl e, h) \<Rightarrow> (Some e, rc\<lparr>heap := h\<rparr>)
         | (Inr refinedSRep, h) \<Rightarrow>
             (let r = rc\<lparr>heap := h\<rparr>
              in if GetNumberOfLines (m_srep r) \<noteq> GetNumberOfLines refinedSRep then
                   (Some (runtime_error ''Error: expected equal number of lines''), r)
                 else if GetNumberOfSteps (m_srep r) \<noteq> GetNumberOfSteps refinedSRep then
                   (Some (runtime_error ''Error: expected equal number of steps''), r)
                 else
                   for_each [0..<GetNumberOfLines (m_srep r)] (\<lambda>l.
                     for_each [0..<GetNumberOfSteps (m_srep r)] (\<lambda>s r.
                       (None, r\<lparr>m_srep :=
                          SetSkeletalPointAt l s
                            (SetSpoke spokeType (GetSpoke spokeType (GetSkeletalPoint refinedSRep l s))
                               (GetSkeletalPoint (m_srep r) l s))
                            (m_srep r)\<rparr>))) r))"
    unfolding RefineUpDownSpokes_def Let_def case_prod_beta rc_def rb_def coeff_def opt_def
      start_def ra_def
    by (rule refl)
  have same: "same_run rc (snd (RefineUpDownSpokes env spokeType r))"
  proof (cases "spokeType = CrestOrientation")
    case True
    then show ?thesis
      unfolding unfold using Refine_crest[of env "m_srep rc" coeff "heap rc"]
      by (auto simp: same_run_heap split: prod.splits sum.splits)
  next
    case False
    have "same_run rc (snd (for_each ls (\<lambda>l.
             for_each ss (\<lambda>s r.
               (None, r\<lparr>m_srep :=
                  SetSkeletalPointAt l s
                    (SetSpoke spokeType (GetSpoke spokeType (GetSkeletalPoint refinedSRep l s))
                       (GetSkeletalPoint (m_srep r) l s))
                    (m_srep r)\<rparr>))) (rc\<lparr>heap := h\<rparr>)))" for ls ss refinedSRep h
      using same_run_trans[OF same_run_heap[of rc h] copy_spokes_same_run[OF False]] .
    then show ?thesis
      unfolding unfold Let_def
      by (auto simp: same_run_heap split: prod.splits sum.splits)
  qed
  have "run_inv M L T p0 (snd (RefineUpDownSpokes env spokeType r))"
    using rc(1) same by (rule run_inv_same)
  moreover have "m_iteration (snd (RefineUpDownSpokes env spokeType r)) = m_iteration rb"
    using same rc(2) by (simp add: same_run_def)
  ultimately show ?thesis using rb by simp
qed

text \<open>A counting loop that completes, with an invariant that depends on the index.\<close>

lemma for_each_upt_from:
  assumes "k \<le> n" and "P k s"
    and step: "\<And>i t t'. k \<le> i \<Longrightarrow> i < n \<Longrightarrow> P i t \<Longrightarrow> body i t = (None, t') \<Longrightarrow> P (Suc i) t'"
    and "for_each [k..<n] body s = (None, s')"
  shows "P n s'"
  using assms
proof (induction "n - k" arbitrary: k s)
  case 0
  then show ?case by simp
next
  case (Suc d)
  have k: "k < n" using Suc.hyps(2) by simp
  obtain thrown t where b: "body k s = (thrown, t)" by (cases "body k s")
  have thrown: "thrown = None"
    using Suc.prems(4) k b by (cases thrown) (simp_all add: upt_conv_Cons)
  have rest: "for_each [Suc k..<n] body t = (None, s')"
    using Suc.prems(4) k b thrown by (simp add: upt_conv_Cons)
  have Pt: "P (Suc k) t"
    using Suc.prems(3)[of k s t] k Suc.prems(2) b thrown by simp
  show ?case
  proof (rule Suc.hyps(1)[of "Suc k" t])
    show "d = n - Suc k" using Suc.hyps(2) by simp
    show "Suc k \<le> n" using k by simp
    show "P (Suc k) t" by (rule Pt)
    show "P (Suc i) u'" if "Suc k \<le> i" "i < n" "P i u" "body i u = (None, u')" for i u u'
      using Suc.prems(3)[of i u u'] that by simp
    show "for_each [Suc k..<n] body t = (None, s')" by (rule rest)
  qed
qed

lemma for_each_upt:
  assumes "P 0 s"
    and "\<And>i t t'. i < n \<Longrightarrow> P i t \<Longrightarrow> body i t = (None, t') \<Longrightarrow> P (Suc i) t'"
    and "for_each [0..<n] body s = (None, s')"
  shows "P n s'"
  using for_each_upt_from[of 0 n P s body s'] assms by simp

lemma crest_body_count:
  assumes inv: "run_inv M L T p0 t" and l: "l < L" and s: "s < GetNumberOfSteps (m_srep t)"
    and bound: "m_iteration t + 1 < 2 ^ 31"
    and run: "crest_body step l s t = (None, t')"
  shows "run_inv M L T p0 t'"
    and "m_iteration t' = m_iteration t + (if s + 1 = GetNumberOfSteps (m_srep t) then 1 else 0)"
    and "m_srep t' = m_srep t"
proof -
  have valid: "valid_grid (m_srep t)" and len: "l < length (m_srep t)"
    using inv l by (simp_all add: run_inv_def)
  have crest: "IsCrest (GetSkeletalPoint (m_srep t) l s) = (s + 1 = GetNumberOfSteps (m_srep t))"
    using valid_grid_line(3)[OF valid len s] by (simp add: GetSkeletalPoint_def)
  have "run_inv M L T p0 t'
      \<and> m_iteration t' = m_iteration t + (if s + 1 = GetNumberOfSteps (m_srep t) then 1 else 0)
      \<and> m_srep t' = m_srep t"
  proof (cases "s + 1 = GetNumberOfSteps (m_srep t)")
    case True
    obtain thrown t1 where inc: "IncrementIteration t = (thrown, t1)"
      by (cases "IncrementIteration t")
    have t1: "run_inv M L T p0 t1" "m_iteration t1 = m_iteration t + 1" "m_srep t1 = m_srep t"
      using run_inv_increment[OF inv bound] inc IncrementIteration_same(2)[of t] by simp_all
    have "\<exists>h. t' = t1\<lparr>heap := h\<rparr>"
      using run True crest inc unfolding crest_body_def Let_def
      by (cases thrown) (auto split: prod.splits)
    then obtain h where t': "t' = t1\<lparr>heap := h\<rparr>" by blast
    show ?thesis
      using run_inv_same[OF t1(1) same_run_heap[of t1 h]] t1 True by (simp add: t')
  next
    case False
    then have "t' = t"
      using run crest unfolding crest_body_def Let_def by simp
    then show ?thesis using inv False by simp
  qed
  then show "run_inv M L T p0 t'"
    and "m_iteration t' = m_iteration t + (if s + 1 = GetNumberOfSteps (m_srep t) then 1 else 0)"
    and "m_srep t' = m_srep t" by simp_all
qed

lemma crest_pass_count:
  assumes inv: "run_inv M L T p0 r" and bound: "m_iteration r + int L < 2 ^ 31"
    and run: "crest_pass step r = (None, r')"
  shows "run_inv M L T p0 r'" and "m_iteration r' = m_iteration r + int L"
proof -
  define srep where "srep = m_srep r"
  define S where "S = GetNumberOfSteps srep"
  define m0 where "m0 = m_iteration r"
  let ?P = "\<lambda>l t. run_inv M L T p0 t \<and> m_srep t = srep \<and> m_iteration t = m0 + int l"
  have L: "length srep = L" using inv by (simp add: run_inv_def srep_def)
  have line: "?P (Suc l) t'"
    if l: "l < L" and P: "?P l t" and run: "for_each [0..<S] (crest_body step l) t = (None, t')"
    for l t t'
  proof -
    let ?Q = "\<lambda>s u. run_inv M L T p0 u \<and> m_srep u = srep
                \<and> m_iteration u = m0 + int l + (if s = S then 1 else 0)"
    have Spos: "0 < S"
      using valid_grid_line(2)[of srep l] inv l L by (simp add: run_inv_def srep_def S_def)
    have "?Q S t'"
    proof (rule for_each_upt[where P = ?Q and body = "crest_body step l" and s = t])
      show "?Q 0 t" using P Spos by simp
      show "?Q (Suc s) u'" if "s < S" "?Q s u" "crest_body step l s u = (None, u')" for s u u'
      proof -
        have u: "run_inv M L T p0 u" "m_srep u = srep" "m_iteration u = m0 + int l"
          using that(1,2) by simp_all
        have "m_iteration u + 1 < 2 ^ 31" using u(3) l bound by (simp add: m0_def)
        from crest_body_count[OF u(1) l _ this that(3)]
        show ?thesis using u that(1) by (simp add: S_def)
      qed
      show "for_each [0..<S] (crest_body step l) t = (None, t')" by (rule run)
    qed
    then show ?thesis by simp
  qed
  have "?P L r'"
  proof (rule for_each_upt[where P = ?P and body = "\<lambda>l. for_each [0..<S] (crest_body step l)"
        and s = r])
    show "?P 0 r" using inv by (simp add: srep_def m0_def)
    show "?P (Suc l) t'"
      if "l < L" "?P l t" "for_each [0..<S] (crest_body step l) t = (None, t')" for l t t'
      using that by (rule line)
    show "for_each [0..<L] (\<lambda>l. for_each [0..<S] (crest_body step l)) r = (None, r')"
      using run L by (simp add: crest_pass_def srep_def S_def GetNumberOfLines_def)
  qed
  then show "run_inv M L T p0 r'" and "m_iteration r' = m_iteration r + int L"
    by (simp_all add: m0_def)
qed

lemma RefineCrestSpokes_count:
  assumes inv: "run_inv M L T p0 r" and bound: "m_iteration r + 2 * int L < 2 ^ 31"
    and run: "RefineCrestSpokes env r = (None, r')"
  shows "run_inv M L T p0 r'" and "m_iteration r' = m_iteration r + 2 * int L"
proof -
  obtain thrown r1 where first:
    "OptimizeCrestSpokeLengths env (m_initialRegionSize r) (size_t_of_int (m_maxIterations r)) r
       = (thrown, r1)"
    by (cases "OptimizeCrestSpokeLengths env (m_initialRegionSize r)
                 (size_t_of_int (m_maxIterations r)) r")
  have thrown: "thrown = None"
    using run first by (cases thrown) (simp_all add: RefineCrestSpokes_def)
  obtain maxC minC where curv: "Maximum_Curvature (m_polyData r1) = Some maxC"
    "Minimum_Curvature (m_polyData r1) = Some minC"
    and second: "CorrectCrestSpokes env maxC minC r1 = (None, r')"
    using run first thrown
    by (auto simp: RefineCrestSpokes_def split: option.splits)
  have b1: "m_iteration r + int L < 2 ^ 31" using bound by simp
  have r1: "run_inv M L T p0 r1" "m_iteration r1 = m_iteration r + int L"
    using crest_pass_count[OF inv b1] first thrown
    by (simp_all add: OptimizeCrestSpokeLengths_crest_pass)
  have b2: "m_iteration r1 + int L < 2 ^ 31" using bound r1(2) by simp
  show "run_inv M L T p0 r'" and "m_iteration r' = m_iteration r + 2 * int L"
    using crest_pass_count[OF r1(1) b2] second r1(2)
    by (simp_all add: CorrectCrestSpokes_crest_pass)
qed

lemma Refiner_Run_reported:
  assumes M: "m_maxIterations r = M" "0 \<le> M"
    and grid: "valid_grid (m_srep r)" "m_srep r \<noteq> []" "length (m_srep r) = L"
    and T: "m_totalProgressIterations r = T" "T = 2 * M + 2 * int L" "T < 2 ^ 31"
    and cb: "m_progressCallback r \<noteq> None" and p0: "progress r = p0"
    and run: "Refiner_Run env r = (Inr result, r')"
  shows "reported T p0 r'" and "m_iteration r' = T"
proof -
  let ?r0 = "r\<lparr>m_iteration := 0\<rparr>"
  obtain r1 where s1: "ReportProgress ?r0 = (None, r1)"
    using run grid(2) unfolding Refiner_Run_def IsEmpty_def
    by (cases "ReportProgress ?r0") (auto split: option.splits)
  have r1: "run_inv M L T p0 r1" "m_iteration r1 = 0"
    using reported_start[of r T p0 0] T(1) cb p0 s1 M grid ReportProgress_same[of ?r0]
    by (simp_all add: run_inv_def)
  obtain r2 where s2: "RefineSpokes env UpOrientation r1 = (None, r2)"
    using run grid(2) s1 unfolding Refiner_Run_def IsEmpty_def
    by (cases "RefineSpokes env UpOrientation r1") (auto split: option.splits)
  have Mb: "M < 2 ^ 31" "2 * M < 2 ^ 31" using T(2,3) M(2) by simp_all
  have r2: "run_inv M L T p0 r2" "m_iteration r2 \<le> M"
    using RefineUpDownSpokes_inv[OF r1(1) M(2), of env UpOrientation] r1(2) Mb s2
    by (simp_all add: RefineSpokes_def)
  have m2: "m_maxIterations r2 = M" using r2(1) by (simp add: run_inv_def)
  let ?r2 = "r2\<lparr>m_iteration := int32 (1 * m_maxIterations r2)\<rparr>"
  have i2: "int32 (1 * m_maxIterations r2) = M"
    using m2 M(2) Mb by (simp add: int32_id)
  obtain r3 where s3: "ReportProgress ?r2 = (None, r3)"
    using run grid(2) s1 s2 unfolding Refiner_Run_def IsEmpty_def
    by (cases "ReportProgress ?r2") (auto split: option.splits)
  have r3: "run_inv M L T p0 r3" "m_iteration r3 = M"
    using run_inv_report[OF r2(1), of M] r2(2) s3 i2 by simp_all
  obtain r4 where s4: "RefineSpokes env DownOrientation r3 = (None, r4)"
    using run grid(2) s1 s2 s3 unfolding Refiner_Run_def IsEmpty_def
    by (cases "RefineSpokes env DownOrientation r3") (auto split: option.splits)
  have r4: "run_inv M L T p0 r4" "m_iteration r4 \<le> 2 * M"
    using RefineUpDownSpokes_inv[OF r3(1) M(2), of env DownOrientation] r3(2) Mb s4
    by (simp_all add: RefineSpokes_def)
  have m4: "m_maxIterations r4 = M" using r4(1) by (simp add: run_inv_def)
  let ?r4 = "r4\<lparr>m_iteration := int32 (2 * m_maxIterations r4)\<rparr>"
  have i4: "int32 (2 * m_maxIterations r4) = 2 * M"
    using m4 M(2) Mb by (simp add: int32_id)
  obtain r5 where s5: "ReportProgress ?r4 = (None, r5)"
    using run grid(2) s1 s2 s3 s4 unfolding Refiner_Run_def IsEmpty_def
    by (cases "ReportProgress ?r4") (auto split: option.splits)
  have r5: "run_inv M L T p0 r5" "m_iteration r5 = 2 * M"
    using run_inv_report[OF r4(1), of "2 * M"] r4(2) s5 i4 by simp_all
  obtain r6 where s6: "RefineSpokes env CrestOrientation r5 = (None, r6)"
    using run grid(2) s1 s2 s3 s4 s5 unfolding Refiner_Run_def IsEmpty_def
    by (cases "RefineSpokes env CrestOrientation r5") (auto split: option.splits)
  have b: "m_iteration r5 + 2 * int L < 2 ^ 31" using r5(2) T(2,3) by simp
  have r6: "run_inv M L T p0 r6" "m_iteration r6 = T"
    using RefineCrestSpokes_count[OF r5(1) b, of env r6] s6 r5(2) T(2)
    by (simp_all add: RefineSpokes_def)
  have t6: "m_totalProgressIterations r6 = T" using r6(1) by (simp add: run_inv_def reported_def)
  have "r' = r6\<lparr>m_iteration := m_totalProgressIterations r6\<rparr>"
    using run grid(2) s1 s2 s3 s4 s5 s6 unfolding Refiner_Run_def IsEmpty_def
    by (simp add: Let_def)
  then have "r' = r6" using r6(2) t6 by simp
  then show "reported T p0 r'" and "m_iteration r' = T"
    using r6 by (simp_all add: run_inv_def)
qed

text \<open>The constructor: the clone has the shape of the grid, and nothing is reported.\<close>

lemma ClonePoint_IsCrest: "IsCrest (fst (ClonePoint p h)) = IsCrest p"
  by (simp add: ClonePoint_def IsCrest_def alloc_def Let_def split: prod.splits option.splits)

lemma CloneLine_shape: "map IsCrest (fst (CloneLine ps h)) = map IsCrest ps"
proof (induction ps arbitrary: h)
  case Nil
  then show ?case by simp
next
  case (Cons p ps)
  obtain p' h1 where p: "ClonePoint p h = (p', h1)" by (cases "ClonePoint p h")
  obtain ps' h2 where ps: "CloneLine ps h1 = (ps', h2)" by (cases "CloneLine ps h1")
  show ?case
    using Cons.IH[of h1] ClonePoint_IsCrest[of p h] p ps by simp
qed

lemma SmartClone_shape: "map (map IsCrest) (fst (SmartClone srep h)) = map (map IsCrest) srep"
proof (induction srep arbitrary: h)
  case Nil
  then show ?case by simp
next
  case (Cons line lines)
  obtain line' h1 where l: "CloneLine line h = (line', h1)" by (cases "CloneLine line h")
  obtain lines' h2 where ls: "SmartClone lines h1 = (lines', h2)" by (cases "SmartClone lines h1")
  show ?case
    using Cons.IH[of h1] CloneLine_shape[of line h] l ls by simp
qed

lemma for_each_nested_invariant:
  assumes "\<And>l s t. P t \<Longrightarrow> P (snd (body l s t))" and "P t"
  shows "P (snd (for_each ls (\<lambda>l. for_each ss (body l)) t))"
proof (rule for_each_invariant[where P = P])
  show "P (snd (for_each ss (body l) u))" if "P u" for l u
  proof (rule for_each_invariant[where P = P])
    show "P (snd (body l s v))" if "P v" for s v
      using that by (rule assms(1))
    show "P u" by (rule that)
  qed
  show "P t" by (rule assms(2))
qed

lemma GetInitialCoefficients_same:
  "same_run r (snd (GetInitialCoefficients env r))"
  "m_srep (snd (GetInitialCoefficients env r)) = m_srep r"
  "heap (snd (GetInitialCoefficients env r)) = heap r"
  "fieldConstructions (snd (GetInitialCoefficients env r)) = fieldConstructions r"
proof -
  let ?P = "\<lambda>t. same_run r t \<and> m_srep t = m_srep r \<and> heap t = heap r
               \<and> fieldConstructions t = fieldConstructions r"
  have "?P (snd (GetInitialCoefficients env r))"
    unfolding GetInitialCoefficients_def Let_def
    by (rule for_each_nested_invariant[where P = ?P])
       (auto simp: same_run_def split: sum.splits)
  then show "same_run r (snd (GetInitialCoefficients env r))"
    "m_srep (snd (GetInitialCoefficients env r)) = m_srep r"
    "heap (snd (GetInitialCoefficients env r)) = heap r"
    "fieldConstructions (snd (GetInitialCoefficients env r)) = fieldConstructions r"
    by simp_all
qed

lemma Refiner_new_Inr:
  assumes "Refiner_new env srep polyData initialRegionSize finalRegionSize maxIterations
             interpolationLevel L0Weight L1Weight L2Weight w = (Inr r, w1)"
  shows "m_maxIterations r = maxIterations"
    and "map (map IsCrest) (m_srep r) = map (map IsCrest) srep"
    and "m_totalProgressIterations r = int32 (int32 (2 * maxIterations) + 2 * int (length srep))"
    and "progress r = w_progress w"
    and "w_progress w1 = w_progress w"
    and "m_iteration r = 0"
proof -
  obtain clone h where c: "SmartClone srep (w_heap w) = (clone, h)"
    by (cases "SmartClone srep (w_heap w)")
  have shape: "map (map IsCrest) clone = map (map IsCrest) srep"
    using SmartClone_shape[of srep "w_heap w"] c by simp
  then have len: "length clone = length srep" by (metis length_map)
  define r0 where "r0 = (\<lambda>pd masterBounds.
     \<lparr>heap = h, progress = w_progress w, fieldConstructions = w_fieldConstructions w + 1,
      m_voxelSpacing = 0.005, m_polyData = pd, m_srep = clone, m_masterBounds = masterBounds,
      m_srepToImageCoordsTransform = CreateBoundsToImageCoordsTransform masterBounds,
      m_flattenedUpCoeff = [], m_flattenedDownCoeff = [],
      m_initialRegionSize = initialRegionSize, m_finalRegionSize = finalRegionSize,
      m_maxIterations = maxIterations, m_interpolationLevel = interpolationLevel,
      m_currentCoeff = None, m_L0Weight = L0Weight, m_L1Weight = L1Weight, m_L2Weight = L2Weight,
      m_iteration = 0,
      m_totalProgressIterations = int32 (int32 (2 * maxIterations) + 2 * int (GetNumberOfLines clone)),
      m_progressCallback = None\<rparr>)"
  have "\<exists>pd masterBounds. GetInitialCoefficients env (r0 pd masterBounds) = (None, r)
          \<and> w1 = w\<lparr>w_heap := h, w_fieldConstructions := w_fieldConstructions w + 1\<rparr>"
    using assms c unfolding Refiner_new_def Let_def r0_def
    by (auto split: sum.splits option.splits prod.splits)
  then obtain pd masterBounds where "GetInitialCoefficients env (r0 pd masterBounds) = (None, r)"
    and w1: "w1 = w\<lparr>w_heap := h, w_fieldConstructions := w_fieldConstructions w + 1\<rparr>"
    by blast
  then have r: "r = snd (GetInitialCoefficients env (r0 pd masterBounds))" by simp
  have same: "same_run (r0 pd masterBounds) r"
    and srep: "m_srep r = m_srep (r0 pd masterBounds)"
    using GetInitialCoefficients_same[where r = "r0 pd masterBounds" and env = env] r by simp_all
  show "m_maxIterations r = maxIterations"
    and "map (map IsCrest) (m_srep r) = map (map IsCrest) srep"
    and "m_totalProgressIterations r = int32 (int32 (2 * maxIterations) + 2 * int (length srep))"
    and "progress r = w_progress w"
    and "w_progress w1 = w_progress w"
    and "m_iteration r = 0"
    using same srep shape len w1
    by (simp_all add: same_run_def r0_def GetNumberOfLines_def)
qed

text \<open>The reports of a run that has reached its last iteration.\<close>

lemma sorted_hd_le: "sorted xs \<Longrightarrow> x \<in> set xs \<Longrightarrow> hd xs \<le> (x :: int)"
  by (cases xs) auto

lemma reported_progress:
  assumes "reported T p0 r" and "m_iteration r = T" and "0 < T"
  shows "\<exists>ps. progress r = p0 @ map Finite ps \<and> ps \<noteq> [] \<and> sorted ps
            \<and> (\<forall>p\<in>set ps. 0 \<le> p \<and> p \<le> 1) \<and> last ps = 1"
proof -
  obtain "is" where *: "is \<noteq> []" "sorted is" "0 \<le> hd is" "last is = T"
    "progress r = p0 @ map (\<lambda>i. int_quotient i T) is"
    using assms(1,2) by (auto simp: reported_def)
  define f where "f = (\<lambda>i. rounded (real_of_int i / real_of_int T))"
  define ps where "ps = map f is"
  have bounds: "0 \<le> i \<and> i \<le> T" if "i \<in> set is" for i
    using sorted_hd_le[OF *(2) that] sorted_le_last[OF *(2) that] *(3,4) by simp
  have frac: "0 \<le> real_of_int i / real_of_int T \<and> real_of_int i / real_of_int T \<le> pow2 0"
    if "i \<in> set is" for i
    using bounds[OF that] assms(3) by (simp add: pow2_0)
  have quotient: "int_quotient i T = Finite (f i)" if "i \<in> set is" for i
    using round64_range(1)[of "real_of_int i / real_of_int T" 0] frac[OF that] assms(3)
    by (simp add: int_quotient_def f_def)
  have q: "map (\<lambda>i. int_quotient i T) is = map Finite ps"
    unfolding ps_def map_map by (rule map_cong) (simp_all add: quotient)
  have mono: "f i \<le> f j" if "i \<in> set is" "i \<le> j" for i j
    unfolding f_def using frac[OF that(1)] that(2) assms(3)
    by (intro rounded_mono_nonneg) (simp_all add: divide_right_mono)
  have sorted: "sorted ps"
    unfolding ps_def sorted_map
    using *(2) by (rule sorted_wrt_mono_rel[rotated]) (simp add: mono)
  have range: "0 \<le> p \<and> p \<le> 1" if p: "p \<in> set ps" for p
  proof -
    obtain i where i: "i \<in> set is" "p = f i"
      using p unfolding ps_def by auto
    show ?thesis
      using round64_range(2,3)[of "real_of_int i / real_of_int T" 0] frac[OF i(1)]
      by (simp add: i(2) f_def pow2_0)
  qed
  have "f T = 1"
    using rounded_pow2[of 0] assms(3) by (simp add: f_def pow2_0)
  then have last: "last ps = 1"
    using *(1,4) by (simp add: ps_def last_map)
  show ?thesis
    using *(1,5) q sorted range last by (intro exI[of _ ps]) (simp add: ps_def)
qed

lemma RefineSRep_progress:
  assumes grid: "valid_grid srep" "srep \<noteq> []"
    and M: "0 \<le> maxIterations" "2 * maxIterations + 2 * int (length srep) < 2 ^ 31"
    and run: "RefineSRep env srep polyData initialRegionSize finalRegionSize maxIterations
                interpolationLevel L0Weight L1Weight L2Weight (Some callback) w = (Inr result, w')"
  shows "\<exists>ps. w_progress w' = w_progress w @ map Finite ps \<and> ps \<noteq> [] \<and> sorted ps
            \<and> (\<forall>p\<in>set ps. 0 \<le> p \<and> p \<le> 1) \<and> last ps = 1"
proof -
  obtain r w1 where new: "Refiner_new env srep polyData initialRegionSize finalRegionSize
      maxIterations interpolationLevel L0Weight L1Weight L2Weight w = (Inr r, w1)"
    using run unfolding RefineSRep_def
    by (auto split: prod.splits sum.splits)
  let ?r = "SetProgressCallback (Some callback) r"
  obtain r' where ran: "Refiner_Run env ?r = (Inr result, r')" and w': "w' = world_of r' w1"
    using run new unfolding RefineSRep_def Let_def
    by (auto split: prod.splits)
  define T where "T = 2 * maxIterations + 2 * int (length srep)"
  have shape: "map (map IsCrest) (m_srep r) = map (map IsCrest) srep"
    by (rule Refiner_new_Inr(2)[OF new])
  have len: "length (m_srep r) = length srep" using shape by (metis length_map)
  have valid: "valid_grid (m_srep r)" using valid_grid_cong[OF shape] grid(1) by simp
  have nonempty: "m_srep r \<noteq> []" using len grid(2) by auto
  have "int32 (2 * maxIterations) = 2 * maxIterations"
    using M by (intro int32_id) simp_all
  then have total: "m_totalProgressIterations r = T"
    using Refiner_new_Inr(3)[OF new] M by (simp add: T_def int32_id)
  have "0 < length srep" using grid(2) by simp
  then have pos: "0 < T" using M(1) unfolding T_def by linarith
  have rep: "reported T (w_progress w) r'" "m_iteration r' = T"
    using Refiner_Run_reported[of ?r maxIterations "length srep" T "w_progress w" env result r']
      Refiner_new_Inr(1,4)[OF new] M valid nonempty len total ran
    by (simp_all add: SetProgressCallback_def T_def)
  show ?thesis
    using reported_progress[OF rep pos] by (simp add: w' world_of_def)
qed


section \<open>Claim on the progress reports\<close>

subsection \<open>A run of the example, for any iteration budget\<close>

lemma example_state_sel:
  "heap (example_state h g cur M T i p) = h"
  "m_srep (example_state h g cur M T i p) = g"
  "m_polyData (example_state h g cur M T i p) = example_polyData"
  "m_iteration (example_state h g cur M T i p) = i"
  "m_maxIterations (example_state h g cur M T i p) = M"
  "m_totalProgressIterations (example_state h g cur M T i p) = T"
  "progress (example_state h g cur M T i p) = p"
  "m_flattenedUpCoeff (example_state h g cur M T i p) = [0, 0, 1, 0, 0, 0, 1, 0]"
  "m_flattenedDownCoeff (example_state h g cur M T i p) = [0, 0, -1, 0, 0, 0, -1, 0]"
  "m_initialRegionSize (example_state h g cur M T i p) = 1 / 100"
  "m_finalRegionSize (example_state h g cur M T i p) = 1 / 1000"
  "m_interpolationLevel (example_state h g cur M T i p) = 0"
  "m_L0Weight (example_state h g cur M T i p) = 1"
  "m_L1Weight (example_state h g cur M T i p) = 10"
  "m_L2Weight (example_state h g cur M T i p) = 100"
  by (simp_all add: example_state_def)

lemma example_state_upd:
  "(example_state h g cur M T i p)\<lparr>heap := h'\<rparr> = example_state h' g cur M T i p"
  "(example_state h g cur M T i p)\<lparr>m_srep := g'\<rparr> = example_state h g' cur M T i p"
  "(example_state h g cur M T i p)\<lparr>m_iteration := j\<rparr> = example_state h g cur M T j p"
  "(example_state h g cur M T i p)\<lparr>m_currentCoeff := cur'\<rparr> = example_state h g cur' M T i p"
  "(example_state h g cur M T i p)\<lparr>m_flattenedUpCoeff := [0, 0, 1, 0, 0, 0, 1, 0]\<rparr>
     = example_state h g cur M T i p"
  "(example_state h g cur M T i p)\<lparr>m_flattenedDownCoeff := [0, 0, -1, 0, 0, 0, -1, 0]\<rparr>
     = example_state h g cur M T i p"
  by (simp_all add: example_state_def)

lemma example_state_report:
  "ReportProgress (example_state h g cur M T i p)
   = (None, example_state h g cur M T i (p @ [int_quotient i T]))"
  by (simp add: ReportProgress_def example_state_def)

lemma example_state_increment:
  "IncrementIteration (example_state h g cur M T i p)
   = (None, example_state h g cur M T (int32 (i + 1)) (p @ [int_quotient (int32 (i + 1)) T]))"
  by (simp add: IncrementIteration_def example_state_sel example_state_upd example_state_report)

lemma example_SmartClone:
  assumes "a < length h" "b < length h" "c < length h" "d < length h" "e < length h"
  shows "SmartClone [[SkeletalPointOf a b None, SkeletalPointOf c d (Some e)]] h
       = ([[SkeletalPointOf (length h) (length h + 1) None,
            SkeletalPointOf (length h + 2) (length h + 3) (Some (length h + 4))]],
          h @ [h ! a, h ! b, h ! c, h ! d, h ! e])"
  using assms by (simp add: ClonePoint_def alloc_def Let_def nth_append)

lemma example_Refine_up:
  assumes "a < length h" "b < length h" "c < length h" "d < length h" "e < length h"
    and "Direction (h ! a) = Vector3d 0 0 1" "Direction (h ! c) = Vector3d 0 0 1"
  shows "Refine example_env [[SkeletalPointOf a b None, SkeletalPointOf c d (Some e)]]
           [0, 0, 1, 0, 0, 0, 1, 0] UpOrientation h
       = (Inr [[SkeletalPointOf (length h) (length h + 1) None,
                SkeletalPointOf (length h + 2) (length h + 3) (Some (length h + 4))]],
          h @ [h ! a, h ! b, h ! c, h ! d, h ! e])"
  unfolding Refine_def example_SmartClone[OF assms(1-5)]
  using assms
  by (simp add: GetNumberOfLines_def GetNumberOfSteps_def upt_small
      GetSkeletalPoint_def Refine_spoke_def Unit_def GetLength_def GetRadius_def Let_def nth_append
      divide_Vector3d_def example_env_def)

lemma example_Refine_down:
  assumes "a < length h" "b < length h" "c < length h" "d < length h" "e < length h"
    and "Direction (h ! b) = Vector3d 0 0 (-1)" "Direction (h ! d) = Vector3d 0 0 (-1)"
  shows "Refine example_env [[SkeletalPointOf a b None, SkeletalPointOf c d (Some e)]]
           [0, 0, -1, 0, 0, 0, -1, 0] DownOrientation h
       = (Inr [[SkeletalPointOf (length h) (length h + 1) None,
                SkeletalPointOf (length h + 2) (length h + 3) (Some (length h + 4))]],
          h @ [h ! a, h ! b, h ! c, h ! d, h ! e])"
  unfolding Refine_def example_SmartClone[OF assms(1-5)]
  using assms
  by (simp add: GetNumberOfLines_def GetNumberOfSteps_def upt_small
      GetSkeletalPoint_def Refine_spoke_def Unit_def GetLength_def GetRadius_def Let_def nth_append
      divide_Vector3d_def example_env_def)

lemma example_grid_iff:
  "example_grid h [[SkeletalPointOf a b None, SkeletalPointOf c d (Some e)]] =
     (a < length h \<and> b < length h \<and> c < length h \<and> d < length h \<and> e < length h
      \<and> Direction (h ! a) = Vector3d 0 0 1 \<and> Direction (h ! b) = Vector3d 0 0 (-1)
      \<and> Direction (h ! c) = Vector3d 0 0 1 \<and> Direction (h ! d) = Vector3d 0 0 (-1)
      \<and> h ! e = \<lparr>SkeletalPoint = Point3d_raw 1 0 0, Direction = Vector3d 1 0 0\<rparr>)"
  by (simp add: example_grid_def)

lemma example_min_newuoa_loop_stop:
  "evaluations \<noteq> [] \<Longrightarrow> min_newuoa_loop example_env func x rhobeg rhoend n evaluations r = (x, r)"
  by (cases n) (simp_all add: example_env_def)

lemma example_min_newuoa:
  assumes "0 < M" and "func x r = (val, r')"
  shows "min_newuoa example_env x func rhobeg rhoend M r = (x, r')"
proof -
  obtain k where k: "nat M = Suc k" using assms(1) by (cases "nat M") simp_all
  have "newuoa_next example_env x rhobeg rhoend [] = Evaluate x"
    by (simp add: example_env_def)
  then show ?thesis
    unfolding min_newuoa_def k
    by (simp add: assms(2) example_min_newuoa_loop_stop)
qed

lemma example_Evaluate_up:
  assumes "example_grid h [[SkeletalPointOf a b None, SkeletalPointOf c d (Some e)]]"
  shows "EvaluateObjectiveFunction example_env [0, 0, 1, 0, 0, 0, 1, 0] UpOrientation
           (example_state h [[SkeletalPointOf a b None, SkeletalPointOf c d (Some e)]] cur M T i p)
       = (532, example_state (h @ [h ! a, h ! b, h ! c, h ! d, h ! e])
                 [[SkeletalPointOf a b None, SkeletalPointOf c d (Some e)]] cur M T (int32 (i + 1))
                 (p @ [int_quotient (int32 (i + 1)) T]))"
proof -
  have refine: "Refine example_env [[SkeletalPointOf a b None, SkeletalPointOf c d (Some e)]]
           [0, 0, 1, 0, 0, 0, 1, 0] UpOrientation h
       = (Inr [[SkeletalPointOf (length h) (length h + 1) None,
                SkeletalPointOf (length h + 2) (length h + 3) (Some (length h + 4))]],
          h @ [h ! a, h ! b, h ! c, h ! d, h ! e])"
    using assms by (intro example_Refine_up) (simp_all add: example_grid_iff)
  have env: "SmartInterpolateSRep example_env s l = Inr s"
    "ComputeDistanceSquaredAndNormalToImage example_env s' UpOrientation = Inr (2, 3)"
    "ComputeRSradPenalty example_env s' UpOrientation = Inr 5" for s l s'
    by (simp_all add: example_env_def)
  show ?thesis
    unfolding EvaluateObjectiveFunction_def EvaluateObjectiveFunction_try_def
    by (simp add: example_state_sel refine env Let_def example_state_upd example_state_increment)
qed

lemma example_Evaluate_down:
  assumes "example_grid h [[SkeletalPointOf a b None, SkeletalPointOf c d (Some e)]]"
  shows "EvaluateObjectiveFunction example_env [0, 0, -1, 0, 0, 0, -1, 0] DownOrientation
           (example_state h [[SkeletalPointOf a b None, SkeletalPointOf c d (Some e)]] cur M T i p)
       = (532, example_state (h @ [h ! a, h ! b, h ! c, h ! d, h ! e])
                 [[SkeletalPointOf a b None, SkeletalPointOf c d (Some e)]] cur M T (int32 (i + 1))
                 (p @ [int_quotient (int32 (i + 1)) T]))"
proof -
  have refine: "Refine example_env [[SkeletalPointOf a b None, SkeletalPointOf c d (Some e)]]
           [0, 0, -1, 0, 0, 0, -1, 0] DownOrientation h
       = (Inr [[SkeletalPointOf (length h) (length h + 1) None,
                SkeletalPointOf (length h + 2) (length h + 3) (Some (length h + 4))]],
          h @ [h ! a, h ! b, h ! c, h ! d, h ! e])"
    using assms by (intro example_Refine_down) (simp_all add: example_grid_iff)
  have env: "SmartInterpolateSRep example_env s l = Inr s"
    "ComputeDistanceSquaredAndNormalToImage example_env s' DownOrientation = Inr (2, 3)"
    "ComputeRSradPenalty example_env s' DownOrientation = Inr 5" for s l s'
    by (simp_all add: example_env_def)
  show ?thesis
    unfolding EvaluateObjectiveFunction_def EvaluateObjectiveFunction_try_def
    by (simp add: example_state_sel refine env Let_def example_state_upd example_state_increment)
qed

lemma example_grid_append:
  assumes "example_grid h [[SkeletalPointOf a b None, SkeletalPointOf c d (Some e)]]"
  shows "example_grid (h @ [h ! a, h ! b, h ! c, h ! d, h ! e])
           [[SkeletalPointOf a b None, SkeletalPointOf c d (Some e)]]"
    and "example_grid (h @ [h ! a, h ! b, h ! c, h ! d, h ! e])
           [[SkeletalPointOf (length h) b None, SkeletalPointOf (length h + 2) d (Some e)]]"
    and "example_grid (h @ [h ! a, h ! b, h ! c, h ! d, h ! e])
           [[SkeletalPointOf a (length h + 1) None, SkeletalPointOf c (length h + 3) (Some e)]]"
  using assms by (simp_all add: example_grid_iff nth_append)

lemma example_RefineUpDownSpokes_up:
  assumes "example_grid h g" and "0 < M"
  shows "\<exists>h' g'. RefineUpDownSpokes example_env UpOrientation (example_state h g cur M T i p)
           = (None, example_state h' g' (Some UpOrientation) M T (int32 (i + 1))
                      (p @ [int_quotient (int32 (i + 1)) T]))
         \<and> example_grid h' g'"
proof -
  obtain a b c d e where g: "g = [[SkeletalPointOf a b None, SkeletalPointOf c d (Some e)]]"
    using assms(1) by (auto simp: example_grid_def)
  define h1 where "h1 = h @ [h ! a, h ! b, h ! c, h ! d, h ! e]"
  define h2 where "h2 = h1 @ [h1 ! a, h1 ! b, h1 ! c, h1 ! d, h1 ! e]"
  have grid: "example_grid h [[SkeletalPointOf a b None, SkeletalPointOf c d (Some e)]]"
    using assms(1) g by simp
  have grid1: "example_grid h1 [[SkeletalPointOf a b None, SkeletalPointOf c d (Some e)]]"
    unfolding h1_def by (rule example_grid_append(1)[OF grid])
  have grid2: "example_grid h2 [[SkeletalPointOf (length h1) b None, SkeletalPointOf (length h1 + 2) d (Some e)]]"
    unfolding h2_def by (rule example_grid_append(2)[OF grid1])
  have minimise: "min_newuoa example_env [0, 0, 1, 0, 0, 0, 1, 0]
      (\<lambda>coeff. EvaluateObjectiveFunction example_env coeff UpOrientation) (1 / 100) (1 / 1000) M
      (example_state h g (Some UpOrientation) M T i p)
    = ([0, 0, 1, 0, 0, 0, 1, 0],
       example_state h1 g (Some UpOrientation) M T (int32 (i + 1)) (p @ [int_quotient (int32 (i + 1)) T]))"
    unfolding g h1_def
    by (rule example_min_newuoa[where val = 532, OF assms(2)]) (rule example_Evaluate_up[OF grid])
  have refine: "Refine example_env g [0, 0, 1, 0, 0, 0, 1, 0] UpOrientation h1
       = (Inr [[SkeletalPointOf (length h1) (length h1 + 1) None,
                SkeletalPointOf (length h1 + 2) (length h1 + 3) (Some (length h1 + 4))]], h2)"
    unfolding g h2_def using grid1 by (intro example_Refine_up) (simp_all add: example_grid_iff)
  have "RefineUpDownSpokes example_env UpOrientation (example_state h g cur M T i p)
      = (None, example_state h2
                 [[SkeletalPointOf (length h1) b None, SkeletalPointOf (length h1 + 2) d (Some e)]]
                 (Some UpOrientation) M T (int32 (i + 1)) (p @ [int_quotient (int32 (i + 1)) T]))"
    unfolding RefineUpDownSpokes_def
    apply (simp add: example_state_sel example_state_upd Let_def minimise refine)
    apply (simp add: g GetNumberOfLines_def GetNumberOfSteps_def upt_small example_state_sel
        example_state_upd GetSkeletalPoint_def SetSkeletalPointAt_def)
    done
  then show ?thesis using grid2 by blast
qed

lemma example_RefineUpDownSpokes_down:
  assumes "example_grid h g" and "0 < M"
  shows "\<exists>h' g'. RefineUpDownSpokes example_env DownOrientation (example_state h g cur M T i p)
           = (None, example_state h' g' (Some DownOrientation) M T (int32 (i + 1))
                      (p @ [int_quotient (int32 (i + 1)) T]))
         \<and> example_grid h' g'"
proof -
  obtain a b c d e where g: "g = [[SkeletalPointOf a b None, SkeletalPointOf c d (Some e)]]"
    using assms(1) by (auto simp: example_grid_def)
  define h1 where "h1 = h @ [h ! a, h ! b, h ! c, h ! d, h ! e]"
  define h2 where "h2 = h1 @ [h1 ! a, h1 ! b, h1 ! c, h1 ! d, h1 ! e]"
  have grid: "example_grid h [[SkeletalPointOf a b None, SkeletalPointOf c d (Some e)]]"
    using assms(1) g by simp
  have grid1: "example_grid h1 [[SkeletalPointOf a b None, SkeletalPointOf c d (Some e)]]"
    unfolding h1_def by (rule example_grid_append(1)[OF grid])
  have grid2: "example_grid h2 [[SkeletalPointOf a (length h1 + 1) None, SkeletalPointOf c (length h1 + 3) (Some e)]]"
    unfolding h2_def by (rule example_grid_append(3)[OF grid1])
  have minimise: "min_newuoa example_env [0, 0, -1, 0, 0, 0, -1, 0]
      (\<lambda>coeff. EvaluateObjectiveFunction example_env coeff DownOrientation) (1 / 100) (1 / 1000) M
      (example_state h g (Some DownOrientation) M T i p)
    = ([0, 0, -1, 0, 0, 0, -1, 0],
       example_state h1 g (Some DownOrientation) M T (int32 (i + 1)) (p @ [int_quotient (int32 (i + 1)) T]))"
    unfolding g h1_def
    by (rule example_min_newuoa[where val = 532, OF assms(2)]) (rule example_Evaluate_down[OF grid])
  have refine: "Refine example_env g [0, 0, -1, 0, 0, 0, -1, 0] DownOrientation h1
       = (Inr [[SkeletalPointOf (length h1) (length h1 + 1) None,
                SkeletalPointOf (length h1 + 2) (length h1 + 3) (Some (length h1 + 4))]], h2)"
    unfolding g h2_def using grid1 by (intro example_Refine_down) (simp_all add: example_grid_iff)
  have "RefineUpDownSpokes example_env DownOrientation (example_state h g cur M T i p)
      = (None, example_state h2
                 [[SkeletalPointOf a (length h1 + 1) None, SkeletalPointOf c (length h1 + 3) (Some e)]]
                 (Some DownOrientation) M T (int32 (i + 1)) (p @ [int_quotient (int32 (i + 1)) T]))"
    unfolding RefineUpDownSpokes_def
    apply (simp add: example_state_sel example_state_upd Let_def minimise refine)
    apply (simp add: g GetNumberOfLines_def GetNumberOfSteps_def upt_small example_state_sel
        example_state_upd GetSkeletalPoint_def SetSkeletalPointAt_def)
    done
  then show ?thesis using grid2 by blast
qed

lemma OptimizeCrestSpokeLength_on_surface_already:
  "\<bar>distance\<bar> \<le> 1 / 100000
   \<Longrightarrow> OptimizeCrestSpokeLength env polyData n distance oldDist thisStepSize spoke = (None, spoke)"
  by (cases n) simp_all

lemma example_RefineCrestSpokes:
  assumes "example_grid h g"
  shows "\<exists>h'. RefineCrestSpokes example_env (example_state h g cur M T i p)
           = (None, example_state h' g cur M T (int32 (int32 (i + 1) + 1))
                      (p @ [int_quotient (int32 (i + 1)) T,
                            int_quotient (int32 (int32 (i + 1) + 1)) T]))"
proof -
  obtain a b c d e where g: "g = [[SkeletalPointOf a b None, SkeletalPointOf c d (Some e)]]"
    and e: "e < length h"
      "h ! e = \<lparr>SkeletalPoint = Point3d_raw 1 0 0, Direction = Vector3d 1 0 0\<rparr>"
    using assms by (auto simp: example_grid_def)
  have surface: "FunctionValue example_polyData
      (AsArray (GetBoundaryPoint \<lparr>SkeletalPoint = Point3d_raw 1 0 0, Direction = Vector3d 1 0 0\<rparr>)) = 0"
    by (simp add: example_polyData_def AsArray_def GetBoundaryPoint_def)
  have same: "h[e := \<lparr>SkeletalPoint = Point3d_raw 1 0 0, Direction = Vector3d 1 0 0\<rparr>] = h"
    using list_update_id[of h e] e(2) by simp
  have first: "OptimizeCrestSpokeLengths example_env stepSize maxIter (example_state h g cur M T i p)
      = (None, example_state h g cur M T (int32 (i + 1)) (p @ [int_quotient (int32 (i + 1)) T]))"
    for stepSize maxIter
    unfolding OptimizeCrestSpokeLengths_def
    by (simp add: example_state_sel g GetNumberOfLines_def GetNumberOfSteps_def upt_small
        GetSkeletalPoint_def IsCrest_def Let_def example_state_increment e surface
        OptimizeCrestSpokeLength_on_surface_already example_state_upd same)
  have curv: "Maximum_Curvature example_polyData = Some (\<lambda>id. 2)"
    "Minimum_Curvature example_polyData = Some (\<lambda>id. 1)"
    by (simp_all add: example_polyData_def)
  have second: "CorrectCrestSpokes example_env (\<lambda>id. 2) (\<lambda>id. 1) (example_state h g cur M T j q)
      = (None, example_state
                 (h[e := \<lparr>SkeletalPoint = Point3d_raw (3/2) 0 0, Direction = Vector3d (1/2) 0 0\<rparr>])
                 g cur M T (int32 (j + 1)) (q @ [int_quotient (int32 (j + 1)) T]))"
    for j q
    unfolding CorrectCrestSpokes_def
    by (simp add: example_state_sel g GetNumberOfLines_def GetNumberOfSteps_def upt_small
        GetSkeletalPoint_def IsCrest_def Let_def example_state_increment e ex_crest
        example_state_upd)
  have "RefineCrestSpokes example_env (example_state h g cur M T i p)
      = (None, example_state
                 (h[e := \<lparr>SkeletalPoint = Point3d_raw (3/2) 0 0, Direction = Vector3d (1/2) 0 0\<rparr>])
                 g cur M T (int32 (int32 (i + 1) + 1))
                 (p @ [int_quotient (int32 (i + 1)) T, int_quotient (int32 (int32 (i + 1) + 1)) T]))"
    unfolding RefineCrestSpokes_def
    by (simp add: first example_state_sel curv second)
  then show ?thesis by blast
qed

lemma example_Refiner_Run:
  assumes "example_grid h g" and "0 < M"
  shows "\<exists>h' g' cur'. Refiner_Run example_env (example_state h g cur M T i p)
           = (Inr g', example_state h' g' cur' M T T
                (p @ [int_quotient 0 T,
                      int_quotient (int32 (0 + 1)) T,
                      int_quotient (int32 M) T,
                      int_quotient (int32 (int32 M + 1)) T,
                      int_quotient (int32 (2 * M)) T,
                      int_quotient (int32 (int32 (2 * M) + 1)) T,
                      int_quotient (int32 (int32 (int32 (2 * M) + 1) + 1)) T]))"
proof -
  have nonempty: "\<not> IsEmpty g"
    using assms(1) by (auto simp: example_grid_def IsEmpty_def)
  obtain h1 g1 where up: "RefineUpDownSpokes example_env UpOrientation
        (example_state h g cur M T 0 (p @ [int_quotient 0 T]))
      = (None, example_state h1 g1 (Some UpOrientation) M T (int32 (0 + 1))
                 ((p @ [int_quotient 0 T]) @ [int_quotient (int32 (0 + 1)) T]))"
    and grid1: "example_grid h1 g1"
    using example_RefineUpDownSpokes_up[OF assms, of cur T 0 "p @ [int_quotient 0 T]"] by blast
  obtain h2 g2 where down: "RefineUpDownSpokes example_env DownOrientation
        (example_state h1 g1 (Some UpOrientation) M T (int32 M)
           (p @ [int_quotient 0 T, int_quotient (int32 (0 + 1)) T, int_quotient (int32 M) T]))
      = (None, example_state h2 g2 (Some DownOrientation) M T (int32 (int32 M + 1))
                 ((p @ [int_quotient 0 T, int_quotient (int32 (0 + 1)) T, int_quotient (int32 M) T])
                  @ [int_quotient (int32 (int32 M + 1)) T]))"
    and grid2: "example_grid h2 g2"
    using example_RefineUpDownSpokes_down[OF grid1 assms(2), of "Some UpOrientation" T "int32 M"
        "p @ [int_quotient 0 T, int_quotient (int32 (0 + 1)) T, int_quotient (int32 M) T]"]
    by blast
  obtain h3 where crest: "RefineCrestSpokes example_env
        (example_state h2 g2 (Some DownOrientation) M T (int32 (2 * M))
           (p @ [int_quotient 0 T, int_quotient (int32 (0 + 1)) T, int_quotient (int32 M) T,
                 int_quotient (int32 (int32 M + 1)) T, int_quotient (int32 (2 * M)) T]))
      = (None, example_state h3 g2 (Some DownOrientation) M T (int32 (int32 (int32 (2 * M) + 1) + 1))
                 ((p @ [int_quotient 0 T, int_quotient (int32 (0 + 1)) T, int_quotient (int32 M) T,
                        int_quotient (int32 (int32 M + 1)) T, int_quotient (int32 (2 * M)) T])
                  @ [int_quotient (int32 (int32 (2 * M) + 1)) T,
                     int_quotient (int32 (int32 (int32 (2 * M) + 1) + 1)) T]))"
    using example_RefineCrestSpokes[OF grid2, of "Some DownOrientation" M T "int32 (2 * M)"
        "p @ [int_quotient 0 T, int_quotient (int32 (0 + 1)) T, int_quotient (int32 M) T,
              int_quotient (int32 (int32 M + 1)) T, int_quotient (int32 (2 * M)) T]"]
    by blast
  have "Refiner_Run example_env (example_state h g cur M T i p)
      = (Inr g2, example_state h3 g2 (Some DownOrientation) M T T
                (p @ [int_quotient 0 T,
                      int_quotient (int32 (0 + 1)) T,
                      int_quotient (int32 M) T,
                      int_quotient (int32 (int32 M + 1)) T,
                      int_quotient (int32 (2 * M)) T,
                      int_quotient (int32 (int32 (2 * M) + 1)) T,
                      int_quotient (int32 (int32 (int32 (2 * M) + 1) + 1)) T]))"
    unfolding Refiner_Run_def
    using nonempty up down crest
    by (simp add: example_state_sel example_state_upd example_state_report RefineSpokes_def Let_def)
  then show ?thesis by blast
qed

lemma example_world_sel:
  "w_heap example_world = example_heap" "w_progress example_world = []"
  "w_fieldConstructions example_world = 0"
  by (simp_all add: example_world_def)

lemma example_clone_grid:
  "example_grid (example_heap @ example_heap) [[SkeletalPointOf 5 6 None, SkeletalPointOf 7 8 (Some 9)]]"
  by (simp add: example_grid_iff example_heap_def)

lemma example_GetInitialCoefficients:
  assumes "example_grid (heap r) (m_srep r)"
  shows "GetInitialCoefficients example_env r
       = (None, r\<lparr>m_flattenedUpCoeff := m_flattenedUpCoeff r @ [0, 0, 1, 0, 0, 0, 1, 0],
                   m_flattenedDownCoeff := m_flattenedDownCoeff r @ [0, 0, -1, 0, 0, 0, -1, 0]\<rparr>)"
proof -
  obtain a b c d e where g: "m_srep r = [[SkeletalPointOf a b None, SkeletalPointOf c d (Some e)]]"
    and dirs: "Direction (heap r ! a) = Vector3d 0 0 1" "Direction (heap r ! b) = Vector3d 0 0 (-1)"
      "Direction (heap r ! c) = Vector3d 0 0 1" "Direction (heap r ! d) = Vector3d 0 0 (-1)"
    using assms by (auto simp: example_grid_def)
  show ?thesis
    unfolding GetInitialCoefficients_def
    by (simp add: g dirs GetNumberOfLines_def GetNumberOfSteps_def upt_small GetSkeletalPoint_def
        Let_def Unit_def GetLength_def divide_Vector3d_def)
qed

lemma example_Refiner_new:
  "Refiner_new example_env example_srep (Some example_polyData) (1 / 100) (1 / 1000) M 0 1 10 100
     example_world
   = (Inr ((example_state (example_heap @ example_heap)
              [[SkeletalPointOf 5 6 None, SkeletalPointOf 7 8 (Some 9)]] None M
              (int32 (int32 (2 * M) + 2)) 0 [])\<lparr>m_progressCallback := None\<rparr>),
      example_world\<lparr>w_heap := example_heap @ example_heap, w_fieldConstructions := 1\<rparr>)"
proof -
  have bounds: "ComputeMasterBounds example_env (Some example_polyData) s = Inr [Finite 0, Finite 4, Finite 0, Finite 2, Finite (-1), Finite 1]" for s
    by (simp add: ComputeMasterBounds_def example_env_def example_polyData_def Let_def dmin_def dmax_def)
  have build: "BuildSignedDistanceMap example_env pd b v = None" for pd b v
    by (simp add: example_env_def)
  show ?thesis
    unfolding Refiner_new_def
    by (simp add: example_world_sel ex_clone Let_def bounds build example_GetInitialCoefficients
        example_clone_grid GetNumberOfLines_def example_state_def)
qed

lemma example_Run:
  assumes "0 < M"
  shows "\<exists>w'. Run example_env (\<lambda>p. None) (Some \<lparr>GetPolyData = Some example_polyData\<rparr>)
                (Some \<lparr>GetSRep = Some example_srep\<rparr>) (1 / 100) (1 / 1000) M 0 1 10 100 example_world
              = (None, w')
            \<and> w_progress w' =
                [int_quotient 0 (int32 (int32 (2 * M) + 2)),
                 int_quotient (int32 (0 + 1)) (int32 (int32 (2 * M) + 2)),
                 int_quotient (int32 M) (int32 (int32 (2 * M) + 2)),
                 int_quotient (int32 (int32 M + 1)) (int32 (int32 (2 * M) + 2)),
                 int_quotient (int32 (2 * M)) (int32 (int32 (2 * M) + 2)),
                 int_quotient (int32 (int32 (2 * M) + 1)) (int32 (int32 (2 * M) + 2)),
                 int_quotient (int32 (int32 (int32 (2 * M) + 1) + 1)) (int32 (int32 (2 * M) + 2))]"
proof -
  define T where "T = int32 (int32 (2 * M) + 2)"
  let ?h = "example_heap @ example_heap"
  let ?g = "[[SkeletalPointOf 5 6 None, SkeletalPointOf 7 8 (Some 9)]]"
  obtain h' g' cur' where run: "Refiner_Run example_env (example_state ?h ?g None M T 0 [])
      = (Inr g', example_state h' g' cur' M T T
           ([] @ [int_quotient 0 T, int_quotient (int32 (0 + 1)) T, int_quotient (int32 M) T,
                  int_quotient (int32 (int32 M + 1)) T, int_quotient (int32 (2 * M)) T,
                  int_quotient (int32 (int32 (2 * M) + 1)) T,
                  int_quotient (int32 (int32 (int32 (2 * M) + 1) + 1)) T]))"
    using example_Refiner_Run[OF example_clone_grid assms, of None T 0 "[]"] by blast
  have callback: "SetProgressCallback (Some (\<lambda>p. None))
      ((example_state ?h ?g None M T 0 [])\<lparr>m_progressCallback := None\<rparr>)
    = example_state ?h ?g None M T 0 []"
    by (simp add: SetProgressCallback_def example_state_def)
  have refine: "RefineSRep example_env example_srep (Some example_polyData) (1 / 100) (1 / 1000) M 0
      1 10 100 (Some (\<lambda>p. None)) example_world
    = (Inr g', world_of (example_state h' g' cur' M T T
           [int_quotient 0 T, int_quotient (int32 (0 + 1)) T, int_quotient (int32 M) T,
            int_quotient (int32 (int32 M + 1)) T, int_quotient (int32 (2 * M)) T,
            int_quotient (int32 (int32 (2 * M) + 1)) T,
            int_quotient (int32 (int32 (int32 (2 * M) + 1) + 1)) T])
         (example_world\<lparr>w_heap := ?h, w_fieldConstructions := 1\<rparr>))"
    unfolding RefineSRep_def example_Refiner_new T_def[symmetric]
    using run by (simp add: callback)
  have "IsEmpty example_srep = False" by (simp add: IsEmpty_def example_srep_def)
  then show ?thesis
    unfolding Run_def Run_try_def T_def[symmetric]
    using assms refine
    by (simp add: world_of_def example_state_sel)
qed

subsection \<open>Runs whose total fits an \<^verbatim>\<open>int\<close>\<close>

text \<open>
  When \<open>2 * maxIterations + 2 * lines\<close> is below \<open>2^31\<close>, a run of \<^verbatim>\<open>Run\<close> on a valid grid that
  completes has called the progress callback at least once, with ascending values of
  \<open>[0, 1]\<close>, the last of them 1.
\<close>

lemma Run_progress_without_overflow:
  assumes node: "srepNode = Some node" "GetSRep node = Some srep"
    and grid: "valid_grid srep"
    and total: "2 * maxIterations + 2 * int (length srep) < 2 ^ 31"
    and run: "Run env observers model srepNode initialRegionSize finalRegionSize maxIterations
                interpolationLevel L0Weight L1Weight L2Weight w = (None, w')"
  shows "\<exists>ps. w_progress w' = w_progress w @ map Finite ps \<and> ps \<noteq> [] \<and> sorted ps
            \<and> (\<forall>p\<in>set ps. 0 \<le> p \<and> p \<le> 1) \<and> last ps = 1"
proof -
  have tr: "Run_try env observers model srepNode initialRegionSize finalRegionSize maxIterations
      interpolationLevel L0Weight L1Weight L2Weight w = (None, w')"
    using run unfolding Run_def by (auto split: prod.splits option.splits error.splits)
  obtain modelNode where model: "model = Some modelNode"
    using tr unfolding Run_try_def by (cases model) simp_all
  have nonempty: "srep \<noteq> []" and M: "1 \<le> maxIterations"
    using tr node model unfolding Run_try_def IsEmpty_def
    by (auto split: if_splits)
  obtain refined w2 where refine: "RefineSRep env srep (GetPolyData modelNode) initialRegionSize
      finalRegionSize maxIterations interpolationLevel L0Weight L1Weight L2Weight (Some observers) w
      = (Inr refined, w2)" and w': "w' = w2\<lparr>w_destination := Some refined\<rparr>"
    using tr node model unfolding Run_try_def IsEmpty_def
    by (auto split: if_splits prod.splits sum.splits)
  have "0 \<le> maxIterations" using M by simp
  from RefineSRep_progress[OF grid nonempty this total refine]
  show ?thesis by (simp add: w')
qed

subsection \<open>A run whose total does not fit\<close>

text \<open>
  Claim C3 (over a complete run on a non-empty grid the values passed to the progress
  callback are ascending, lie in \<open>[0, 1]\<close> and end with 1). The run of the example with
  \<open>maxIterations = 2^30 - 1 = 1073741823\<close> completes. Its total
  \<open>2 * maxIterations + 2 * 1 = 2^31\<close> is \<open>-2^31\<close> as an \<^verbatim>\<open>int\<close>, and the seven values the
  callback is called with are 0, then five negative values in descending order, then 1.
\<close>

theorem Run_progress_overflow:
  "fst (Run example_env (\<lambda>p. None) (Some \<lparr>GetPolyData = Some example_polyData\<rparr>)
          (Some \<lparr>GetSRep = Some example_srep\<rparr>) (1 / 100) (1 / 1000) 1073741823 0 1 10 100
          example_world) = None
   \<and> w_progress (snd (Run example_env (\<lambda>p. None) (Some \<lparr>GetPolyData = Some example_polyData\<rparr>)
          (Some \<lparr>GetSRep = Some example_srep\<rparr>) (1 / 100) (1 / 1000) 1073741823 0 1 10 100
          example_world))
     = [Finite 0, Finite (- (1 / 2147483648)), Finite (- (1073741823 / 2147483648)),
        Finite (- (1 / 2)), Finite (- (1073741823 / 1073741824)),
        Finite (- (2147483647 / 2147483648)), Finite 1]"
proof -
  obtain w' where run: "Run example_env (\<lambda>p. None) (Some \<lparr>GetPolyData = Some example_polyData\<rparr>)
      (Some \<lparr>GetSRep = Some example_srep\<rparr>) (1 / 100) (1 / 1000) 1073741823 0 1 10 100 example_world
      = (None, w')"
    and log: "w_progress w' =
                [int_quotient 0 (int32 (int32 (2 * 1073741823) + 2)),
                 int_quotient (int32 (0 + 1)) (int32 (int32 (2 * 1073741823) + 2)),
                 int_quotient (int32 1073741823) (int32 (int32 (2 * 1073741823) + 2)),
                 int_quotient (int32 (int32 1073741823 + 1)) (int32 (int32 (2 * 1073741823) + 2)),
                 int_quotient (int32 (2 * 1073741823)) (int32 (int32 (2 * 1073741823) + 2)),
                 int_quotient (int32 (int32 (2 * 1073741823) + 1)) (int32 (int32 (2 * 1073741823) + 2)),
                 int_quotient (int32 (int32 (int32 (2 * 1073741823) + 1) + 1))
                   (int32 (int32 (2 * 1073741823) + 2))]"
    using example_Run[of 1073741823] by auto
  have wrap: "int32 1 = 1" "int32 1073741823 = 1073741823" "int32 1073741824 = 1073741824"
    "int32 2147483646 = 2147483646" "int32 2147483647 = 2147483647"
    "int32 2147483648 = - 2147483648"
    by (simp_all add: int32_def)
  have exact: "round64 (real_of_int m / 2147483648) = Finite (real_of_int m / 2147483648)"
    if "\<bar>m\<bar> < 2 ^ 53" for m
    using round64_exact[of "real_of_int m / 2147483648" m "- 31"] that by (simp add: pow2_def)
  note quotients = exact[of "- 1", simplified] exact[of "- 1073741823", simplified]
    exact[of "- 1073741824", simplified] exact[of "- 2147483646", simplified]
    exact[of "- 2147483647", simplified]
  show ?thesis
    unfolding run fst_conv snd_conv log
    by (simp add: int_quotient_def wrap round64_0 round64_1 quotients)
qed

end
